(* ===== verification/Prelude.thy ===== *)
theory Prelude
  imports Main "HOL-Library.AList" "HOL-Library.Sublist" "HOL-Library.Word"
begin

text \<open>
  Shared vocabulary of the development.

  \<^item> Go bytes are \<open>8 word\<close>, a Go byte slice is a list of them, a Go string is a HOL
    \<open>string\<close> (one \<open>char\<close> per byte).
  \<^item> A Go map is an association list with distinct keys. The position of an entry is the
    position at which one particular \<open>range\<close> over the map visits it; Go leaves that order
    open, so a statement that holds for every such list holds for every iteration order.
  \<^item> A call that may panic returns a value of \<open>'a go\<close>; a call that may fail with a Go
    \<open>error\<close> returns a sum with the error on the left.
  \<^item> The collections \<open>go_map\<close> and \<open>go_text\<close> hold the rewrite rules that the component
    theories pass to the simplifier.
\<close>

named_theorems go_map \<open>rewrite rules for Go maps kept as association lists\<close>
named_theorems go_text \<open>rewrite rules for Go strings and byte slices\<close>

type_synonym byte = "8 word"
type_synonym bytes = "byte list"

subsection \<open>Panics\<close>

datatype 'a go = Ret 'a | Panic string

fun go_bind :: "'a go \<Rightarrow> ('a \<Rightarrow> 'b go) \<Rightarrow> 'b go" where
  "go_bind (Ret x) f = f x"
| "go_bind (Panic p) f = Panic p"

fun panics :: "'a go \<Rightarrow> bool" where
  "panics (Ret x) = False"
| "panics (Panic p) = True"

lemma go_bind_Ret_iff: "go_bind x f = Ret y \<longleftrightarrow> (\<exists>v. x = Ret v \<and> f v = Ret y)"
  by (cases x) auto

lemma go_bind_assoc: "go_bind (go_bind x f) g = go_bind x (\<lambda>v. go_bind (f v) g)"
  by (cases x) auto

subsection \<open>Go maps with slices as values\<close>

text \<open>\<open>mget m k\<close> is Go's \<open>m[k]\<close> for a map of slices: the zero value (the nil slice,
  here the empty list) when the key is absent.\<close>

definition mget :: "('k \<times> 'v list) list \<Rightarrow> 'k \<Rightarrow> 'v list" where
  "mget m k = (case map_of m k of None \<Rightarrow> [] | Some vs \<Rightarrow> vs)"

text \<open>\<open>mappend m k vs\<close> is the statement \<open>m[k] = append(m[k], vs...)\<close>.\<close>

definition mappend :: "('k \<times> 'v list) list \<Rightarrow> 'k \<Rightarrow> 'v list \<Rightarrow> ('k \<times> 'v list) list" where
  "mappend m k vs = AList.update k (mget m k @ vs) m"

text \<open>\<open>mjoin m md\<close> is the loop \<open>for k, v := range md { m[k] = append(m[k], v...) }\<close>.\<close>

fun mjoin :: "('k \<times> 'v list) list \<Rightarrow> ('k \<times> 'v list) list \<Rightarrow> ('k \<times> 'v list) list" where
  "mjoin m [] = m"
| "mjoin m ((k, vs) # md) = mjoin (mappend m k vs) md"

text \<open>The metadata of several calls, joined per key in the order of the calls.\<close>

definition md_joined :: "('k \<times> 'v list) list list \<Rightarrow> ('k \<times> 'v list) list" where
  "md_joined ms = foldl mjoin [] ms"

lemma mget_Nil [simp, go_map]: "mget [] k = []"
  by (simp add: mget_def)

lemma mget_Cons [go_map]: "mget ((k', vs) # m) k = (if k' = k then vs else mget m k)"
  by (auto simp: mget_def)

lemma mget_mappend [simp, go_map]:
  "mget (mappend m k vs) k' = (if k = k' then mget m k @ vs else mget m k')"
  by (auto simp: mget_def mappend_def update_conv')

lemma dom_mappend [go_map]: "fst ` set (mappend m k vs) = insert k (fst ` set m)"
  by (simp add: mappend_def dom_update)

lemma distinct_mappend [intro]: "distinct (map fst m) \<Longrightarrow> distinct (map fst (mappend m k vs))"
  by (simp add: mappend_def distinct_update)

lemma distinct_mjoin [intro]: "distinct (map fst m) \<Longrightarrow> distinct (map fst (mjoin m md))"
  by (induction m md rule: mjoin.induct) auto

lemma dom_mjoin [go_map]: "fst ` set (mjoin m md) = fst ` set m \<union> fst ` set md"
  by (induction m md rule: mjoin.induct) (auto simp: dom_mappend)

lemma mget_notin [go_map]: "k \<notin> fst ` set m \<Longrightarrow> mget m k = []"
  by (simp add: mget_def map_of_eq_None_iff [THEN iffD2])

text \<open>Whatever order the range visits the (distinct) keys in, each key ends with its old
  values followed by the new ones.\<close>

lemma mget_mjoin [go_map]:
  "distinct (map fst md) \<Longrightarrow> mget (mjoin m md) k = mget m k @ mget md k"
proof (induction m md rule: mjoin.induct)
  case (1 m)
  then show ?case by simp
next
  case (2 m k' vs md)
  then show ?case by (auto simp: mget_Cons mget_notin)
qed

lemma mjoin_append: "mjoin m (a @ b) = mjoin (mjoin m a) b"
  by (induction m a rule: mjoin.induct) auto

lemma mappend_eq_Nil_iff [simp]: "mappend m k vs \<noteq> []"
  using dom_mappend [of m k vs] by fastforce

lemma mjoin_eq_Nil_iff [simp]: "mjoin m md = [] \<longleftrightarrow> m = [] \<and> md = []"
  using dom_mjoin [of m md] by (auto simp: image_is_empty dest: arg_cong [where f = "image fst \<circ> set"])

subsection \<open>Association lists as finite maps\<close>

lemma map_of_update_self [simp]: "map_of (AList.update k v m) k = Some v"
  by (simp add: update_conv')

lemma map_of_mem_distinct:
  "distinct (map fst m) \<Longrightarrow> (k, v) \<in> set m \<Longrightarrow> map_of m k = Some v"
  by simp

lemma map_of_snoc:
  "k \<notin> fst ` set m \<Longrightarrow> AList.update k v m = m @ [(k, v)]"
  by (induction m) auto

subsection \<open>Lists\<close>

lemma foldl_index_rev:
  "foldl (\<lambda>h i. f (xs ! (length xs - i - 1)) h) h [0..<length xs] = foldr f xs h"
proof (induction xs arbitrary: h rule: rev_induct)
  case Nil
  then show ?case by simp
next
  case (snoc x xs)
  have "foldl (\<lambda>h i. f ((xs @ [x]) ! (length (xs @ [x]) - i - 1)) h) h [0..<length (xs @ [x])] =
      foldl (\<lambda>h i. f ((xs @ [x]) ! (length xs - i)) h) (f x h) (map Suc [0..<length xs])"
    by (simp add: upt_conv_Cons map_Suc_upt del: upt_Suc)
  also have "\<dots> = foldl (\<lambda>h i. f ((xs @ [x]) ! (length xs - Suc i)) h) (f x h) [0..<length xs]"
    by (simp add: foldl_map)
  also have "\<dots> = foldl (\<lambda>h i. f (xs ! (length xs - i - 1)) h) (f x h) [0..<length xs]"
    by (rule foldl_cong) (auto simp: nth_append)
  finally show ?case by (simp only: snoc foldr_append foldr.simps comp_apply id_apply)
qed

end
