(* ===== verification/Go_Text.thy ===== *)
theory Go_Text
  imports Prelude
begin

text \<open>
  The parts of Go's standard library that the program uses on strings and numbers:
  \<open>strings.SplitN\<close> with limit 2, \<open>strings.HasPrefix\<close> and \<open>HasSuffix\<close>, \<open>strings.ToLower\<close>
  (on the ASCII keys the program applies it to), \<open>fmt\<close>'s \<open>%d\<close>,
  \<open>strconv.ParseInt\<close> in base 10, \<open>textproto.CanonicalMIMEHeaderKey\<close>, and the conversions
  between strings and byte slices.
\<close>

subsection \<open>Strings and byte slices\<close>

definition bytes_of :: "string \<Rightarrow> bytes" where
  "bytes_of s = map (\<lambda>c. of_nat (of_char c)) s"

definition string_of :: "bytes \<Rightarrow> string" where
  "string_of b = map (\<lambda>w. char_of (unat w)) b"

lemma unat_of_char [simp]: "unat (of_nat (of_char c) :: byte) = of_char c"
proof -
  have "(of_char c :: nat) < 256"
    using of_char_mod_256 [of c, where ?'a = nat] mod_less_divisor [of 256 "of_char c"] by simp
  then show ?thesis by (simp add: unat_of_nat)
qed

lemma string_of_bytes_of [simp, go_text]: "string_of (bytes_of s) = s"
  by (induction s) (auto simp: string_of_def bytes_of_def)

lemma bytes_of_string_of [simp, go_text]: "bytes_of (string_of b) = b"
proof (induction b)
  case Nil
  then show ?case by (simp add: string_of_def bytes_of_def)
next
  case (Cons w b)
  have "unat w < 256"
    using unsigned_less [of w, where ?'a = nat] by simp
  then have "of_char (char_of (unat w) :: char) = unat w"
    by (simp add: of_char_of)
  with Cons show ?case by (simp add: string_of_def bytes_of_def)
qed

lemma length_bytes_of [simp, go_text]: "length (bytes_of s) = length s"
  by (simp add: bytes_of_def)

lemma bytes_of_eq_Nil_iff [simp]: "bytes_of s = [] \<longleftrightarrow> s = []"
  by (simp add: bytes_of_def)

lemma string_of_eq_Nil_iff [simp]: "string_of b = [] \<longleftrightarrow> b = []"
  by (simp add: string_of_def)

lemma bytes_of_append: "bytes_of (a @ b) = bytes_of a @ bytes_of b"
  by (simp add: bytes_of_def)

lemma bytes_of_inj: "bytes_of a = bytes_of b \<longleftrightarrow> a = b"
  by (metis string_of_bytes_of)

subsection \<open>Prefixes, suffixes, splitting\<close>

definition has_prefix :: "'a list \<Rightarrow> 'a list \<Rightarrow> bool" where
  "has_prefix s p = (take (length p) s = p)"

definition has_suffix :: "'a list \<Rightarrow> 'a list \<Rightarrow> bool" where
  "has_suffix s p = (length p \<le> length s \<and> drop (length s - length p) s = p)"

lemma has_prefix_append [simp, go_text]: "has_prefix (p @ s) p"
  by (simp add: has_prefix_def)

lemma has_prefixE: "has_prefix s p \<Longrightarrow> s = p @ drop (length p) s"
  by (metis append_take_drop_id has_prefix_def)

lemma has_suffix_append [simp, go_text]: "has_suffix (s @ p) p"
  by (simp add: has_suffix_def)

lemma has_suffix_append_iff: "length q \<le> length s \<Longrightarrow> has_suffix (p @ s) q = has_suffix s q"
  by (auto simp: has_suffix_def)

text \<open>\<open>splitn2 c s\<close> is \<open>strings.SplitN(s, c, 2)\<close> for a separator of one byte.\<close>

definition splitn2 :: "char \<Rightarrow> string \<Rightarrow> string list" where
  "splitn2 c s =
     (case dropWhile (\<lambda>x. x \<noteq> c) s of
        [] \<Rightarrow> [s]
      | _ # rest \<Rightarrow> [takeWhile (\<lambda>x. x \<noteq> c) s, rest])"

lemma splitn2_sep [simp, go_text]: "c \<notin> set a \<Longrightarrow> splitn2 c (a @ c # b) = [a, b]"
proof -
  assume c: "c \<notin> set a"
  then have "dropWhile (\<lambda>x. x \<noteq> c) (a @ c # b) = c # b"
    by (induction a) auto
  moreover from c have "takeWhile (\<lambda>x. x \<noteq> c) (a @ c # b) = a"
    by (induction a) auto
  ultimately show ?thesis by (simp add: splitn2_def)
qed

lemma splitn2_nosep [simp, go_text]: "c \<notin> set a \<Longrightarrow> splitn2 c a = [a]"
proof -
  assume c: "c \<notin> set a"
  then have "dropWhile (\<lambda>x. x \<noteq> c) a = []" by (induction a) auto
  then show ?thesis by (simp add: splitn2_def del: dropWhile_eq_Nil_conv)
qed

lemma splitn2_cases:
  "(\<exists>a b. s = a @ c # b \<and> c \<notin> set a \<and> splitn2 c s = [a, b]) \<or> (c \<notin> set s \<and> splitn2 c s = [s])"
proof (cases "c \<in> set s")
  case True
  then obtain a b where "s = a @ c # b" "c \<notin> set a" by (meson split_list_first)
  then show ?thesis by auto
next
  case False
  then show ?thesis by auto
qed

subsection \<open>Letter case\<close>

definition lower_char :: "char \<Rightarrow> char" where
  "lower_char c =
     (let n = of_char c :: nat in if 65 \<le> n \<and> n \<le> 90 then char_of (n + 32) else c)"

definition upper_char :: "char \<Rightarrow> char" where
  "upper_char c =
     (let n = of_char c :: nat in if 97 \<le> n \<and> n \<le> 122 then char_of (n - 32) else c)"

definition to_lower :: "string \<Rightarrow> string" where
  "to_lower s = map lower_char s"

lemma of_char_lower_char:
  "(of_char (lower_char c) :: nat) =
     (let n = of_char c in if 65 \<le> n \<and> n \<le> 90 then n + 32 else n)"
  by (simp add: lower_char_def Let_def of_char_of)

lemma of_char_upper_char:
  "(of_char (upper_char c) :: nat) =
     (let n = of_char c in if 97 \<le> n \<and> n \<le> 122 then n - 32 else n)"
  by (auto simp: upper_char_def Let_def of_char_of)

lemma char_eq_nat_iff: "c = d \<longleftrightarrow> (of_char c :: nat) = of_char d"
  by (metis char_of_char)

lemma lower_char_idem [simp, go_text]: "lower_char (lower_char c) = lower_char c"
  by (simp add: char_eq_nat_iff of_char_lower_char Let_def)

lemma lower_upper_char [simp, go_text]: "lower_char (upper_char c) = lower_char c"
  by (auto simp: char_eq_nat_iff of_char_lower_char of_char_upper_char Let_def)

lemma to_lower_idem [simp, go_text]: "to_lower (to_lower s) = to_lower s"
  by (simp add: to_lower_def)

lemma to_lower_append: "to_lower (a @ b) = to_lower a @ to_lower b"
  by (simp add: to_lower_def)

lemma length_to_lower [simp, go_text]: "length (to_lower s) = length s"
  by (simp add: to_lower_def)

lemma to_lower_Nil_iff [simp]: "to_lower s = [] \<longleftrightarrow> s = []"
  by (simp add: to_lower_def)

subsection \<open>Canonical MIME header keys\<close>

text \<open>The token bytes of RFC 7230, which \<open>textproto\<close> accepts in a header key.\<close>

definition token_char :: "char \<Rightarrow> bool" where
  "token_char c =
     (let n = of_char c :: nat in
      48 \<le> n \<and> n \<le> 57 \<or> 65 \<le> n \<and> n \<le> 90 \<or> 97 \<le> n \<and> n \<le> 122 \<or>
      n \<in> {33, 35, 36, 37, 38, 39, 42, 43, 45, 46, 94, 95, 96, 124, 126})"

text \<open>The scan of \<open>canonicalMIMEHeaderKey\<close>: a letter is upper case at the start and after a
  hyphen and lower case elsewhere.\<close>

fun canon_scan :: "bool \<Rightarrow> string \<Rightarrow> string" where
  "canon_scan upper [] = []"
| "canon_scan upper (c # cs) =
     (let c' = (if upper then upper_char c else lower_char c)
      in c' # canon_scan (c' = CHR ''-'') cs)"

text \<open>A key with a byte that is no token byte is left as it is.\<close>

definition canonical_key :: "string \<Rightarrow> string" where
  "canonical_key k = (if list_all token_char k then canon_scan True k else k)"

lemma to_lower_canon_scan [simp, go_text]: "to_lower (canon_scan b k) = to_lower k"
  by (induction b k rule: canon_scan.induct) (auto simp: to_lower_def Let_def)

lemma to_lower_canonical_key [simp, go_text]: "to_lower (canonical_key k) = to_lower k"
  by (simp add: canonical_key_def)

lemma upper_lower_char [simp, go_text]: "upper_char (lower_char c) = upper_char c"
  by (auto simp: char_eq_nat_iff of_char_lower_char of_char_upper_char Let_def)

lemma upper_char_idem [simp, go_text]: "upper_char (upper_char c) = upper_char c"
  by (auto simp: char_eq_nat_iff of_char_upper_char Let_def)

lemma canon_scan_idem [simp, go_text]: "canon_scan b (canon_scan b k) = canon_scan b k"
  by (induction b k rule: canon_scan.induct) (auto simp: Let_def)

lemma canon_scan_to_lower [simp, go_text]: "canon_scan b (to_lower k) = canon_scan b k"
  by (induction b k rule: canon_scan.induct) (auto simp: Let_def to_lower_def)

lemma token_char_lower [simp]: "token_char (lower_char c) = token_char c"
  by (auto simp: token_char_def of_char_lower_char Let_def)

lemma token_char_letter:
  "65 \<le> (of_char c :: nat) \<Longrightarrow> (of_char c :: nat) \<le> 90 \<Longrightarrow> token_char c"
  "97 \<le> (of_char c :: nat) \<Longrightarrow> (of_char c :: nat) \<le> 122 \<Longrightarrow> token_char c"
  by (simp_all add: token_char_def Let_def)

lemma token_char_upper [simp]: "token_char (upper_char c) = token_char c"
proof (cases "97 \<le> (of_char c :: nat) \<and> (of_char c :: nat) \<le> 122")
  case True
  then have "65 \<le> (of_char (upper_char c) :: nat)" "(of_char (upper_char c) :: nat) \<le> 90"
    using True by (auto simp: of_char_upper_char Let_def)
  with True show ?thesis by (simp add: token_char_letter)
next
  case False
  then have "upper_char c = c" by (auto simp: upper_char_def Let_def)
  then show ?thesis by simp
qed

lemma token_canon_scan [simp]: "list_all token_char (canon_scan b k) = list_all token_char k"
  by (induction b k rule: canon_scan.induct) (auto simp: Let_def)

lemma canonical_key_idem [simp, go_text]: "canonical_key (canonical_key k) = canonical_key k"
  by (simp add: canonical_key_def)

text \<open>Two token keys have one canonical form exactly when they agree up to letter case.\<close>

lemma canonical_key_eq_iff:
  assumes "list_all token_char a" and "list_all token_char b"
  shows "canonical_key a = canonical_key b \<longleftrightarrow> to_lower a = to_lower b"
proof
  assume "canonical_key a = canonical_key b"
  then have "to_lower (canonical_key a) = to_lower (canonical_key b)" by simp
  then show "to_lower a = to_lower b" by (simp only: to_lower_canonical_key)
next
  assume "to_lower a = to_lower b"
  then have "canon_scan True (to_lower a) = canon_scan True (to_lower b)" by simp
  with assms show "canonical_key a = canonical_key b"
    by (simp only: canonical_key_def canon_scan_to_lower if_True)
qed

subsection \<open>Decimal numbers\<close>

definition digit_char :: "nat \<Rightarrow> char" where
  "digit_char d = char_of (48 + d)"

definition is_digit :: "char \<Rightarrow> bool" where
  "is_digit c = (let n = of_char c :: nat in 48 \<le> n \<and> n \<le> 57)"

definition digit_val :: "char \<Rightarrow> nat" where
  "digit_val c = of_char c - 48"

fun show_nat :: "nat \<Rightarrow> string" where
  "show_nat n =
     (if n < 10 then [digit_char n] else show_nat (n div 10) @ [digit_char (n mod 10)])"

declare show_nat.simps [simp del]

definition show_int :: "int \<Rightarrow> string" where
  "show_int i = (if i < 0 then CHR ''-'' # show_nat (nat (- i)) else show_nat (nat i))"

definition digits_val :: "string \<Rightarrow> nat" where
  "digits_val s = foldl (\<lambda>n c. 10 * n + digit_val c) 0 s"

text \<open>\<open>parse_int s bits\<close> is \<open>strconv.ParseInt(s, 10, bits)\<close>: an optional sign, then one or
  more decimal digits and nothing else, and a value that fits; \<open>None\<close> is the error.\<close>

definition parse_int :: "string \<Rightarrow> nat \<Rightarrow> int option" where
  "parse_int s bits =
     (let neg = (case s of c # _ \<Rightarrow> c = CHR ''-'' | [] \<Rightarrow> False);
          ds = (case s of c # rest \<Rightarrow> if c = CHR ''-'' \<or> c = CHR ''+'' then rest else s | [] \<Rightarrow> [])
      in if ds = [] \<or> \<not> list_all is_digit ds then None
         else let v = int (digits_val ds) in
              if neg then (if v \<le> 2 ^ (bits - 1) then Some (- v) else None)
              else (if v < 2 ^ (bits - 1) then Some v else None))"

lemma is_digit_digit_char: "d < 10 \<Longrightarrow> is_digit (digit_char d)"
  by (simp add: is_digit_def digit_char_def of_char_of)

lemma digit_val_digit_char: "d < 10 \<Longrightarrow> digit_val (digit_char d) = d"
  by (simp add: digit_val_def digit_char_def of_char_of)

lemma show_nat_digits: "list_all is_digit (show_nat n) \<and> show_nat n \<noteq> []"
proof (induction n rule: show_nat.induct)
  case (1 n)
  then show ?case
    by (cases "n < 10") (simp_all add: show_nat.simps [of n] is_digit_digit_char)
qed

lemma digits_val_show_nat: "digits_val (show_nat n) = n"
proof (induction n rule: show_nat.induct)
  case (1 n)
  then show ?case
    by (cases "n < 10")
      (simp_all add: show_nat.simps [of n] digits_val_def digit_val_digit_char)
qed

lemma digit_not_sign: "is_digit c \<Longrightarrow> c \<noteq> CHR ''-'' \<and> c \<noteq> CHR ''+'' \<and> c \<noteq> CHR '':''"
  by (auto simp: is_digit_def)

lemma show_nat_no_sign: "c \<in> set (show_nat n) \<Longrightarrow> c \<noteq> CHR ''-'' \<and> c \<noteq> CHR ''+'' \<and> c \<noteq> CHR '':''"
  using show_nat_digits [of n] digit_not_sign by (metis list_all_iff)

lemma show_nat_split: obtains c cs where "show_nat n = c # cs" "c \<noteq> CHR ''-''" "c \<noteq> CHR ''+''"
  using show_nat_digits [of n] show_nat_no_sign [of _ n] by (cases "show_nat n") auto

lemma parse_int_show_nat:
  assumes "int n < 2 ^ (bits - 1)"
  shows "parse_int (show_nat n) bits = Some (int n)"
proof -
  obtain c cs where eq: "show_nat n = c # cs" "c \<noteq> CHR ''-''" "c \<noteq> CHR ''+''"
    by (rule show_nat_split)
  with assms show_nat_digits [of n] digits_val_show_nat [of n] show ?thesis
    by (simp add: parse_int_def)
qed

text \<open>Printing a number with \<open>%d\<close> and parsing it again gives the number, whenever it fits.\<close>

lemma parse_int_show_int [go_text]:
  assumes "- (2 ^ (bits - 1)) \<le> i" and "i < 2 ^ (bits - 1)"
  shows "parse_int (show_int i) bits = Some i"
proof (cases "i < 0")
  case True
  with assms have "int (nat (- i)) \<le> 2 ^ (bits - 1)" by simp
  with True show ?thesis
    using show_nat_digits [of "nat (- i)"] digits_val_show_nat [of "nat (- i)"]
    by (simp add: show_int_def parse_int_def Let_def)
next
  case False
  with assms parse_int_show_nat [of "nat i" bits] show ?thesis by (simp add: show_int_def)
qed

lemma show_int_no_colon [simp]: "CHR '':'' \<notin> set (show_int i)"
  using show_nat_no_sign [of "CHR '':''"] by (auto simp: show_int_def)

lemma show_int_not_Nil [simp]: "show_int i \<noteq> []"
  using show_nat_digits by (auto simp: show_int_def)

lemma parse_int_bounds:
  "parse_int s bits = Some i \<Longrightarrow> - (2 ^ (bits - 1)) \<le> i \<and> i < 2 ^ (bits - 1)"
proof -
  assume *: "parse_int s bits = Some i"
  have "(0::int) < 2 ^ (bits - 1)" by simp
  with * show ?thesis
    unfolding parse_int_def Let_def by (smt (verit) of_nat_0_le_iff option.distinct(1) option.inject)
qed

end
