(* ===== verification/Base64.thy ===== *)
theory Base64
  imports Go_Text
begin

text \<open>
  Go's \<open>encoding/base64\<close> with the URL alphabet, padded (\<open>URLEncoding\<close>) and unpadded
  (\<open>RawURLEncoding\<close>), which the program uses for binary metadata and for error details in
  headers. The decoder is the non-strict one of the standard library: it skips carriage
  returns and newlines, and does not look at the unused low bits of the last character.
\<close>

subsection \<open>The alphabet\<close>

definition b64_char :: "nat \<Rightarrow> char" where
  "b64_char n =
     (if n < 26 then char_of (65 + n) else if n < 52 then char_of (71 + n)
      else if n < 62 then char_of (n - 4) else if n = 62 then CHR ''-'' else CHR ''_'')"

definition b64_val :: "char \<Rightarrow> nat option" where
  "b64_val c =
     (let n = of_char c :: nat in
      if 65 \<le> n \<and> n \<le> 90 then Some (n - 65)
      else if 97 \<le> n \<and> n \<le> 122 then Some (n - 71)
      else if 48 \<le> n \<and> n \<le> 57 then Some (n + 4)
      else if c = CHR ''-'' then Some 62
      else if c = CHR ''_'' then Some 63
      else None)"

lemma b64_val_char [simp]: "n < 64 \<Longrightarrow> b64_val (b64_char n) = Some n"
  by (auto simp: b64_val_def b64_char_def Let_def of_char_of char_eq_nat_iff)

lemma b64_val_bound: "b64_val c = Some n \<Longrightarrow> n < 64"
  by (auto simp: b64_val_def Let_def split: if_splits)

lemma b64_val_special [simp]:
  "b64_val (CHR ''='') = None" "b64_val (CHR 0x0A) = None" "b64_val (CHR 0x0D) = None"
  by (simp_all add: b64_val_def)

lemma b64_char_not_special [simp]:
  "n < 64 \<Longrightarrow> b64_char n \<noteq> CHR ''=''" "n < 64 \<Longrightarrow> b64_char n \<noteq> CHR 0x0A"
  "n < 64 \<Longrightarrow> b64_char n \<noteq> CHR 0x0D"
  by (metis b64_val_char b64_val_special option.distinct(1))+

subsection \<open>Encoding\<close>

text \<open>Three bytes become four characters; one or two left-over bytes become two or three,
  filled up with \<open>=\<close> when the encoding pads.\<close>

fun b64_encode :: "bool \<Rightarrow> bytes \<Rightarrow> string" where
  "b64_encode pad [] = []"
| "b64_encode pad [a] =
     [b64_char (unat a div 4), b64_char (unat a mod 4 * 16)] @ (if pad then ''=='' else [])"
| "b64_encode pad [a, b] =
     [b64_char (unat a div 4), b64_char (unat a mod 4 * 16 + unat b div 16),
      b64_char (unat b mod 16 * 4)] @ (if pad then ''='' else [])"
| "b64_encode pad (a # b # c # rest) =
     b64_char (unat a div 4) # b64_char (unat a mod 4 * 16 + unat b div 16) #
     b64_char (unat b mod 16 * 4 + unat c div 64) # b64_char (unat c mod 64) #
     b64_encode pad rest"

definition URLEncode :: "bytes \<Rightarrow> string" where
  "URLEncode = b64_encode True"

definition RawURLEncode :: "bytes \<Rightarrow> string" where
  "RawURLEncode = b64_encode False"

subsection \<open>Decoding\<close>

definition byte_at :: "nat \<Rightarrow> byte" where
  "byte_at n = of_nat n"

definition skip_newlines :: "string \<Rightarrow> string" where
  "skip_newlines s = filter (\<lambda>c. c \<noteq> CHR 0x0A \<and> c \<noteq> CHR 0x0D) s"

definition quantum2 :: "nat option \<Rightarrow> nat option \<Rightarrow> bytes option" where
  "quantum2 x y = (case (x, y) of (Some p, Some q) \<Rightarrow> Some [byte_at (p * 4 + q div 16)] | _ \<Rightarrow> None)"

definition quantum3 :: "nat option \<Rightarrow> nat option \<Rightarrow> nat option \<Rightarrow> bytes option" where
  "quantum3 x y z =
     (case (x, y, z) of
        (Some p, Some q, Some r) \<Rightarrow>
          Some [byte_at (p * 4 + q div 16), byte_at (q mod 16 * 16 + r div 4)]
      | _ \<Rightarrow> None)"

definition quantum4 :: "nat option \<Rightarrow> nat option \<Rightarrow> nat option \<Rightarrow> nat option \<Rightarrow> bytes option" where
  "quantum4 x y z w =
     (case (x, y, z, w) of
        (Some p, Some q, Some r, Some s) \<Rightarrow>
          Some [byte_at (p * 4 + q div 16), byte_at (q mod 16 * 16 + r div 4),
                byte_at (r mod 4 * 64 + s)]
      | _ \<Rightarrow> None)"

fun b64_decode :: "bool \<Rightarrow> string \<Rightarrow> bytes option" where
  "b64_decode pad [] = Some []"
| "b64_decode pad [x] = None"
| "b64_decode pad [x, y] = (if pad then None else quantum2 (b64_val x) (b64_val y))"
| "b64_decode pad [x, y, z] = (if pad then None else quantum3 (b64_val x) (b64_val y) (b64_val z))"
| "b64_decode pad (x # y # z # w # rest) =
     (if pad \<and> rest = [] \<and> z = CHR ''='' \<and> w = CHR ''='' then quantum2 (b64_val x) (b64_val y)
      else if pad \<and> rest = [] \<and> w = CHR ''='' then quantum3 (b64_val x) (b64_val y) (b64_val z)
      else case quantum4 (b64_val x) (b64_val y) (b64_val z) (b64_val w) of
             None \<Rightarrow> None
           | Some bs \<Rightarrow> map_option (\<lambda>cs. bs @ cs) (b64_decode pad rest))"

definition URLDecode :: "string \<Rightarrow> bytes option" where
  "URLDecode s = b64_decode True (skip_newlines s)"

definition RawURLDecode :: "string \<Rightarrow> bytes option" where
  "RawURLDecode s = b64_decode False (skip_newlines s)"

subsection \<open>Round trip\<close>

lemma unat_byte_bound [simp]: "unat (a :: byte) < 256"
  using unsigned_less [of a, where ?'a = nat] by simp

lemma unat_div_bound [simp]:
  "unat (a :: byte) div 4 < 64" "unat (a :: byte) div 16 < 16" "unat (a :: byte) div 64 < 4"
  using unat_byte_bound [of a] by linarith+

lemma sextet_bounds [simp]:
  "unat (a :: byte) mod 4 * 16 < 64"
  "unat (a :: byte) mod 4 * 16 + unat (b :: byte) div 16 < 64"
  "unat (b :: byte) mod 16 * 4 < 64"
  "unat (b :: byte) mod 16 * 4 + unat (c :: byte) div 64 < 64"
  using unat_div_bound [of b] unat_div_bound [of c] by linarith+

lemma byte_at_unat [simp]: "byte_at (unat a) = a"
  by (simp add: byte_at_def)

lemma regroup:
  fixes a b c :: nat
  shows "a div 4 * 4 + (a mod 4 * 16) div 16 = a"
    and "b < 256 \<Longrightarrow> a div 4 * 4 + (a mod 4 * 16 + b div 16) div 16 = a"
    and "b < 256 \<Longrightarrow> (a mod 4 * 16 + b div 16) mod 16 * 16 + (b mod 16 * 4) div 4 = b"
    and "b < 256 \<Longrightarrow> c < 256 \<Longrightarrow>
      (a mod 4 * 16 + b div 16) mod 16 * 16 + (b mod 16 * 4 + c div 64) div 4 = b"
    and "c < 256 \<Longrightarrow> (b mod 16 * 4 + c div 64) mod 4 * 64 + c mod 64 = c"
proof -
  show "a div 4 * 4 + (a mod 4 * 16) div 16 = a" by simp
  show "b < 256 \<Longrightarrow> a div 4 * 4 + (a mod 4 * 16 + b div 16) div 16 = a" by simp
  show "b < 256 \<Longrightarrow> (a mod 4 * 16 + b div 16) mod 16 * 16 + (b mod 16 * 4) div 4 = b"
    by (simp add: mod_mult_self3 flip: mod_add_left_eq)
  show "b < 256 \<Longrightarrow> c < 256 \<Longrightarrow>
      (a mod 4 * 16 + b div 16) mod 16 * 16 + (b mod 16 * 4 + c div 64) div 4 = b"
    by (simp flip: mod_add_left_eq)
  show "c < 256 \<Longrightarrow> (b mod 16 * 4 + c div 64) mod 4 * 64 + c mod 64 = c"
    by (simp flip: mod_add_left_eq)
qed

lemma b64_roundtrip: "b64_decode pad (b64_encode pad bs) = Some bs"
proof (induction pad bs rule: b64_encode.induct)
  case (1 pad)
  then show ?case by simp
next
  case (2 pad a)
  then show ?case by (simp add: quantum2_def regroup)
next
  case (3 pad a b)
  then show ?case by (simp add: quantum3_def regroup)
next
  case (4 pad a b c rest)
  then show ?case by (simp add: quantum4_def regroup)
qed

lemma skip_newlines_encode [simp]: "skip_newlines (b64_encode pad bs) = b64_encode pad bs"
  by (induction pad bs rule: b64_encode.induct) (simp_all add: skip_newlines_def)

lemma URLDecode_Encode [simp]: "URLDecode (URLEncode bs) = Some bs"
  by (simp add: URLDecode_def URLEncode_def b64_roundtrip)

lemma RawURLDecode_Encode [simp]: "RawURLDecode (RawURLEncode bs) = Some bs"
  by (simp add: RawURLDecode_def RawURLEncode_def b64_roundtrip)

end
