(* ===== verification/Grpc_Status.thy ===== *)
theory Grpc_Status
  imports Go_Text
begin

text \<open>
  Status codes, statuses and Go errors as values, and the two functions that turn context
  errors into statuses (\<open>internal/misc.go\<close>, \<open>httpgrpc/client.go\<close>).

  A gRPC code is the datatype \<open>code\<close> of the constants that the source names, with
  \<open>OtherCode\<close> for every other 32-bit value. The numbers behind the constants belong to
  \<open>google.golang.org/grpc/codes\<close>, so the conversions \<open>int32(c)\<close> and \<open>codes.Code(n)\<close>
  are a parameter, a \<open>code_table\<close>. Two facts about it are assumed where a property needs
  them, both documented: converting a code to \<open>int32\<close> and back gives the code, and the
  constant \<open>codes.OK\<close> is 0 on the wire.

  An \<open>error\<close> value is one of the sentinels that the source compares with \<open>==\<close>, a status
  error of the \<open>status\<close> package (never with code OK: that package returns nil for it), or
  some other error, known only by its text.
\<close>

datatype code =
    OK | Canceled | Unknown | InvalidArgument | DeadlineExceeded | NotFound | AlreadyExists
  | PermissionDenied | Unauthenticated | ResourceExhausted | FailedPrecondition | Aborted
  | OutOfRange | Unimplemented | Internal | Unavailable | DataLoss
  | OtherCode "32 word"

record code_table =
  code_num :: "code \<Rightarrow> int"
  code_of_num :: "int \<Rightarrow> code"

text \<open>\<open>wire_code t c\<close>: the code \<open>c\<close> survives the conversion to \<open>int32\<close> and back.\<close>

definition wire_code :: "code_table \<Rightarrow> code \<Rightarrow> bool" where
  "wire_code t c \<longleftrightarrow>
     code_of_num t (code_num t c) = c \<and> - (2 ^ 31) \<le> code_num t c \<and> code_num t c < 2 ^ 31"

text \<open>The numbers documented for the gRPC status codes; the instance used in witnesses.\<close>

definition named_codes :: "(code \<times> int) list" where
  "named_codes =
     [(OK, 0), (Canceled, 1), (Unknown, 2), (InvalidArgument, 3), (DeadlineExceeded, 4),
      (NotFound, 5), (AlreadyExists, 6), (PermissionDenied, 7), (ResourceExhausted, 8),
      (FailedPrecondition, 9), (Aborted, 10), (OutOfRange, 11), (Unimplemented, 12),
      (Internal, 13), (Unavailable, 14), (DataLoss, 15), (Unauthenticated, 16)]"

definition grpc_codes :: code_table where
  "grpc_codes =
     \<lparr>code_num = (\<lambda>c. case c of OtherCode w \<Rightarrow> sint w
                     | _ \<Rightarrow> (case map_of named_codes c of Some n \<Rightarrow> n | None \<Rightarrow> 0)),
      code_of_num = (\<lambda>n. case map_of (map prod.swap named_codes) n of
                        Some c \<Rightarrow> c | None \<Rightarrow> OtherCode (word_of_int n))\<rparr>"

lemma wire_code_grpc_codes: "(\<And>w. c \<noteq> OtherCode w) \<Longrightarrow> wire_code grpc_codes c"
  by (cases c) (auto simp: wire_code_def grpc_codes_def named_codes_def)

subsection \<open>Statuses and errors\<close>

text \<open>\<open>google.protobuf.Any\<close>: a type URL and the encoded message.\<close>

datatype any_pb = AnyPb (type_url: string) (any_value: bytes)

record status =
  st_code :: code
  st_message :: string
  st_details :: "any_pb list"

datatype goerr =
    EOF
  | UnexpectedEOF
  | CtxCanceled
  | CtxDeadlineExceeded
  | StatusErr status
  | OtherErr string

definition status_error :: "code \<Rightarrow> string \<Rightarrow> goerr" where
  "status_error c msg = StatusErr \<lparr>st_code = c, st_message = msg, st_details = []\<rparr>"

text \<open>The texts of the two context errors, as \<open>context\<close> documents them.\<close>

definition canceled_text :: string where "canceled_text = ''context canceled''"
definition deadline_text :: string where "deadline_text = ''context deadline exceeded''"

subsection \<open>Context errors\<close>

fun TranslateContextError :: "goerr \<Rightarrow> goerr" where
  "TranslateContextError CtxDeadlineExceeded = status_error DeadlineExceeded deadline_text"
| "TranslateContextError CtxCanceled = status_error Canceled canceled_text"
| "TranslateContextError err = err"

definition statusFromContextError :: "goerr \<Rightarrow> goerr" where
  "statusFromContextError err =
     (if err = CtxDeadlineExceeded then status_error DeadlineExceeded deadline_text
      else if err = CtxCanceled then status_error Canceled canceled_text
      else err)"

text \<open>The two copies of the translation, in \<open>internal\<close> and in \<open>httpgrpc\<close>, agree, and what
  they return is never again a bare context error.\<close>

lemma translate_copies_agree: "statusFromContextError e = TranslateContextError e"
  by (cases e) (auto simp: statusFromContextError_def)

lemma translate_idem [simp]: "TranslateContextError (TranslateContextError e) = TranslateContextError e"
  by (cases e) (auto simp: status_error_def)

definition is_ctx_error :: "goerr \<Rightarrow> bool" where
  "is_ctx_error e \<longleftrightarrow> e = CtxCanceled \<or> e = CtxDeadlineExceeded"

lemma translate_not_ctx [simp]: "\<not> is_ctx_error (TranslateContextError e)"
  by (cases e) (auto simp: is_ctx_error_def status_error_def)

lemma translate_id [simp]: "\<not> is_ctx_error e \<Longrightarrow> TranslateContextError e = e"
  by (cases e) (auto simp: is_ctx_error_def)

lemma translate_eq_EOF_iff [simp]: "TranslateContextError e = EOF \<longleftrightarrow> e = EOF"
  by (cases e) (auto simp: status_error_def)

end
