(* ===== verification/Http_Metadata.thy ===== *)
theory Http_Metadata
  imports Base64 Grpc_Status
begin

text \<open>
  \<open>net/http\<close> headers and gRPC metadata, and the conversions between them
  (\<open>asMetadata\<close>, \<open>toHeaders\<close> and \<open>reservedHeaders\<close> of \<open>httpgrpc/io.go\<close>,
  \<open>asTrailerProto\<close> of \<open>httpgrpc/server.go\<close> and \<open>metadataFromProto\<close> of
  \<open>httpgrpc/client.go\<close>).

  Both types are Go maps from strings to string slices (see \<open>Prelude\<close>).
\<close>

type_synonym header = "(string \<times> string list) list"
type_synonym md = "(string \<times> string list) list"

subsection \<open>\<open>http.Header\<close>\<close>

definition h_get :: "header \<Rightarrow> string \<Rightarrow> string" where
  "h_get h k = (case mget h (canonical_key k) of [] \<Rightarrow> [] | v # _ \<Rightarrow> v)"

definition h_set :: "header \<Rightarrow> string \<Rightarrow> string \<Rightarrow> header" where
  "h_set h k v = AList.update (canonical_key k) [v] h"

definition h_add :: "header \<Rightarrow> string \<Rightarrow> string \<Rightarrow> header" where
  "h_add h k v = mappend h (canonical_key k) [v]"

lemma mget_h_set [go_map]:
  "mget (h_set h k v) k' = (if canonical_key k = k' then [v] else mget h k')"
  by (simp add: h_set_def mget_def update_conv')

lemma mget_h_add [go_map]:
  "mget (h_add h k v) k' = (if canonical_key k = k' then mget h k' @ [v] else mget h k')"
  by (simp add: h_add_def)

lemma distinct_h_add [intro]: "distinct (map fst h) \<Longrightarrow> distinct (map fst (h_add h k v))"
  by (simp add: h_add_def distinct_mappend)

lemma distinct_h_set [intro]: "distinct (map fst h) \<Longrightarrow> distinct (map fst (h_set h k v))"
  by (simp add: h_set_def distinct_update)

lemma dom_h_add [go_map]: "fst ` set (h_add h k v) = insert (canonical_key k) (fst ` set h)"
  by (simp add: h_add_def dom_mappend)

lemma dom_h_set [go_map]: "fst ` set (h_set h k v) = insert (canonical_key k) (fst ` set h)"
  by (simp add: h_set_def dom_update)

text \<open>The headers the program builds: distinct canonical keys.\<close>

definition canon_header :: "header \<Rightarrow> bool" where
  "canon_header h \<longleftrightarrow> distinct (map fst h) \<and> (\<forall>k \<in> fst ` set h. canonical_key k = k)"

lemma canon_header_Nil [simp, intro]: "canon_header []"
  by (simp add: canon_header_def)

lemma canon_header_add [intro]: "canon_header h \<Longrightarrow> canon_header (h_add h k v)"
  by (auto simp: canon_header_def dom_h_add)

lemma canon_header_set [intro]: "canon_header h \<Longrightarrow> canon_header (h_set h k v)"
  by (auto simp: canon_header_def dom_h_set)

subsection \<open>From headers to metadata\<close>

definition bin_suffix :: string where "bin_suffix = ''-bin''"

text \<open>The inner loop of \<open>asMetadata\<close>, over the values of one (lower-cased) key.\<close>

fun asMetadata_values :: "string \<Rightarrow> string list \<Rightarrow> md \<Rightarrow> goerr + md" where
  "asMetadata_values k [] md = Inr md"
| "asMetadata_values k (v # vs) md =
     (if has_suffix k bin_suffix then
        (case URLDecode v of
           None \<Rightarrow> Inl (OtherErr ''illegal base64 data'')
         | Some vv \<Rightarrow> asMetadata_values k vs (mappend md k [string_of vv]))
      else asMetadata_values k vs (mappend md k [v]))"

fun asMetadata_loop :: "header \<Rightarrow> md \<Rightarrow> goerr + md" where
  "asMetadata_loop [] md = Inr md"
| "asMetadata_loop ((k, vs) # h) md =
     (case asMetadata_values (to_lower k) vs md of
        Inl e \<Rightarrow> Inl e
      | Inr md' \<Rightarrow> asMetadata_loop h md')"

definition asMetadata :: "header \<Rightarrow> goerr + md" where
  "asMetadata h = asMetadata_loop h []"

subsection \<open>From metadata to headers\<close>

definition reservedHeaders :: "string list" where
  "reservedHeaders =
     [''accept-encoding'', ''connection'', ''content-type'', ''content-length'', ''keep-alive'',
      ''te'', ''trailer'', ''transfer-encoding'', ''upgrade'']"

definition wire_value :: "string \<Rightarrow> string \<Rightarrow> string" where
  "wire_value k v = (if has_suffix (to_lower k) bin_suffix then URLEncode (bytes_of v) else v)"

fun toHeaders :: "md \<Rightarrow> header \<Rightarrow> string \<Rightarrow> header" where
  "toHeaders [] h pfx = h"
| "toHeaders ((k, vs) # md) h pfx =
     (if to_lower k \<in> set reservedHeaders then toHeaders md h pfx
      else toHeaders md (foldl (\<lambda>h v. h_add h (pfx @ k) (wire_value k v)) h vs) pfx)"

subsection \<open>Trailer messages\<close>

text \<open>The trailer message keeps the metadata as a map of value lists, so both directions
  rebuild the same map, entry by entry.\<close>

definition asTrailerProto :: "md \<Rightarrow> md" where
  "asTrailerProto md = foldl (\<lambda>r (k, vs). AList.update k ([] @ vs) r) [] md"

definition metadataFromProto :: "md \<Rightarrow> md" where
  "metadataFromProto tr = foldl (\<lambda>r (k, vs). AList.update k vs r) [] tr"

lemma foldl_update_map_of:
  "map_of (foldl (\<lambda>r (k, vs). AList.update k vs r) r md) = map_of r ++ map_of (rev md)"
  by (induction md arbitrary: r) (auto simp: update_conv map_add_def fun_eq_iff split: option.splits)

lemma map_of_rev_distinct: "distinct (map fst md) \<Longrightarrow> map_of (rev md) = map_of md"
  by (rule map_of_inject_set [THEN iffD2]) (auto simp: rev_map [symmetric])

lemma trailer_proto_roundtrip:
  "distinct (map fst md) \<Longrightarrow> map_of (metadataFromProto (asTrailerProto md)) = map_of md"
proof -
  assume d: "distinct (map fst md)"
  let ?t = "asTrailerProto md"
  have dt: "distinct (map fst (foldl (\<lambda>r (k, vs). AList.update k vs r) r md))"
    if "distinct (map fst r)" for r :: md
    using that by (induction md arbitrary: r) (auto intro: distinct_update)
  have "map_of (metadataFromProto ?t) = map_of (rev ?t)"
    by (simp add: metadataFromProto_def foldl_update_map_of)
  also have "\<dots> = map_of ?t"
    using dt [of "[]"] by (intro map_of_rev_distinct) (simp add: asTrailerProto_def)
  also have "\<dots> = map_of md"
    using d by (simp add: asTrailerProto_def foldl_update_map_of map_of_rev_distinct)
  finally show ?thesis .
qed

subsection \<open>What each direction does to one key\<close>

text \<open>The decoded values of a list of header values, when all of them decode.\<close>

fun read_values :: "string \<Rightarrow> string list \<Rightarrow> string list option" where
  "read_values k [] = Some []"
| "read_values k (v # vs) =
     (if has_suffix k bin_suffix then
        (case URLDecode v of
           None \<Rightarrow> None
         | Some vv \<Rightarrow> map_option (\<lambda>r. string_of vv # r) (read_values k vs))
      else map_option (\<lambda>r. v # r) (read_values k vs))"

lemma asMetadata_values_eq:
  "case read_values k vs of
     None \<Rightarrow> \<exists>e. asMetadata_values k vs md = Inl e
   | Some r \<Rightarrow> \<exists>md'. asMetadata_values k vs md = Inr md' \<and>
       mget md' k = mget md k @ r \<and> (\<forall>k'. k' \<noteq> k \<longrightarrow> mget md' k' = mget md k') \<and>
       fst ` set md' = fst ` set md \<union> (if vs = [] then {} else {k}) \<and>
       (distinct (map fst md) \<longrightarrow> distinct (map fst md'))"
proof (induction vs arbitrary: md)
  case Nil
  then show ?case by simp
next
  case (Cons v vs)
  have step: ?case if "asMetadata_values k (v # vs) md = asMetadata_values k vs (mappend md k [x])"
    and "read_values k (v # vs) = map_option (\<lambda>r. x # r) (read_values k vs)" for x
    using Cons [of "mappend md k [x]"] that
    by (auto simp: dom_mappend distinct_mappend split: option.splits)
  show ?case
  proof (cases "has_suffix k bin_suffix")
    case True
    show ?thesis
    proof (cases "URLDecode v")
      case None
      with True show ?thesis by simp
    next
      case (Some vv)
      with True show ?thesis by (intro step [of "string_of vv"]) simp_all
    qed
  next
    case False
    then show ?thesis by (intro step [of v]) auto
  qed
qed

lemma read_values_wire [simp]:
  "has_suffix k bin_suffix = has_suffix (to_lower k') bin_suffix \<Longrightarrow>
   read_values k (map (wire_value k') vs) = Some vs"
  by (induction vs) (auto simp: wire_value_def)

text \<open>The header keys all of whose lower-case forms differ, so that no two of them write to
  one metadata key.\<close>

definition case_distinct :: "header \<Rightarrow> bool" where
  "case_distinct h \<longleftrightarrow> distinct (map (to_lower \<circ> fst) h)"

lemma asMetadata_loop_eq:
  assumes "case_distinct h" and "\<forall>(k, vs) \<in> set h. read_values (to_lower k) vs \<noteq> None"
    and "\<forall>k \<in> fst ` set h. to_lower k \<notin> fst ` set md" and "distinct (map fst md)"
  shows "\<exists>md'. asMetadata_loop h md = Inr md' \<and> distinct (map fst md') \<and>
    fst ` set md' \<subseteq> fst ` set md \<union> to_lower ` fst ` set h \<and>
    (\<forall>k \<in> fst ` set md. mget md' k = mget md k) \<and>
    (\<forall>(k, vs) \<in> set h. read_values (to_lower k) vs = Some (mget md' (to_lower k)))"
  using assms
proof (induction h arbitrary: md)
  case Nil
  then show ?case by simp
next
  case (Cons kv h)
  obtain k vs where kv: "kv = (k, vs)" by (cases kv)
  with Cons.prems(2) obtain r where r: "read_values (to_lower k) vs = Some r" by auto
  from asMetadata_values_eq [of "to_lower k" vs md] r Cons.prems(4)
  obtain m1 where m1: "asMetadata_values (to_lower k) vs md = Inr m1"
    "mget m1 (to_lower k) = mget md (to_lower k) @ r"
    "\<forall>k'. k' \<noteq> to_lower k \<longrightarrow> mget m1 k' = mget md k'"
    "fst ` set m1 = fst ` set md \<union> (if vs = [] then {} else {to_lower k})"
    "distinct (map fst m1)" by auto
  have new: "mget md (to_lower k) = []"
    using Cons.prems(3) kv by (auto intro: mget_notin)
  have cd: "case_distinct h" "to_lower k \<notin> to_lower ` fst ` set h"
    using Cons.prems(1) kv by (auto simp: case_distinct_def image_image)
  have "\<forall>k' \<in> fst ` set h. to_lower k' \<notin> fst ` set m1"
  proof
    fix k' assume "k' \<in> fst ` set h"
    moreover from this cd(2) have "to_lower k' \<noteq> to_lower k" by (metis image_eqI)
    ultimately show "to_lower k' \<notin> fst ` set m1"
      using Cons.prems(3) kv m1(4) by auto
  qed
  with Cons.IH [of m1] Cons.prems(2) kv cd(1) m1(5)
  obtain m2 where m2: "asMetadata_loop h m1 = Inr m2" "distinct (map fst m2)"
    "fst ` set m2 \<subseteq> fst ` set m1 \<union> to_lower ` fst ` set h"
    "\<forall>k \<in> fst ` set m1. mget m2 k = mget m1 k"
    "\<forall>(k, vs) \<in> set h. read_values (to_lower k) vs = Some (mget m2 (to_lower k))" by auto
  have keep: "mget m2 k' = mget m1 k'" if "k' \<notin> to_lower ` fst ` set h" for k'
  proof (cases "k' \<in> fst ` set m1")
    case True
    with m2(4) show ?thesis by blast
  next
    case False
    with m2(3) that have "k' \<notin> fst ` set m2" by blast
    with False show ?thesis by (simp add: mget_notin)
  qed
  have "\<forall>k' \<in> fst ` set md. mget m2 k' = mget md k'"
  proof
    fix k' assume k': "k' \<in> fst ` set md"
    moreover from Cons.prems(3) kv have "to_lower k \<notin> fst ` set md" by simp
    ultimately have "k' \<noteq> to_lower k" by blast
    with k' m1(3,4) m2(4) show "mget m2 k' = mget md k'" by simp
  qed
  moreover have "r = mget m2 (to_lower k)"
    using keep [OF cd(2)] m1(2) new by simp
  moreover have "fst ` set m2 \<subseteq> fst ` set md \<union> to_lower ` fst ` set (kv # h)"
    using m2(3) unfolding m1(4) kv by (cases "vs = []") (simp; blast)+
  ultimately show ?case
    using kv m1(1) m2 r by auto
qed

lemma asMetadata_eq:
  assumes "case_distinct h" and "\<forall>(k, vs) \<in> set h. read_values (to_lower k) vs \<noteq> None"
  obtains md where "asMetadata h = Inr md" "distinct (map fst md)"
    "fst ` set md \<subseteq> to_lower ` fst ` set h"
    "\<And>k vs. (k, vs) \<in> set h \<Longrightarrow> read_values (to_lower k) vs = Some (mget md (to_lower k))"
proof -
  from asMetadata_loop_eq [OF assms, of "[]"] obtain md' where md':
    "asMetadata h = Inr md'" "distinct (map fst md')" "fst ` set md' \<subseteq> to_lower ` fst ` set h"
    "\<forall>(k, vs) \<in> set h. read_values (to_lower k) vs = Some (mget md' (to_lower k))"
    unfolding asMetadata_def by auto
  show ?thesis by (rule that [OF md'(1-3)]) (use md'(4) in auto)
qed

lemma foldl_h_add:
  "mget (foldl (\<lambda>h v. h_add h k (f v)) h vs) k' =
     (if canonical_key k = k' then mget h k' @ map f vs else mget h k')"
  by (induction vs arbitrary: h) (auto simp: mget_h_add)

lemma dom_foldl_h_add:
  "fst ` set (foldl (\<lambda>h v. h_add h k (f v)) h vs) =
     fst ` set h \<union> (if vs = [] then {} else {canonical_key k})"
  by (induction vs arbitrary: h) (auto simp: dom_h_add)

lemma canon_foldl_h_add [intro]:
  "canon_header h \<Longrightarrow> canon_header (foldl (\<lambda>h v. h_add h k (f v)) h vs)"
  by (induction vs arbitrary: h) auto

lemma canon_toHeaders [intro]: "canon_header h \<Longrightarrow> canon_header (toHeaders md h pfx)"
  by (induction md h pfx rule: toHeaders.induct) auto

definition unreserved :: "md \<Rightarrow> bool" where
  "unreserved md \<longleftrightarrow> (\<forall>k \<in> fst ` set md. to_lower k \<notin> set reservedHeaders)"

lemma mget_toHeaders_other:
  "(\<forall>j \<in> fst ` set md. canonical_key (pfx @ j) \<noteq> k) \<Longrightarrow>
   mget (toHeaders md h pfx) k = mget h k"
  by (induction md h pfx rule: toHeaders.induct) (auto simp: foldl_h_add)

lemma dom_toHeaders:
  "fst ` set (toHeaders md h pfx) \<subseteq>
     fst ` set h \<union> (\<lambda>k. canonical_key (pfx @ k)) ` fst ` set md"
proof (induction md h pfx rule: toHeaders.induct)
  case (1 h pfx)
  then show ?case by simp
next
  case (2 k vs md h pfx)
  have "fst ` set (foldl (\<lambda>h v. h_add h (pfx @ k) (wire_value k v)) h vs) \<subseteq>
      insert (canonical_key (pfx @ k)) (fst ` set h)"
    by (auto simp: dom_foldl_h_add)
  with 2 show ?case by (cases "to_lower k \<in> set reservedHeaders") (simp, blast)+
qed

text \<open>Every value of an unreserved key reaches the header of that name, in order, after the
  values that were there; nothing else is written.\<close>

lemma mget_toHeaders:
  assumes "distinct (map (\<lambda>kv. canonical_key (pfx @ fst kv)) md)"
    and "(k, vs) \<in> set md" and "to_lower k \<notin> set reservedHeaders"
  shows "mget (toHeaders md h pfx) (canonical_key (pfx @ k)) =
    mget h (canonical_key (pfx @ k)) @ map (wire_value k) vs"
  using assms
proof (induction md h pfx rule: toHeaders.induct)
  case (1 h pfx)
  then show ?case by simp
next
  case (2 k' vs' md h pfx)
  show ?case
  proof (cases "(k, vs) = (k', vs')")
    case True
    with 2 have "\<forall>j \<in> fst ` set md. canonical_key (pfx @ j) \<noteq> canonical_key (pfx @ k)"
      by (auto simp: image_iff)
    with True 2(5) show ?thesis by (simp add: mget_toHeaders_other foldl_h_add)
  next
    case False
    with 2(4) have mem: "(k, vs) \<in> set md" by auto
    with 2(3) have "canonical_key (pfx @ k') \<noteq> canonical_key (pfx @ k)" by (force simp: image_iff)
    with 2 mem show ?thesis by (auto simp: foldl_h_add)
  qed
qed

end
