(* ===== verification/Inproc_Frames.thy ===== *)
theory Inproc_Frames
  imports Http_Metadata
begin

text \<open>
  The unit of communication of the in-process channel (\<open>frame\<close>, \<open>frameKind\<close> and
  \<open>kind\<close> of \<open>inprocgrpc/in_process.go\<close>), the buffered Go channel that carries frames, the
  two helpers \<open>readMessage\<close> and \<open>writeMessage\<close>, and the events of the stats handler.

  The struct of four optional fields is kept as it is, so that \<open>kind\<close> is the code's case
  distinction and not a constructor. The order on \<open>frameKind\<close> is that of its \<open>iota\<close>
  constants.
\<close>

record 'm frame =
  f_data :: "'m option"
  f_headers :: "md option"
  f_trailers :: "md option"
  f_err :: "goerr option"

definition empty_frame :: "'m frame" where
  "empty_frame = \<lparr>f_data = None, f_headers = None, f_trailers = None, f_err = None\<rparr>"

definition data_frame :: "'m \<Rightarrow> 'm frame" where
  "data_frame m = empty_frame\<lparr>f_data := Some m\<rparr>"

definition headers_frame :: "md \<Rightarrow> 'm frame" where
  "headers_frame h = empty_frame\<lparr>f_headers := Some h\<rparr>"

definition trailers_frame :: "md \<Rightarrow> 'm frame" where
  "trailers_frame t = empty_frame\<lparr>f_trailers := Some t\<rparr>"

definition err_frame :: "goerr \<Rightarrow> 'm frame" where
  "err_frame e = empty_frame\<lparr>f_err := Some e\<rparr>"

lemmas frame_defs =
  empty_frame_def data_frame_def headers_frame_def trailers_frame_def err_frame_def

datatype frameKind = kindHeaders | kindData | kindTrailers | kindError | kindUnknown

fun kind_num :: "frameKind \<Rightarrow> nat" where
  "kind_num kindHeaders = 0"
| "kind_num kindData = 1"
| "kind_num kindTrailers = 2"
| "kind_num kindError = 3"
| "kind_num kindUnknown = 4"

instantiation frameKind :: linorder
begin

definition less_eq_frameKind :: "frameKind \<Rightarrow> frameKind \<Rightarrow> bool" where
  "less_eq_frameKind a b = (kind_num a \<le> kind_num b)"

definition less_frameKind :: "frameKind \<Rightarrow> frameKind \<Rightarrow> bool" where
  "less_frameKind a b = (kind_num a < kind_num b)"

instance
proof
  fix a b c :: frameKind
  show "a < b \<longleftrightarrow> a \<le> b \<and> \<not> b \<le> a"
    by (auto simp: less_eq_frameKind_def less_frameKind_def)
  show "a \<le> a" by (simp add: less_eq_frameKind_def)
  show "a \<le> b \<Longrightarrow> b \<le> c \<Longrightarrow> a \<le> c" by (simp add: less_eq_frameKind_def)
  show "a \<le> b \<Longrightarrow> b \<le> a \<Longrightarrow> a = b"
    by (cases a; cases b) (simp_all add: less_eq_frameKind_def)
  show "a \<le> b \<or> b \<le> a" by (auto simp: less_eq_frameKind_def)
qed

end

definition kind :: "'m frame \<Rightarrow> frameKind" where
  "kind m =
     (if f_headers m \<noteq> None then kindHeaders
      else if f_data m \<noteq> None then kindData
      else if f_trailers m \<noteq> None then kindTrailers
      else if f_err m \<noteq> None then kindError
      else kindUnknown)"

lemma kind_simps [simp]:
  "kind (data_frame m) = kindData" "kind (headers_frame h) = kindHeaders"
  "kind (trailers_frame t) = kindTrailers" "kind (err_frame e) = kindError"
  by (simp_all add: kind_def frame_defs)

lemma frame_sel_simps [simp]:
  "f_data (data_frame m) = Some m" "f_headers (headers_frame h) = Some h"
  "f_trailers (trailers_frame t) = Some t" "f_err (err_frame e) = Some e"
  "f_err (data_frame m) = None" "f_err (headers_frame h) = None"
  "f_err (trailers_frame t) = None" "f_data (headers_frame h) = None"
  "f_data (trailers_frame t) = None" "f_data (err_frame e) = None"
  "f_headers (data_frame m) = None" "f_headers (trailers_frame t) = None"
  "f_headers (err_frame e) = None" "f_trailers (data_frame m) = None"
  "f_trailers (headers_frame h) = None" "f_trailers (err_frame e) = None"
  by (simp_all add: frame_defs)

lemma frame_eq_simps [simp]:
  "data_frame m = data_frame m' \<longleftrightarrow> m = m'"
  "headers_frame h = headers_frame h' \<longleftrightarrow> h = h'"
  "trailers_frame h = trailers_frame h' \<longleftrightarrow> h = h'"
  "err_frame e = err_frame e' \<longleftrightarrow> e = e'"
  by (simp_all add: frame_defs)

subsection \<open>The frame protocol\<close>

text \<open>The order the comment on \<open>frame\<close> requires of a server: at most one headers frame, and
  it is first; then data frames; then at most one trailers frame; then at most one error
  frame. No frame is empty.\<close>

definition frame_protocol :: "'m frame list \<Rightarrow> bool" where
  "frame_protocol fs \<longleftrightarrow>
     sorted (map kind fs) \<and> kindUnknown \<notin> kind ` set fs \<and>
     (\<forall>k \<in> {kindHeaders, kindTrailers, kindError}. length (filter (\<lambda>f. kind f = k) fs) \<le> 1)"

lemma kind_le_simps [simp]:
  "kindHeaders \<le> k" "k \<le> kindUnknown"
  "kindData \<le> k \<longleftrightarrow> k \<noteq> kindHeaders"
  "kindTrailers \<le> k \<longleftrightarrow> k \<noteq> kindHeaders \<and> k \<noteq> kindData"
  "kindError \<le> k \<longleftrightarrow> k = kindError \<or> k = kindUnknown"
  "k \<le> kindHeaders \<longleftrightarrow> k = kindHeaders"
  "k \<le> kindData \<longleftrightarrow> k = kindHeaders \<or> k = kindData"
  "k \<le> kindTrailers \<longleftrightarrow> k \<noteq> kindError \<and> k \<noteq> kindUnknown"
  "k \<le> kindError \<longleftrightarrow> k \<noteq> kindUnknown"
  by (cases k; simp add: less_eq_frameKind_def)+

lemma frame_protocol_Nil [simp]: "frame_protocol []"
  by (simp add: frame_protocol_def)

text \<open>A frame may follow a list that obeys the protocol when no later kind has been sent and,
  for the kinds that occur once, not this one either.\<close>

lemma frame_protocol_snoc:
  "frame_protocol (fs @ [f]) \<longleftrightarrow>
     frame_protocol fs \<and> kind f \<noteq> kindUnknown \<and>
     (\<forall>g \<in> set fs. kind g \<le> kind f \<and> (kind f \<noteq> kindData \<longrightarrow> kind g \<noteq> kind f))"
proof -
  have *: "length (filter (\<lambda>f. kind f = k) fs) = 0 \<longleftrightarrow> (\<forall>g \<in> set fs. kind g \<noteq> k)" for k
    by (simp add: filter_empty_conv)
  show ?thesis
    by (cases "kind f") (auto simp: frame_protocol_def sorted_append filter_empty_conv)
qed

lemma frame_protocol_prefix: "frame_protocol (fs @ gs) \<Longrightarrow> frame_protocol fs"
proof (induction gs rule: rev_induct)
  case Nil
  then show ?case by simp
next
  case (snoc f gs)
  then have "frame_protocol ((fs @ gs) @ [f])" by simp
  with snoc.IH show ?case unfolding frame_protocol_snoc by blast
qed

subsection \<open>Stream states\<close>

text \<open>Both ends of a stream go through these states.\<close>

datatype streamState = streamStateHeaders | streamStateMessages | streamStateClosed

subsection \<open>Go channels\<close>

text \<open>A channel of capacity 1, as made by \<open>make(chan frame, 1)\<close>.\<close>

record 'f chan =
  buf :: "'f list"
  closed :: bool

definition chan_cap :: nat where "chan_cap = 1"

definition new_chan :: "'f chan" where
  "new_chan = \<lparr>buf = [], closed = False\<rparr>"

text \<open>\<open>close\<close> panics on a closed channel.\<close>

definition close_chan :: "'f chan \<Rightarrow> 'f chan go" where
  "close_chan ch =
     (if closed ch then Panic ''close of closed channel'' else Ret (ch\<lparr>closed := True\<rparr>))"

text \<open>The communications of the \<open>select\<close> statements of \<open>readMessage\<close> and
  \<open>writeMessage\<close>: the list of the cases that can proceed, each with its effect; the empty
  list means that the statement blocks. What follows the \<open>select\<close> looks at the context's
  error once more, when it has chosen a case, so it is a separate function of that error.\<close>

datatype 'f rd_case = Got "'f option" | RdDone

definition read_cases :: "goerr option \<Rightarrow> 'f chan \<Rightarrow> ('f rd_case \<times> 'f chan) list" where
  "read_cases ctx_err ch =
     (case buf ch of
        f # fs \<Rightarrow> [(Got (Some f), ch\<lparr>buf := fs\<rparr>)]
      | [] \<Rightarrow> if closed ch then [(Got None, ch)] else []) @
     (if ctx_err \<noteq> None then [(RdDone, ch)] else [])"

fun read_result :: "goerr option \<Rightarrow> 'f rd_case \<Rightarrow> goerr + 'f" where
  "read_result (Some e) (Got x) = Inl e"
| "read_result None (Got None) = Inl EOF"
| "read_result None (Got (Some f)) = Inr f"
| "read_result (Some e) RdDone = Inl e"
| "read_result None RdDone = Inl CtxCanceled"

text \<open>Sending on a closed channel panics when that case is chosen; a nil remote context never
  proceeds.\<close>

datatype wr_case = Sent | WrDone | WrRemote | WrPanic

definition write_cases ::
    "goerr option \<Rightarrow> goerr option \<Rightarrow> 'f chan \<Rightarrow> 'f \<Rightarrow> (wr_case \<times> 'f chan) list" where
  "write_cases ctx_err remote_err ch m =
     (if closed ch then [(WrPanic, ch)]
      else if length (buf ch) < chan_cap then [(Sent, ch\<lparr>buf := buf ch @ [m]\<rparr>)] else []) @
     (if ctx_err \<noteq> None then [(WrDone, ch)] else []) @
     (if remote_err \<noteq> None then [(WrRemote, ch)] else [])"

fun write_result :: "goerr option \<Rightarrow> wr_case \<Rightarrow> goerr option" where
  "write_result ctx_err WrRemote = Some EOF"
| "write_result ctx_err _ = ctx_err"

subsection \<open>Stats events\<close>

text \<open>The events handed to a \<open>stats.Handler\<close>. The first field of each is \<open>Client\<close>, which
  \<open>begin\<close> and \<open>end\<close> set from the helper and the others leave at its zero value.\<close>

datatype 'm rpc_stat =
    Begin bool bool bool
  | End bool "goerr option"
  | InHeader bool md
  | InPayload bool 'm
  | InTrailer bool md
  | OutHeader bool md
  | OutPayload bool 'm
  | OutTrailer bool md

text \<open>A \<open>statsHandlerHelper\<close> pointer: \<open>None\<close> is nil, \<open>Some b\<close> has \<open>isClient = b\<close>.\<close>

type_synonym stats_helper = "bool option"

definition sh_begin :: "stats_helper \<Rightarrow> bool \<Rightarrow> bool \<Rightarrow> 'm rpc_stat list" where
  "sh_begin sh cs ss = (case sh of None \<Rightarrow> [] | Some c \<Rightarrow> [Begin c cs ss])"

definition sh_end :: "stats_helper \<Rightarrow> goerr option \<Rightarrow> 'm rpc_stat list" where
  "sh_end sh e = (case sh of None \<Rightarrow> [] | Some c \<Rightarrow> [End c e])"

definition sh_inHeader :: "stats_helper \<Rightarrow> md \<Rightarrow> 'm rpc_stat list" where
  "sh_inHeader sh h = (case sh of None \<Rightarrow> [] | Some _ \<Rightarrow> [InHeader False h])"

definition sh_inPayload :: "stats_helper \<Rightarrow> 'm \<Rightarrow> 'm rpc_stat list" where
  "sh_inPayload sh m = (case sh of None \<Rightarrow> [] | Some _ \<Rightarrow> [InPayload False m])"

definition sh_inTrailer :: "stats_helper \<Rightarrow> md \<Rightarrow> 'm rpc_stat list" where
  "sh_inTrailer sh t = (case sh of None \<Rightarrow> [] | Some _ \<Rightarrow> [InTrailer False t])"

definition sh_outHeader :: "stats_helper \<Rightarrow> md \<Rightarrow> 'm rpc_stat list" where
  "sh_outHeader sh h = (case sh of None \<Rightarrow> [] | Some _ \<Rightarrow> [OutHeader False h])"

definition sh_outPayload :: "stats_helper \<Rightarrow> 'm \<Rightarrow> 'm rpc_stat list" where
  "sh_outPayload sh m = (case sh of None \<Rightarrow> [] | Some _ \<Rightarrow> [OutPayload False m])"

definition sh_outTrailer :: "stats_helper \<Rightarrow> md \<Rightarrow> 'm rpc_stat list" where
  "sh_outTrailer sh t = (case sh of None \<Rightarrow> [] | Some _ \<Rightarrow> [OutTrailer False t])"

lemmas sh_defs =
  sh_begin_def sh_end_def sh_inHeader_def sh_inPayload_def sh_inTrailer_def sh_outHeader_def
  sh_outPayload_def sh_outTrailer_def

end
