(* ===== verification/Cloner.thy ===== *)
theory Cloner
  imports Grpc_Status
begin

text \<open>
  \<open>inprocgrpc/cloner.go\<close> and the message helpers of \<open>internal/misc.go\<close>: how the in-process
  channel copies messages between client and server.

  A message is a value of \<open>'m\<close>. Copying \<open>in\<close> to \<open>out\<close> (\<open>copy_to\<close>, the method \<open>Copy\<close>) returns
  the error, if any, and what \<open>out\<close> points to afterwards, in either case: a copy that fails may
  have reset or partly filled it. \<open>Copy\<close> is the same for a caller that looks at the destination
  only when there is no error. The
  protobuf library, the registered codecs and reflection are parameters, collected in
  \<open>proto_env\<close>: the Go type of a value, its zero value, whether it is a \<open>proto.Message\<close>,
  \<open>proto.Clone\<close>, \<open>dynamic.TryMerge\<close>, and the codecs found by \<open>GetCodecV2\<close> and
  \<open>GetCodec\<close>.
\<close>

record 'm cloner =
  copy_to :: "'m \<Rightarrow> 'm \<Rightarrow> goerr option \<times> 'm"
  Clone :: "'m \<Rightarrow> goerr + 'm"

definition copied :: "goerr option \<times> 'm \<Rightarrow> goerr + 'm" where
  "copied r = (case r of (None, v) \<Rightarrow> Inr v | (Some err, _) \<Rightarrow> Inl err)"

definition Copy :: "'m cloner \<Rightarrow> 'm \<Rightarrow> 'm \<Rightarrow> goerr + 'm" where
  "Copy cl out i = copied (copy_to cl out i)"

lemma copied_simps [simp]: "copied (None, v) = Inr v" "copied (Some err, v) = Inl err"
  by (simp_all add: copied_def)

lemma copied_eq: "copied r = Inr v \<longleftrightarrow> r = (None, v)" "copied r = Inl e \<longleftrightarrow> fst r = Some e"
  by (cases r; cases "fst r"; auto)+

record 'm msg_codec =
  Marshal :: "'m \<Rightarrow> goerr + bytes"
  Unmarshal :: "bytes \<Rightarrow> 'm \<Rightarrow> goerr option \<times> 'm"

record 'm proto_env =
  go_type :: "'m \<Rightarrow> string"
  go_zero :: "'m \<Rightarrow> 'm"
  can_set :: "'m \<Rightarrow> bool"
  is_proto :: "'m \<Rightarrow> bool"
  proto_reset :: "'m \<Rightarrow> 'm"
  proto_clone :: "'m \<Rightarrow> 'm"
  try_merge :: "'m \<Rightarrow> 'm \<Rightarrow> goerr option \<times> 'm"
  codec_v2 :: "'m msg_codec option"
  codec_v1 :: "'m msg_codec option"

subsection \<open>Adapters\<close>

definition CloneFunc :: "'m proto_env \<Rightarrow> ('m \<Rightarrow> goerr + 'm) \<Rightarrow> 'm cloner" where
  "CloneFunc env fn =
     \<lparr>copy_to = (\<lambda>out i.
        case fn i of
          Inl err \<Rightarrow> (Some err, out)
        | Inr src \<Rightarrow>
            if go_type env src \<noteq> go_type env out then (Some (OtherErr ''incompatible types''), out)
            else if \<not> can_set env out then (Some (OtherErr ''unable to set destination''), out)
            else (None, src)),
      Clone = fn\<rparr>"

definition CopyFunc :: "'m proto_env \<Rightarrow> ('m \<Rightarrow> 'm \<Rightarrow> goerr option \<times> 'm) \<Rightarrow> 'm cloner" where
  "CopyFunc env fn =
     \<lparr>copy_to = fn,
      Clone = (\<lambda>i. case fn (go_zero env i) i of (Some err, _) \<Rightarrow> Inl err | (None, c) \<Rightarrow> Inr c)\<rparr>"

text \<open>\<open>CodecCloner\<close> and \<open>CodecClonerV2\<close> have the same body over the two codec types.\<close>

definition CodecCloner :: "'m proto_env \<Rightarrow> 'm msg_codec \<Rightarrow> 'm cloner" where
  "CodecCloner env codec =
     CopyFunc env (\<lambda>out i.
       case Marshal codec i of
         Inl err \<Rightarrow> (Some err, out)
       | Inr b \<Rightarrow>
           (case Unmarshal codec b out of
              (Some err, out') \<Rightarrow> (Some err, out')
            | (None, out') \<Rightarrow> (None, out')))"

definition CodecClonerV2 :: "'m proto_env \<Rightarrow> 'm msg_codec \<Rightarrow> 'm cloner" where
  "CodecClonerV2 env codec =
     CopyFunc env (\<lambda>out i.
       case Marshal codec i of
         Inl err \<Rightarrow> (Some err, out)
       | Inr b \<Rightarrow>
           (case Unmarshal codec b out of
              (Some err, out') \<Rightarrow> (Some err, out')
            | (None, out') \<Rightarrow> (None, out')))"

subsection \<open>The default cloner\<close>

text \<open>\<open>CopyMessage\<close> resets the destination before the merge, which may fail.\<close>

definition CopyMessage :: "'m proto_env \<Rightarrow> 'm \<Rightarrow> 'm \<Rightarrow> goerr option \<times> 'm" where
  "CopyMessage env out i =
     (if \<not> is_proto env i then (Some (OtherErr ''value to copy is not a proto.Message''), out)
      else if \<not> is_proto env out then (Some (OtherErr ''destination for copy is not a proto.Message''), out)
      else try_merge env (proto_reset env out) i)"

definition CloneMessage :: "'m proto_env \<Rightarrow> 'm \<Rightarrow> goerr + 'm" where
  "CloneMessage env m =
     (if \<not> is_proto env m then Inl (OtherErr ''value to clone is not a proto.Message'')
      else Inr (proto_clone env m))"

definition ClearMessage :: "'m proto_env \<Rightarrow> 'm \<Rightarrow> goerr + 'm" where
  "ClearMessage env m =
     (if \<not> can_set env m then Inl (OtherErr ''unable to set destination'') else Inr (go_zero env m))"

definition ProtoCloner_Copy :: "'m proto_env \<Rightarrow> 'm \<Rightarrow> 'm \<Rightarrow> (goerr option \<times> 'm) go" where
  "ProtoCloner_Copy env out i =
     (if is_proto env i \<and> is_proto env out then Ret (CopyMessage env out i)
      else case codec_v2 env of
             Some codec \<Rightarrow> Ret (copy_to (CodecClonerV2 env codec) out i)
           | None \<Rightarrow>
               (case codec_v1 env of
                  Some codec \<Rightarrow> Ret (copy_to (CodecCloner env codec) out i)
                | None \<Rightarrow> Panic ''no codec found''))"

definition ProtoCloner_Clone :: "'m proto_env \<Rightarrow> 'm \<Rightarrow> (goerr + 'm) go" where
  "ProtoCloner_Clone env i =
     (if is_proto env i then Ret (CloneMessage env i)
      else case codec_v2 env of
             Some codec \<Rightarrow> Ret (Clone (CodecClonerV2 env codec) i)
           | None \<Rightarrow>
               (case codec_v1 env of
                  Some codec \<Rightarrow> Ret (Clone (CodecCloner env codec) i)
                | None \<Rightarrow> Panic ''no codec found''))"

subsection \<open>The contract of a cloner\<close>

text \<open>What the streams need of a cloner on the messages of a set \<open>A\<close> of one Go type: both
  operations succeed there and give an equal message.\<close>

locale faithful_cloner =
  fixes cl :: "'m cloner" and A :: "'m set"
  assumes copy_ok: "out \<in> A \<Longrightarrow> m \<in> A \<Longrightarrow> Copy cl out m = Inr m"
    and clone_ok: "m \<in> A \<Longrightarrow> Clone cl m = Inr m"
begin

text \<open>A message that crosses the channel is cloned by the sender and copied by the receiver.\<close>

lemma transfer:
  "m \<in> A \<Longrightarrow> out \<in> A \<Longrightarrow> (case Clone cl m of Inl e \<Rightarrow> Inl e | Inr c \<Rightarrow> Copy cl out c) = Inr m"
  by (simp add: copy_ok clone_ok)

end

text \<open>The messages that a function or a codec reproduces, of one Go type, settable.\<close>

definition reproduced_by_clone :: "'m proto_env \<Rightarrow> ('m \<Rightarrow> goerr + 'm) \<Rightarrow> string \<Rightarrow> 'm set" where
  "reproduced_by_clone env fn ty = {m. fn m = Inr m \<and> go_type env m = ty \<and> can_set env m}"

interpretation clone_func: faithful_cloner "CloneFunc env fn" "reproduced_by_clone env fn ty"
  by unfold_locales (auto simp: CloneFunc_def reproduced_by_clone_def Copy_def)

definition reproduced_by_codec :: "'m proto_env \<Rightarrow> 'm msg_codec \<Rightarrow> 'm set" where
  "reproduced_by_codec env codec =
     {m. \<exists>b. Marshal codec m = Inr b \<and> (\<forall>out. Unmarshal codec b out = (None, m))}"

interpretation codec_cloner: faithful_cloner "CodecCloner env codec" "reproduced_by_codec env codec"
  by unfold_locales (auto simp: CodecCloner_def CopyFunc_def reproduced_by_codec_def Copy_def)

interpretation codec_cloner_v2: faithful_cloner "CodecClonerV2 env codec" "reproduced_by_codec env codec"
  by unfold_locales (auto simp: CodecClonerV2_def CopyFunc_def reproduced_by_codec_def Copy_def)

end
