(* ===== verification/Inproc_Server.thy ===== *)
theory Inproc_Server
  imports Inproc_Frames Cloner
begin

text \<open>
  \<open>inProcessServerStream\<close> of \<open>inprocgrpc/in_process.go\<close>: the server's end of a streaming
  RPC.

  An operation holds \<open>s.mu\<close> from start to end, and its only interaction with the other
  goroutines while it holds the lock is to look at the context, to write frames and, in
  \<open>finish\<close>, to call \<open>onDone\<close> and to close the response channel. So an operation is a
  program (\<open>srv_prog\<close>): a tree of those actions, with the returned value and the new fields
  of the stream at its leaves. \<open>Inproc_Rpc\<close> interleaves the actions with the client;
  \<open>quiet\<close> below runs a program with no cancellation and no failing write.
\<close>

record 'm server_stream =
  ss_headers :: "md option"
  ss_trailers :: "md option"
  ss_state :: streamState
  ss_stats :: stats_helper
  ss_events :: "'m rpc_stat list"

datatype ('m, 'a) srv_prog =
    SRet 'a
  | SCtxErr "goerr option \<Rightarrow> ('m, 'a) srv_prog"
  | SWrite "'m frame" "goerr option \<Rightarrow> ('m, 'a) srv_prog"
  | SOnDone "('m, 'a) srv_prog"
  | SClose "('m, 'a) srv_prog"

primrec sbind :: "('m, 'a) srv_prog \<Rightarrow> ('a \<Rightarrow> ('m, 'b) srv_prog) \<Rightarrow> ('m, 'b) srv_prog" where
  "sbind (SRet x) k = k x"
| "sbind (SCtxErr c) k = SCtxErr (\<lambda>e. sbind (c e) k)"
| "sbind (SWrite f c) k = SWrite f (\<lambda>r. sbind (c r) k)"
| "sbind (SOnDone c) k = SOnDone (sbind c k)"
| "sbind (SClose c) k = SClose (sbind c k)"

subsection \<open>The operations\<close>

text \<open>A nil metadata map and an empty one have the same length; \<open>md_list\<close> reads both.\<close>

definition md_list :: "md option \<Rightarrow> md" where
  "md_list h = (case h of None \<Rightarrow> [] | Some l \<Rightarrow> l)"

definition ss_emit :: "'m server_stream \<Rightarrow> (stats_helper \<Rightarrow> 'm rpc_stat list) \<Rightarrow> 'm server_stream" where
  "ss_emit s ev = s\<lparr>ss_events := ss_events s @ ev (ss_stats s)\<rparr>"

definition sendHeadersLocked ::
    "'m server_stream \<Rightarrow> ('m, goerr option \<times> 'm server_stream) srv_prog" where
  "sendHeadersLocked s =
     (if md_list (ss_headers s) \<noteq> [] then
        (let s1 = ss_emit s (\<lambda>sh. sh_outHeader sh (md_list (ss_headers s)))
         in SWrite (headers_frame (md_list (ss_headers s)))
              (\<lambda>r. case r of
                     Some err \<Rightarrow> SRet (Some err, s1)
                   | None \<Rightarrow> SRet (None, s1\<lparr>ss_headers := None, ss_state := streamStateMessages\<rparr>)))
      else SRet (None, s\<lparr>ss_headers := None, ss_state := streamStateMessages\<rparr>))"

definition setHeader ::
    "'m server_stream \<Rightarrow> md \<Rightarrow> bool \<Rightarrow> ('m, goerr option \<times> 'm server_stream) srv_prog" where
  "setHeader s md send =
     (if ss_state s \<noteq> streamStateHeaders then SRet (Some (OtherErr ''headers already sent''), s)
      else let s1 = s\<lparr>ss_headers := Some (mjoin (md_list (ss_headers s)) md)\<rparr>
           in if send then sendHeadersLocked s1 else SRet (None, s1))"

definition SetHeader ::
    "'m server_stream \<Rightarrow> md \<Rightarrow> ('m, goerr option \<times> 'm server_stream) srv_prog" where
  "SetHeader s md = setHeader s md False"

definition SendHeader ::
    "'m server_stream \<Rightarrow> md \<Rightarrow> ('m, goerr option \<times> 'm server_stream) srv_prog" where
  "SendHeader s md = setHeader s md True"

definition TrySetTrailer ::
    "'m server_stream \<Rightarrow> md \<Rightarrow> ('m, goerr option \<times> 'm server_stream) srv_prog" where
  "TrySetTrailer s md =
     (if ss_state s = streamStateClosed then SRet (Some (OtherErr ''trailers already sent''), s)
      else SRet (None, s\<lparr>ss_trailers := Some (mjoin (md_list (ss_trailers s)) md)\<rparr>))"

text \<open>\<open>SetTrailer\<close> drops the error of \<open>TrySetTrailer\<close>; it has no result of its own.\<close>

definition SetTrailer ::
    "'m server_stream \<Rightarrow> md \<Rightarrow> ('m, goerr option \<times> 'm server_stream) srv_prog" where
  "SetTrailer s md = sbind (TrySetTrailer s md) (\<lambda>(_, s1). SRet (None, s1))"

text \<open>A nil message, or a typed nil pointer, is \<open>None\<close>.\<close>

definition server_SendMsg ::
    "'m cloner \<Rightarrow> 'm server_stream \<Rightarrow> 'm option \<Rightarrow> ('m, goerr option \<times> 'm server_stream) srv_prog" where
  "server_SendMsg cl s m =
     SCtxErr (\<lambda>ctx_err.
       if ctx_err \<noteq> None \<or> ss_state s = streamStateClosed then SRet (Some EOF, s)
       else
         sbind (if ss_state s = streamStateHeaders then sendHeadersLocked s else SRet (None, s))
           (\<lambda>(e, s1).
              case e of
                Some err \<Rightarrow> SRet (Some err, s1)
              | None \<Rightarrow>
                  (case m of
                     None \<Rightarrow> SRet (Some (status_error Internal ''message to send is nil''), s1)
                   | Some msg \<Rightarrow>
                       (case Clone cl msg of
                          Inl err \<Rightarrow> SRet (Some err, s1)
                        | Inr c \<Rightarrow>
                            let s2 = ss_emit s1 (\<lambda>sh. sh_outPayload sh c)
                            in SWrite (data_frame c) (\<lambda>r. SRet (r, s2))))))"

text \<open>\<open>RecvMsg\<close> does not take \<open>s.mu\<close>; its one interaction is \<open>readMessage\<close> on the request
  channel, whose result is the argument. The client sends data frames only; what
  \<open>cloner.Copy\<close> does with a nil message is of no consequence and written as an error.\<close>

definition server_RecvMsg ::
    "'m cloner \<Rightarrow> 'm server_stream \<Rightarrow> 'm \<Rightarrow> goerr + 'm frame \<Rightarrow> (goerr + 'm) \<times> 'm server_stream" where
  "server_RecvMsg cl s m rr =
     (case rr of
        Inl err \<Rightarrow> (Inl err, s)
      | Inr resp \<Rightarrow>
          (case f_err resp of
             Some err \<Rightarrow> (Inl err, s)
           | None \<Rightarrow>
               (case f_data resp of
                  None \<Rightarrow> (Inl (OtherErr ''copy of a nil message''), s)
                | Some d \<Rightarrow> (Copy cl m d, ss_emit s (\<lambda>sh. sh_inPayload sh d)))))"

text \<open>\<open>finish\<close>, run when the handler has returned. The deferred function closes the stream and
  the channel whatever the writes returned.\<close>

definition finish_close :: "'m server_stream \<Rightarrow> ('m, goerr option \<times> 'm server_stream) srv_prog" where
  "finish_close s = SClose (SRet (None, s\<lparr>ss_state := streamStateClosed\<rparr>))"

definition finish_err ::
    "goerr option \<Rightarrow> 'm server_stream \<Rightarrow> ('m, goerr option \<times> 'm server_stream) srv_prog" where
  "finish_err err s =
     (case err of
        Some e \<Rightarrow> SWrite (err_frame e) (\<lambda>_. finish_close s)
      | None \<Rightarrow> finish_close s)"

definition finish_trailers ::
    "goerr option \<Rightarrow> 'm server_stream \<Rightarrow> ('m, goerr option \<times> 'm server_stream) srv_prog" where
  "finish_trailers err s =
     (if md_list (ss_trailers s) \<noteq> [] then
        (let s1 = ss_emit s (\<lambda>sh. sh_outTrailer sh (md_list (ss_trailers s)))
         in SWrite (trailers_frame (md_list (ss_trailers s)))
              (\<lambda>_. finish_err err (s1\<lparr>ss_trailers := None\<rparr>)))
      else finish_err err (s\<lparr>ss_trailers := None\<rparr>))"

definition finish ::
    "'m server_stream \<Rightarrow> goerr option \<Rightarrow> ('m, goerr option \<times> 'm server_stream) srv_prog" where
  "finish s err =
     SOnDone
       (if ss_state s = streamStateHeaders \<and> md_list (ss_headers s) \<noteq> [] then
          (let s1 = ss_emit s (\<lambda>sh. sh_outHeader sh (md_list (ss_headers s)))
           in SWrite (headers_frame (md_list (ss_headers s))) (\<lambda>_. finish_trailers err s1))
        else finish_trailers err s)"

text \<open>The deferred function of \<open>NewStream\<close>'s goroutine: the stats handler gets the end of the RPC
  before \<open>finish\<close> reports the headers and trailers that it still writes.\<close>

definition end_handler ::
    "'m server_stream \<Rightarrow> goerr option \<Rightarrow> ('m, goerr option \<times> 'm server_stream) srv_prog" where
  "end_handler s err = finish (ss_emit s (\<lambda>sh. sh_end sh err)) err"

subsection \<open>Calls of a handler\<close>

datatype 'm srv_op =
    OpSetHeader md
  | OpSendHeader md
  | OpSetTrailer md
  | OpTrySetTrailer md
  | OpSendMsg "'m option"

text \<open>What a list of calls means: the header metadata set in time, the trailer metadata, the
  messages.\<close>

fun header_mds :: "'m srv_op list \<Rightarrow> md list" where
  "header_mds [] = []"
| "header_mds (OpSetHeader h # ops) = h # header_mds ops"
| "header_mds (OpSendHeader h # ops) = [h]"
| "header_mds (OpSendMsg m # ops) = []"
| "header_mds (_ # ops) = header_mds ops"

fun trailer_mds :: "'m srv_op list \<Rightarrow> md list" where
  "trailer_mds [] = []"
| "trailer_mds (OpSetTrailer t # ops) = t # trailer_mds ops"
| "trailer_mds (OpTrySetTrailer t # ops) = t # trailer_mds ops"
| "trailer_mds (_ # ops) = trailer_mds ops"

fun sent_msgs :: "'m srv_op list \<Rightarrow> 'm list" where
  "sent_msgs [] = []"
| "sent_msgs (OpSendMsg (Some m) # ops) = m # sent_msgs ops"
| "sent_msgs (_ # ops) = sent_msgs ops"

text \<open>A handler as a well-founded tree of calls, each of which may depend on the results of the
  earlier ones.\<close>

datatype 'm handler =
    HReturn "goerr option"
  | HCall "'m srv_op" "goerr option \<Rightarrow> 'm handler"
  | HRecv 'm "goerr + 'm \<Rightarrow> 'm handler"

fun op_prog ::
    "'m cloner \<Rightarrow> 'm srv_op \<Rightarrow> 'm server_stream \<Rightarrow> ('m, goerr option \<times> 'm server_stream) srv_prog" where
  "op_prog cl (OpSetHeader md) s = SetHeader s md"
| "op_prog cl (OpSendHeader md) s = SendHeader s md"
| "op_prog cl (OpSetTrailer md) s = SetTrailer s md"
| "op_prog cl (OpTrySetTrailer md) s = TrySetTrailer s md"
| "op_prog cl (OpSendMsg m) s = server_SendMsg cl s m"

definition new_server_stream :: "stats_helper \<Rightarrow> 'm server_stream" where
  "new_server_stream sh =
     \<lparr>ss_headers = None, ss_trailers = None, ss_state = streamStateHeaders, ss_stats = sh,
      ss_events = []\<rparr>"

subsection \<open>Running a program without cancellation\<close>

text \<open>The frames written and the value returned when the context is never done.\<close>

primrec quiet :: "('m, 'a) srv_prog \<Rightarrow> 'm frame list \<times> 'a" where
  "quiet (SRet x) = ([], x)"
| "quiet (SCtxErr c) = quiet (c None)"
| "quiet (SWrite f c) = (let (fs, x) = quiet (c None) in (f # fs, x))"
| "quiet (SOnDone c) = quiet c"
| "quiet (SClose c) = quiet c"

fun quiet_ops ::
    "'m cloner \<Rightarrow> 'm srv_op list \<Rightarrow> 'm server_stream \<Rightarrow> 'm frame list \<times> 'm server_stream" where
  "quiet_ops cl [] s = ([], s)"
| "quiet_ops cl (op # ops) s =
     (let (fs, r) = quiet (op_prog cl op s); (gs, s2) = quiet_ops cl ops (snd r)
      in (fs @ gs, s2))"

text \<open>All the frames of an RPC whose handler makes the calls \<open>ops\<close> and returns \<open>err\<close>.\<close>

definition server_frames :: "'m cloner \<Rightarrow> stats_helper \<Rightarrow> 'm srv_op list \<Rightarrow> goerr option \<Rightarrow> 'm frame list" where
  "server_frames cl sh ops err =
     (let (fs, s) = quiet_ops cl ops (new_server_stream sh) in fs @ fst (quiet (finish s err)))"

subsection \<open>What the calls mean\<close>

text \<open>The abstract view of an RPC's server side: the response headers, the messages, the
  trailers. \<open>flushed\<close> says that the headers are fixed. The view knows nothing of frames,
  channels or nil maps.\<close>

record 'm rpc_view =
  v_headers :: md
  v_flushed :: bool
  v_msgs :: "'m list"
  v_trailers :: md

fun view_op :: "'m cloner \<Rightarrow> 'm rpc_view \<Rightarrow> 'm srv_op \<Rightarrow> 'm rpc_view" where
  "view_op cl v (OpSetHeader md) =
     (if v_flushed v then v else v\<lparr>v_headers := mjoin (v_headers v) md\<rparr>)"
| "view_op cl v (OpSendHeader md) =
     (if v_flushed v then v else v\<lparr>v_headers := mjoin (v_headers v) md, v_flushed := True\<rparr>)"
| "view_op cl v (OpSetTrailer md) = v\<lparr>v_trailers := mjoin (v_trailers v) md\<rparr>"
| "view_op cl v (OpTrySetTrailer md) = v\<lparr>v_trailers := mjoin (v_trailers v) md\<rparr>"
| "view_op cl v (OpSendMsg m) =
     (let v1 = v\<lparr>v_flushed := True\<rparr>
      in case m of
           None \<Rightarrow> v1
         | Some msg \<Rightarrow>
             (case Clone cl msg of Inl _ \<Rightarrow> v1 | Inr c \<Rightarrow> v1\<lparr>v_msgs := v_msgs v1 @ [c]\<rparr>))"

definition empty_view :: "'m rpc_view" where
  "empty_view = \<lparr>v_headers = [], v_flushed = False, v_msgs = [], v_trailers = []\<rparr>"

definition view_of :: "'m cloner \<Rightarrow> 'm srv_op list \<Rightarrow> 'm rpc_view" where
  "view_of cl ops = foldl (view_op cl) empty_view ops"

text \<open>The frames that carry a view and a final error.\<close>

definition headers_part :: "md \<Rightarrow> 'm frame list" where
  "headers_part h = (if h \<noteq> [] then [headers_frame h] else [])"

definition trailers_part :: "md \<Rightarrow> 'm frame list" where
  "trailers_part t = (if t \<noteq> [] then [trailers_frame t] else [])"

definition err_part :: "goerr option \<Rightarrow> 'm frame list" where
  "err_part e = (case e of None \<Rightarrow> [] | Some err \<Rightarrow> [err_frame err])"

definition frames_of_view :: "'m rpc_view \<Rightarrow> goerr option \<Rightarrow> 'm frame list" where
  "frames_of_view v err =
     headers_part (v_headers v) @ map data_frame (v_msgs v) @ trailers_part (v_trailers v) @
     err_part err"

subsection \<open>Refinement\<close>

text \<open>The stream's fields and the frames written so far, related to the view.\<close>

definition stream_view :: "'m server_stream \<Rightarrow> 'm frame list \<Rightarrow> 'm rpc_view \<Rightarrow> bool" where
  "stream_view s fs v \<longleftrightarrow>
     md_list (ss_trailers s) = v_trailers v \<and>
     (case ss_state s of
        streamStateHeaders \<Rightarrow>
          \<not> v_flushed v \<and> v_msgs v = [] \<and> md_list (ss_headers s) = v_headers v \<and> fs = []
      | streamStateMessages \<Rightarrow>
          v_flushed v \<and> fs = headers_part (v_headers v) @ map data_frame (v_msgs v)
      | streamStateClosed \<Rightarrow> False)"

lemmas server_op_defs =
  SetHeader_def SendHeader_def setHeader_def TrySetTrailer_def SetTrailer_def server_SendMsg_def
  sendHeadersLocked_def

lemma md_list_simps [simp]: "md_list None = []" "md_list (Some l) = l"
  by (simp_all add: md_list_def)

lemma quiet_sbind: "quiet (sbind p k) = (let (fs, x) = quiet p; (gs, y) = quiet (k x) in (fs @ gs, y))"
  by (induction p) (auto simp: Let_def split: prod.splits)

lemma stream_view_new: "stream_view (new_server_stream sh) [] empty_view"
  by (simp add: stream_view_def new_server_stream_def empty_view_def)

text \<open>The stream after its headers have been written, or were empty.\<close>

definition headers_sent :: "'m server_stream \<Rightarrow> 'm server_stream" where
  "headers_sent s =
     (if md_list (ss_headers s) \<noteq> []
      then ss_emit s (\<lambda>sh. sh_outHeader sh (md_list (ss_headers s))) else s)
     \<lparr>ss_headers := None, ss_state := streamStateMessages\<rparr>"

lemma quiet_sendHeadersLocked [simp]:
  "quiet (sendHeadersLocked s) = (headers_part (md_list (ss_headers s)), None, headers_sent s)"
  by (simp add: sendHeadersLocked_def headers_part_def headers_sent_def Let_def)

lemma headers_sent_sel [simp]:
  "ss_state (headers_sent s) = streamStateMessages" "ss_trailers (headers_sent s) = ss_trailers s"
  "ss_headers (headers_sent s) = None"
  by (simp_all add: headers_sent_def ss_emit_def)

lemma ss_emit_sel [simp]:
  "ss_state (ss_emit s ev) = ss_state s" "ss_trailers (ss_emit s ev) = ss_trailers s"
  "ss_headers (ss_emit s ev) = ss_headers s" "ss_stats (ss_emit s ev) = ss_stats s"
  by (simp_all add: ss_emit_def)

lemma quiet_SendMsg:
  "ss_state s \<noteq> streamStateClosed \<Longrightarrow>
   quiet (server_SendMsg cl s m) =
     (let hs = (if ss_state s = streamStateHeaders then headers_part (md_list (ss_headers s)) else []);
          s1 = (if ss_state s = streamStateHeaders then headers_sent s else s)
      in case m of
           None \<Rightarrow> (hs, Some (status_error Internal ''message to send is nil''), s1)
         | Some msg \<Rightarrow>
             (case Clone cl msg of
                Inl err \<Rightarrow> (hs, Some err, s1)
              | Inr c \<Rightarrow> (hs @ [data_frame c], None, ss_emit s1 (\<lambda>sh. sh_outPayload sh c))))"
  by (auto simp: server_SendMsg_def quiet_sbind Let_def split: option.splits sum.splits)

text \<open>One call keeps the relation: the code's operation and the abstract one commute.\<close>

lemma stream_view_op:
  assumes "stream_view s fs v" and "quiet (op_prog cl op s) = (gs, r)"
  shows "stream_view (snd r) (fs @ gs) (view_op cl v op)"
proof (cases op)
  case (OpSendMsg m)
  with assms have "ss_state s \<noteq> streamStateClosed" by (auto simp: stream_view_def)
  with assms OpSendMsg show ?thesis
    by (cases "ss_state s")
      (auto simp: quiet_SendMsg stream_view_def Let_def split: option.splits sum.splits)
qed (use assms in \<open>cases "ss_state s"; auto simp: stream_view_def SetHeader_def SendHeader_def
      setHeader_def TrySetTrailer_def SetTrailer_def Let_def\<close>)+

lemma stream_view_ops:
  "stream_view s fs v \<Longrightarrow> quiet_ops cl ops s = (gs, s') \<Longrightarrow>
   stream_view s' (fs @ gs) (foldl (view_op cl) v ops)"
proof (induction ops arbitrary: s fs v gs)
  case Nil
  then show ?case by simp
next
  case (Cons op ops)
  obtain g1 r where r: "quiet (op_prog cl op s) = (g1, r)" by (cases "quiet (op_prog cl op s)")
  obtain g2 where g2: "quiet_ops cl ops (snd r) = (g2, s')" "gs = g1 @ g2"
    using Cons.prems(2) r by (auto simp: Let_def split: prod.splits)
  from stream_view_op [OF Cons.prems(1) r] Cons.IH g2 show ?case by fastforce
qed

lemma quiet_finish:
  "fst (quiet (finish s err)) =
     (if ss_state s = streamStateHeaders then headers_part (md_list (ss_headers s)) else []) @
     trailers_part (md_list (ss_trailers s)) @ err_part err"
  by (auto simp: finish_def finish_trailers_def finish_err_def finish_close_def ss_emit_def Let_def
      headers_part_def trailers_part_def err_part_def split: option.splits prod.splits)

lemma quiet_end_handler: "fst (quiet (end_handler s err)) = fst (quiet (finish s err))"
  by (simp add: end_handler_def quiet_finish)

lemma server_frames_eq: "server_frames cl sh ops err = frames_of_view (view_of cl ops) err"
proof -
  obtain fs s where q: "quiet_ops cl ops (new_server_stream sh) = (fs, s)"
    by (cases "quiet_ops cl ops (new_server_stream sh)")
  from stream_view_ops [OF stream_view_new q]
  have "stream_view s fs (view_of cl ops)" by (simp add: view_of_def)
  then show ?thesis
    by (cases "ss_state s")
      (auto simp: server_frames_def q quiet_finish frames_of_view_def stream_view_def)
qed

lemma frames_of_view_protocol: "frame_protocol (frames_of_view v err)"
proof -
  have "sorted (map (kind \<circ> data_frame) ms)" for ms :: "'m list"
    by (induction ms) auto
  moreover have "filter (\<lambda>f. kind f = k) (map data_frame ms) = (if k = kindData then map data_frame ms else [])"
    for k and ms :: "'m list"
    by (induction ms) auto
  ultimately show ?thesis
    by (auto simp: frames_of_view_def frame_protocol_def headers_part_def trailers_part_def
        err_part_def sorted_append split: option.splits)
qed

end
