(* ===== verification/Call_Options.thy ===== *)
theory Call_Options
  imports Http_Metadata
begin

text \<open>
  \<open>internal/call_options.go\<close>: the call options of one RPC and the caller's variables they
  point to, plus per-RPC credentials.

  A pointer is an address (\<open>nat\<close>); the caller's variables live in a \<open>call_mem\<close>. The
  metadata package of gRPC is a parameter \<open>md_api\<close>; what is used of it is documented:
  \<open>Join\<close> concatenates, per key, the values in argument order.
\<close>

record 'p call_mem =
  md_at :: "nat \<Rightarrow> md"
  peer_at :: "nat \<Rightarrow> 'p"

record creds =
  RequireTransportSecurity :: bool
  GetRequestMetadata :: "string \<Rightarrow> goerr + (string \<times> string) list"

datatype call_option =
    HeaderCallOption nat
  | TrailerCallOption nat
  | PeerCallOption nat
  | PerRPCCredsCallOption "creds option"
  | MaxRecvMsgSizeCallOption int
  | MaxSendMsgSizeCallOption int
  | OtherCallOption

record call_options =
  Headers :: "nat list"
  Trailers :: "nat list"
  Peer :: "nat list"
  Creds :: "creds option"
  MaxRecv :: int
  MaxSend :: int

definition no_call_options :: call_options where
  "no_call_options =
     \<lparr>Headers = [], Trailers = [], Peer = [], Creds = None, MaxRecv = 0, MaxSend = 0\<rparr>"

fun apply_option :: "call_options \<Rightarrow> call_option \<Rightarrow> call_options" where
  "apply_option co (HeaderCallOption a) = co\<lparr>Headers := Headers co @ [a]\<rparr>"
| "apply_option co (TrailerCallOption a) = co\<lparr>Trailers := Trailers co @ [a]\<rparr>"
| "apply_option co (PeerCallOption a) = co\<lparr>Peer := Peer co @ [a]\<rparr>"
| "apply_option co (PerRPCCredsCallOption c) = co\<lparr>Creds := c\<rparr>"
| "apply_option co (MaxRecvMsgSizeCallOption n) = co\<lparr>MaxRecv := n\<rparr>"
| "apply_option co (MaxSendMsgSizeCallOption n) = co\<lparr>MaxSend := n\<rparr>"
| "apply_option co OtherCallOption = co"

definition GetCallOptions :: "call_option list \<Rightarrow> call_options" where
  "GetCallOptions opts = foldl apply_option no_call_options opts"

definition SetHeaders :: "call_options \<Rightarrow> md \<Rightarrow> 'p call_mem \<Rightarrow> 'p call_mem" where
  "SetHeaders co md mem = mem\<lparr>md_at := foldl (\<lambda>m a. m(a := md)) (md_at mem) (Headers co)\<rparr>"

definition SetTrailers :: "call_options \<Rightarrow> md \<Rightarrow> 'p call_mem \<Rightarrow> 'p call_mem" where
  "SetTrailers co md mem = mem\<lparr>md_at := foldl (\<lambda>m a. m(a := md)) (md_at mem) (Trailers co)\<rparr>"

definition SetPeer :: "call_options \<Rightarrow> 'p \<Rightarrow> 'p call_mem \<Rightarrow> 'p call_mem" where
  "SetPeer co p mem = mem\<lparr>peer_at := foldl (\<lambda>m a. m(a := p)) (peer_at mem) (Peer co)\<rparr>"

subsection \<open>Per-RPC credentials\<close>

record md_api =
  md_New :: "(string \<times> string) list \<Rightarrow> md"
  md_Join :: "md list \<Rightarrow> md"

text \<open>The context enters only through its outgoing metadata, \<open>metadata.FromOutgoingContext\<close>:
  \<open>None\<close> when there is none.\<close>

definition ApplyPerRPCCreds ::
    "md_api \<Rightarrow> md option \<Rightarrow> call_options \<Rightarrow> string \<Rightarrow> bool \<Rightarrow> goerr + md option" where
  "ApplyPerRPCCreds api out copts uri isChannelSecure =
     (case Creds copts of
        None \<Rightarrow> Inr out
      | Some c \<Rightarrow>
          if RequireTransportSecurity c \<and> \<not> isChannelSecure
          then Inl (OtherErr ''transport security is required'')
          else (case GetRequestMetadata c uri of
                  Inl err \<Rightarrow> Inl err
                | Inr m \<Rightarrow>
                    if m \<noteq> [] then
                      (case out of
                         Some reqHeaders \<Rightarrow> Inr (Some (md_Join api [reqHeaders, md_New api m]))
                       | None \<Rightarrow> Inr (Some (md_New api m)))
                    else Inr out))"

subsection \<open>Lemmas\<close>

lemma foldl_upd: "foldl (\<lambda>m a. m(a := v)) f xs x = (if x \<in> set xs then v else f x)"
  by (induction xs arbitrary: f) auto

lemma md_at_SetHeaders [simp]:
  "md_at (SetHeaders co v mem) a = (if a \<in> set (Headers co) then v else md_at mem a)"
  by (simp add: SetHeaders_def foldl_upd)

lemma md_at_SetTrailers [simp]:
  "md_at (SetTrailers co v mem) a = (if a \<in> set (Trailers co) then v else md_at mem a)"
  by (simp add: SetTrailers_def foldl_upd)

lemma peer_at_SetPeer [simp]:
  "peer_at (SetPeer co v mem) a = (if a \<in> set (Peer co) then v else peer_at mem a)"
  by (simp add: SetPeer_def foldl_upd)

lemma Headers_foldl:
  "Headers (foldl apply_option co opts) =
     Headers co @ concat (map (\<lambda>opt. case opt of HeaderCallOption a \<Rightarrow> [a] | _ \<Rightarrow> []) opts)"
proof (induction opts arbitrary: co)
  case Nil
  then show ?case by simp
next
  case (Cons opt opts)
  then show ?case by (cases opt) simp_all
qed

end
