(* ===== verification/Inproc_Client.thy ===== *)
theory Inproc_Client
  imports Inproc_Frames Cloner Call_Options
begin

text \<open>
  \<open>inProcessClientStream\<close> of \<open>inprocgrpc/in_process.go\<close>: the client's end of a streaming
  RPC.

  \<open>Header\<close> and \<open>RecvMsg\<close> hold \<open>s.respMu\<close> and interact with the server only through
  \<open>readMessage\<close>. So they are functions of the results that their successive calls of
  \<open>readMessage\<close> return (\<open>'m reads\<close>): each takes what it needs from the front of the list
  and returns the rest; \<open>None\<close> means that the list ran out, that is, the call is still
  blocked. \<open>Inproc_Rpc\<close> says which lists the channel can produce.
\<close>

type_synonym 'm reads = "(goerr + 'm frame) list"

record ('m, 'p) client_stream =
  cs_responseStream :: bool
  cs_copts :: call_options
  cs_mem :: "'p call_mem"
  cs_stats :: stats_helper
  cs_events :: "'m rpc_stat list"
  cs_state :: streamState
  cs_last :: "'m frame option"
  cs_headers :: "md option"
  cs_trailers :: "md option"
  cs_ended :: bool
  cs_sendClosed :: bool

definition new_client_stream ::
    "bool \<Rightarrow> call_options \<Rightarrow> 'p call_mem \<Rightarrow> stats_helper \<Rightarrow> ('m, 'p) client_stream" where
  "new_client_stream rs co mem sh =
     \<lparr>cs_responseStream = rs, cs_copts = co, cs_mem = mem, cs_stats = sh, cs_events = [],
      cs_state = streamStateHeaders, cs_last = None, cs_headers = None, cs_trailers = None,
      cs_ended = False, cs_sendClosed = False\<rparr>"

subsection \<open>Bookkeeping\<close>

definition cs_emit ::
    "('m, 'p) client_stream \<Rightarrow> (stats_helper \<Rightarrow> 'm rpc_stat list) \<Rightarrow> ('m, 'p) client_stream" where
  "cs_emit s ev = s\<lparr>cs_events := cs_events s @ ev (cs_stats s)\<rparr>"

definition callEndOnceLocked ::
    "('m, 'p) client_stream \<Rightarrow> goerr option \<Rightarrow> ('m, 'p) client_stream" where
  "callEndOnceLocked s e =
     (if \<not> cs_ended s \<and> cs_stats s \<noteq> None
      then (cs_emit s (\<lambda>sh. sh_end sh e))\<lparr>cs_ended := True\<rparr> else s)"

text \<open>The statements that record a headers frame and a trailers frame.\<close>

definition take_headers :: "('m, 'p) client_stream \<Rightarrow> md \<Rightarrow> ('m, 'p) client_stream" where
  "take_headers s h =
     cs_emit (s\<lparr>cs_headers := Some h, cs_mem := SetHeaders (cs_copts s) h (cs_mem s)\<rparr>)
       (\<lambda>sh. sh_inHeader sh h)"

definition take_trailers :: "('m, 'p) client_stream \<Rightarrow> md \<Rightarrow> ('m, 'p) client_stream" where
  "take_trailers s t =
     cs_emit (s\<lparr>cs_trailers := Some t, cs_mem := SetTrailers (cs_copts s) t (cs_mem s)\<rparr>)
       (\<lambda>sh. sh_inTrailer sh t)"

subsection \<open>The operations\<close>

definition client_Header ::
    "('m, 'p) client_stream \<Rightarrow> 'm reads \<Rightarrow>
     ((goerr + md option) \<times> ('m, 'p) client_stream \<times> 'm reads) option" where
  "client_Header s inp =
     (if cs_state s = streamStateHeaders then
        (case inp of
           [] \<Rightarrow> None
         | Inl e # rest \<Rightarrow>
             if e \<noteq> EOF then Some (Inl e, s, rest)
             else Some (Inr (cs_headers s), s\<lparr>cs_state := streamStateClosed\<rparr>, rest)
         | Inr m # rest \<Rightarrow>
             (let s1 = s\<lparr>cs_state := streamStateMessages\<rparr>;
                  s2 = (case kind m of
                          kindHeaders \<Rightarrow> take_headers s1 (the (f_headers m))
                        | kindTrailers \<Rightarrow> take_trailers s1 (the (f_trailers m))
                        | kindError \<Rightarrow> s1\<lparr>cs_state := streamStateClosed, cs_last := Some m\<rparr>
                        | _ \<Rightarrow> s1\<lparr>cs_last := Some m\<rparr>)
              in Some (Inr (cs_headers s2), s2, rest)))
      else Some (Inr (cs_headers s), s, inp))"

definition client_Trailer :: "('m, 'p) client_stream \<Rightarrow> md option" where
  "client_Trailer s = cs_trailers s"

text \<open>The status for a second message of a method that has one response.\<close>

definition too_many_err :: goerr where
  "too_many_err =
     status_error Internal ''method should return 1 response message but server sent >1''"

text \<open>\<open>recvMsgLocked\<close> looks at the peeked frame and then loops over reads;
  \<open>ensureNoMoreLocked\<close> is called with the message that has just been received, and returns
  it when nothing more comes. The target of a nested receive is a new zero value
  (\<open>zero\<close>).\<close>

function (sequential) recvMsgLocked ::
    "'m cloner \<Rightarrow> ('m \<Rightarrow> 'm) \<Rightarrow> ('m, 'p) client_stream \<Rightarrow> 'm \<Rightarrow> bool \<Rightarrow> 'm reads \<Rightarrow>
     ((goerr + 'm) \<times> ('m, 'p) client_stream \<times> 'm reads) option"
  and recv_loop ::
    "'m cloner \<Rightarrow> ('m \<Rightarrow> 'm) \<Rightarrow> ('m, 'p) client_stream \<Rightarrow> 'm \<Rightarrow> bool \<Rightarrow> 'm reads \<Rightarrow>
     ((goerr + 'm) \<times> ('m, 'p) client_stream \<times> 'm reads) option"
  and ensureNoMoreLocked ::
    "'m cloner \<Rightarrow> ('m \<Rightarrow> 'm) \<Rightarrow> ('m, 'p) client_stream \<Rightarrow> 'm \<Rightarrow> 'm reads \<Rightarrow>
     ((goerr + 'm) \<times> ('m, 'p) client_stream \<times> 'm reads) option"
where
  "recvMsgLocked cl zero s m lastMessage inp =
     (case cs_last s of
        None \<Rightarrow> recv_loop cl zero s m lastMessage inp
      | Some l \<Rightarrow>
          (case kind l of
             kindData \<Rightarrow>
               (case Copy cl m (the (f_data l)) of
                  Inl err \<Rightarrow> Some (Inl err, s, inp)
                | Inr v \<Rightarrow>
                    (let s1 = (cs_emit s (\<lambda>sh. sh_inPayload sh (the (f_data l))))\<lparr>cs_last := None\<rparr>
                     in if lastMessage then ensureNoMoreLocked cl zero s1 v inp
                        else Some (Inr v, s1, inp)))
           | kindError \<Rightarrow>
               Some (Inl (TranslateContextError (the (f_err l))),
                     callEndOnceLocked (s\<lparr>cs_state := streamStateClosed\<rparr>) (f_err l), inp)
           | _ \<Rightarrow> recv_loop cl zero s m lastMessage inp))"
| "recv_loop cl zero s m lastMessage [] = None"
| "recv_loop cl zero s m lastMessage (Inl err # inp) =
     (let s1 = (if err = EOF
                then callEndOnceLocked (s\<lparr>cs_state := streamStateClosed\<rparr>) None else s)
      in Some (Inl (TranslateContextError err), s1, inp))"
| "recv_loop cl zero s m lastMessage (Inr r # inp) =
     (case kind r of
        kindHeaders \<Rightarrow>
          recv_loop cl zero (take_headers (s\<lparr>cs_state := streamStateMessages\<rparr>) (the (f_headers r)))
            m lastMessage inp
      | kindTrailers \<Rightarrow>
          recv_loop cl zero (take_trailers s (the (f_trailers r))) m lastMessage inp
      | kindError \<Rightarrow>
          Some (Inl (TranslateContextError (the (f_err r))),
                callEndOnceLocked (s\<lparr>cs_state := streamStateClosed, cs_last := Some r\<rparr>) (f_err r),
                inp)
      | kindData \<Rightarrow>
          (case Copy cl m (the (f_data r)) of
             Inl err \<Rightarrow> Some (Inl err, s, inp)
           | Inr v \<Rightarrow>
               (let s1 = cs_emit s (\<lambda>sh. sh_inPayload sh (the (f_data r)))
                in if lastMessage then ensureNoMoreLocked cl zero s1 v inp
                   else Some (Inr v, s1, inp)))
      | kindUnknown \<Rightarrow> recv_loop cl zero s m lastMessage inp)"
| "ensureNoMoreLocked cl zero s v inp =
     (case recvMsgLocked cl zero s (zero v) False inp of
        None \<Rightarrow> None
      | Some (Inr _, s1, rest) \<Rightarrow>
          Some (Inl too_many_err,
                s1\<lparr>cs_last := Some (err_frame too_many_err), cs_state := streamStateClosed\<rparr>, rest)
      | Some (Inl _, s1, rest) \<Rightarrow> Some (Inr v, s1, rest))"
  by pat_completeness auto
termination
  by (relation "measure (case_sum
        (\<lambda>(cl, zero, s, m, lastMessage, inp). 4 * length inp + 2 + (if lastMessage then 3 else 0))
        (case_sum
          (\<lambda>(cl, zero, s, m, lastMessage, inp). 4 * length inp + 1 + (if lastMessage then 3 else 0))
          (\<lambda>(cl, zero, s, v, inp). 4 * length inp + 3)))") auto

declare recvMsgLocked.simps [simp del] ensureNoMoreLocked.simps [simp del]

definition client_RecvMsg ::
    "'m cloner \<Rightarrow> ('m \<Rightarrow> 'm) \<Rightarrow> ('m, 'p) client_stream \<Rightarrow> 'm \<Rightarrow> 'm reads \<Rightarrow>
     ((goerr + 'm) \<times> ('m, 'p) client_stream \<times> 'm reads) option" where
  "client_RecvMsg cl zero s m inp = recvMsgLocked cl zero s m (\<not> cs_responseStream s) inp"

text \<open>\<open>SendMsg\<close> up to its \<open>writeMessage\<close>: either it returns at once, or it writes a frame and
  returns what \<open>writeMessage\<close> does.\<close>

definition client_SendMsg ::
    "'m cloner \<Rightarrow> ('m, 'p) client_stream \<Rightarrow> 'm option \<Rightarrow> (goerr + 'm frame) \<times> ('m, 'p) client_stream" where
  "client_SendMsg cl s m =
     (if cs_sendClosed s then (Inl (OtherErr ''send closed''), s)
      else (case m of
              None \<Rightarrow> (Inl (status_error Internal ''message to send is nil''), s)
            | Some msg \<Rightarrow>
                (case Clone cl msg of
                   Inl err \<Rightarrow> (Inl err, s)
                 | Inr c \<Rightarrow> (Inr (data_frame c), cs_emit s (\<lambda>sh. sh_outPayload sh c)))))"

text \<open>\<open>CloseSend\<close> closes the request channel the first time.\<close>

definition client_CloseSend ::
    "('m, 'p) client_stream \<Rightarrow> 'm frame chan \<Rightarrow> (('m, 'p) client_stream \<times> 'm frame chan) go" where
  "client_CloseSend s requests =
     (if \<not> cs_sendClosed s
      then go_bind (close_chan requests) (\<lambda>ch. Ret (s\<lparr>cs_sendClosed := True\<rparr>, ch))
      else Ret (s, requests))"

subsection \<open>Successive calls of \<open>RecvMsg\<close>\<close>

text \<open>The results of \<open>n\<close> calls, until one blocks.\<close>

fun recv_calls ::
    "'m cloner \<Rightarrow> ('m \<Rightarrow> 'm) \<Rightarrow> 'm \<Rightarrow> nat \<Rightarrow> ('m, 'p) client_stream \<Rightarrow> 'm reads \<Rightarrow>
     (goerr + 'm) list \<times> ('m, 'p) client_stream" where
  "recv_calls cl zero m 0 s inp = ([], s)"
| "recv_calls cl zero m (Suc n) s inp =
     (case client_RecvMsg cl zero s m inp of
        None \<Rightarrow> ([], s)
      | Some (r, s1, rest) \<Rightarrow>
          (let (rs, s2) = recv_calls cl zero m n s1 rest in (r # rs, s2)))"

end
