(* ===== verification/Inproc_Delivery.thy ===== *)
theory Inproc_Delivery
  imports Inproc_Server Inproc_Client
begin

text \<open>
  What the client of an in-process streaming RPC sees of its server: lemmas and properties
  that relate \<open>Inproc_Client\<close> to \<open>Inproc_Server\<close>, when the RPC is not cancelled and the
  reads are therefore the server's frames followed by the end of the channel. That the
  channel delivers those reads is shown in \<open>Inproc_Rpc\<close>.
\<close>

subsection \<open>Fields that the client's operations leave alone\<close>

lemma cs_emit_sel [simp]:
  "cs_last (cs_emit s ev) = cs_last s" "cs_state (cs_emit s ev) = cs_state s"
  "cs_headers (cs_emit s ev) = cs_headers s" "cs_trailers (cs_emit s ev) = cs_trailers s"
  "cs_mem (cs_emit s ev) = cs_mem s" "cs_copts (cs_emit s ev) = cs_copts s"
  "cs_responseStream (cs_emit s ev) = cs_responseStream s" "cs_ended (cs_emit s ev) = cs_ended s"
  "cs_stats (cs_emit s ev) = cs_stats s" "cs_sendClosed (cs_emit s ev) = cs_sendClosed s"
  by (simp_all add: cs_emit_def)

lemma callEnd_sel [simp]:
  "cs_last (callEndOnceLocked s e) = cs_last s" "cs_state (callEndOnceLocked s e) = cs_state s"
  "cs_headers (callEndOnceLocked s e) = cs_headers s"
  "cs_trailers (callEndOnceLocked s e) = cs_trailers s"
  "cs_mem (callEndOnceLocked s e) = cs_mem s" "cs_copts (callEndOnceLocked s e) = cs_copts s"
  "cs_responseStream (callEndOnceLocked s e) = cs_responseStream s"
  "cs_stats (callEndOnceLocked s e) = cs_stats s"
  by (simp_all add: callEndOnceLocked_def)

lemma take_headers_sel [simp]:
  "cs_last (take_headers s h) = cs_last s" "cs_state (take_headers s h) = cs_state s"
  "cs_headers (take_headers s h) = Some h" "cs_trailers (take_headers s h) = cs_trailers s"
  "cs_mem (take_headers s h) = SetHeaders (cs_copts s) h (cs_mem s)"
  "cs_copts (take_headers s h) = cs_copts s"
  "cs_responseStream (take_headers s h) = cs_responseStream s"
  "cs_ended (take_headers s h) = cs_ended s" "cs_stats (take_headers s h) = cs_stats s"
  by (simp_all add: take_headers_def)

lemma take_trailers_sel [simp]:
  "cs_last (take_trailers s t) = cs_last s" "cs_state (take_trailers s t) = cs_state s"
  "cs_headers (take_trailers s t) = cs_headers s" "cs_trailers (take_trailers s t) = Some t"
  "cs_mem (take_trailers s t) = SetTrailers (cs_copts s) t (cs_mem s)"
  "cs_copts (take_trailers s t) = cs_copts s"
  "cs_responseStream (take_trailers s t) = cs_responseStream s"
  "cs_ended (take_trailers s t) = cs_ended s" "cs_stats (take_trailers s t) = cs_stats s"
  by (simp_all add: take_trailers_def)

lemmas recv_unfold = recvMsgLocked.simps ensureNoMoreLocked.simps

lemma recv_frame_simps [simp]:
  "recv_loop cl zero s m b (Inr (headers_frame h) # inp) =
     recv_loop cl zero (take_headers (s\<lparr>cs_state := streamStateMessages\<rparr>) h) m b inp"
  "recv_loop cl zero s m b (Inr (trailers_frame t) # inp) =
     recv_loop cl zero (take_trailers s t) m b inp"
  "recv_loop cl zero s m b (Inr (err_frame e) # inp) =
     Some (Inl (TranslateContextError e),
           callEndOnceLocked (s\<lparr>cs_state := streamStateClosed, cs_last := Some (err_frame e)\<rparr>) (Some e),
           inp)"
  by simp_all

lemma recv_last_None: "cs_last s = None \<Longrightarrow> recvMsgLocked cl zero s m b inp = recv_loop cl zero s m b inp"
  by (simp add: recv_unfold)

text \<open>A peeked error stays, and is the answer to every later call.\<close>

lemma recv_sticky:
  assumes "cs_last s = Some l" and "kind l = kindError"
  shows "client_RecvMsg cl zero s m inp =
    Some (Inl (TranslateContextError (the (f_err l))),
          callEndOnceLocked (s\<lparr>cs_state := streamStateClosed\<rparr>) (f_err l), inp)"
  using assms by (simp add: client_RecvMsg_def recv_unfold)

lemma recv_calls_sticky:
  "cs_last s = Some l \<Longrightarrow> kind l = kindError \<Longrightarrow>
   \<exists>s'. recv_calls cl zero m n s inp =
      (replicate n (Inl (TranslateContextError (the (f_err l)))), s') \<and>
      cs_headers s' = cs_headers s \<and> cs_trailers s' = cs_trailers s \<and> cs_mem s' = cs_mem s"
proof (induction n arbitrary: s)
  case 0
  then show ?case by simp
next
  case (Suc n)
  let ?s1 = "callEndOnceLocked (s\<lparr>cs_state := streamStateClosed\<rparr>) (f_err l)"
  from Suc.IH [of ?s1] Suc.prems obtain s' where
    "recv_calls cl zero m n ?s1 inp =
       (replicate n (Inl (TranslateContextError (the (f_err l)))), s')"
    "cs_headers s' = cs_headers s" "cs_trailers s' = cs_trailers s" "cs_mem s' = cs_mem s"
    by auto
  with Suc.prems show ?case by (simp add: recv_sticky)
qed

text \<open>The end of the channel is the answer to every later call, too.\<close>

lemma recv_calls_EOF:
  "cs_last s = None \<Longrightarrow>
   \<exists>s'. recv_calls cl zero m n s (replicate n (Inl EOF)) = (replicate n (Inl EOF), s') \<and>
      cs_headers s' = cs_headers s \<and> cs_trailers s' = cs_trailers s \<and> cs_mem s' = cs_mem s"
proof (induction n arbitrary: s)
  case 0
  then show ?case by simp
next
  case (Suc n)
  let ?s1 = "callEndOnceLocked (s\<lparr>cs_state := streamStateClosed\<rparr>) None"
  from Suc.IH [of ?s1] Suc.prems obtain s' where
    "recv_calls cl zero m n ?s1 (replicate n (Inl EOF)) = (replicate n (Inl EOF), s')"
    "cs_headers s' = cs_headers s" "cs_trailers s' = cs_trailers s" "cs_mem s' = cs_mem s"
    by auto
  with Suc.prems show ?case by (simp add: client_RecvMsg_def recv_last_None)
qed

text \<open>A receive on a stream of responses does not block when an end is among the reads.\<close>

lemma recv_loop_progress:
  "Inl e \<in> set inp \<Longrightarrow> recv_loop cl zero s m False inp \<noteq> None"
proof (induction inp arbitrary: s)
  case Nil
  then show ?case by simp
next
  case (Cons r inp)
  then show ?case
    by (cases r) (auto simp: Let_def split: frameKind.splits sum.splits)
qed

lemma recv_calls_headers:
  "cs_last s = None \<Longrightarrow> cs_responseStream s \<Longrightarrow> Inl e \<in> set inp \<Longrightarrow>
   recv_calls cl zero m (Suc n) s (Inr (headers_frame h) # inp) =
   recv_calls cl zero m (Suc n) (take_headers (s\<lparr>cs_state := streamStateMessages\<rparr>) h) inp"
  by (auto simp: client_RecvMsg_def recv_last_None dest: recv_loop_progress split: option.splits)

lemma recv_calls_trailers:
  "cs_last s = None \<Longrightarrow> cs_responseStream s \<Longrightarrow> Inl e \<in> set inp \<Longrightarrow>
   recv_calls cl zero m (Suc n) s (Inr (trailers_frame t) # inp) =
   recv_calls cl zero m (Suc n) (take_trailers s t) inp"
  by (auto simp: client_RecvMsg_def recv_last_None dest: recv_loop_progress split: option.splits)

subsection \<open>A whole response stream\<close>

definition receive_all :: "('m, 'p) client_stream \<Rightarrow> 'm list \<Rightarrow> ('m, 'p) client_stream" where
  "receive_all s ms = foldl (\<lambda>s x. cs_emit s (\<lambda>sh. sh_inPayload sh x)) s ms"

lemma receive_all_sel [simp]:
  "cs_last (receive_all s ms) = cs_last s" "cs_headers (receive_all s ms) = cs_headers s"
  "cs_trailers (receive_all s ms) = cs_trailers s" "cs_mem (receive_all s ms) = cs_mem s"
  "cs_copts (receive_all s ms) = cs_copts s"
  "cs_responseStream (receive_all s ms) = cs_responseStream s"
  unfolding receive_all_def by (induction ms arbitrary: s) auto

context faithful_cloner
begin

lemma recv_data:
  assumes "cs_last s = None" and "cs_responseStream s" and "m \<in> A" and "x \<in> A"
  shows "client_RecvMsg cl zero s m (Inr (data_frame x) # inp) =
    Some (Inr x, cs_emit s (\<lambda>sh. sh_inPayload sh x), inp)"
  using assms by (simp add: client_RecvMsg_def recv_last_None copy_ok)

lemma recv_calls_data:
  assumes "cs_last s = None" and "cs_responseStream s" and "m \<in> A" and "set ms \<subseteq> A"
  shows "recv_calls cl zero m (length ms + n) s (map (Inr \<circ> data_frame) ms @ inp) =
    (let (rs, s') = recv_calls cl zero m n (receive_all s ms) inp in (map Inr ms @ rs, s'))"
  using assms
proof (induction ms arbitrary: s)
  case Nil
  then show ?case by (simp add: receive_all_def Let_def split: prod.splits)
next
  case (Cons x ms)
  then show ?case
    by (simp add: recv_data receive_all_def Let_def split: prod.splits)
qed

text \<open>All the messages in order, then the server's error or the end of the stream, for ever;
  and the metadata that the server set.\<close>

lemma recv_calls_view:
  assumes "cs_last s = None" and "cs_responseStream s" and "m \<in> A" and "set (v_msgs v) \<subseteq> A"
  shows "\<exists>s'. recv_calls cl zero m (length (v_msgs v) + Suc n) s
        (map Inr (frames_of_view v err) @ replicate (Suc n) (Inl EOF)) =
      (map Inr (v_msgs v) @
         replicate (Suc n) (Inl (case err of None \<Rightarrow> EOF | Some e \<Rightarrow> TranslateContextError e)), s') \<and>
      cs_headers s' = (if v_headers v = [] then cs_headers s else Some (v_headers v)) \<and>
      cs_trailers s' = (if v_trailers v = [] then cs_trailers s else Some (v_trailers v)) \<and>
      cs_mem s' =
        (if v_trailers v = [] then id else SetTrailers (cs_copts s) (v_trailers v))
          ((if v_headers v = [] then id else SetHeaders (cs_copts s) (v_headers v)) (cs_mem s))"
proof -
  let ?tail = "replicate (Suc n) (Inl EOF)"
  let ?msgs = "map (Inr \<circ> data_frame) (v_msgs v)"
  let ?hs = "if v_headers v = [] then s
    else take_headers (s\<lparr>cs_state := streamStateMessages\<rparr>) (v_headers v)"
  let ?s1 = "receive_all ?hs (v_msgs v)"
  let ?s2 = "if v_trailers v = [] then ?s1 else take_trailers ?s1 (v_trailers v)"
  let ?fin = "case err of None \<Rightarrow> [] | Some e \<Rightarrow> [Inr (err_frame e)]"
  have inp: "map Inr (frames_of_view v err) @ ?tail =
      (if v_headers v = [] then [] else [Inr (headers_frame (v_headers v))]) @ ?msgs @
      (if v_trailers v = [] then [] else [Inr (trailers_frame (v_trailers v))]) @ ?fin @ ?tail"
    by (simp add: frames_of_view_def headers_part_def trailers_part_def err_part_def
        split: option.splits)
  have s2: "cs_last ?s2 = None" using assms(1) by simp
  have hs: "cs_last ?hs = None" "cs_responseStream ?hs" using assms(1,2) by simp_all
  have "recv_calls cl zero m (length (v_msgs v) + Suc n) s (map Inr (frames_of_view v err) @ ?tail) =
      recv_calls cl zero m (length (v_msgs v) + Suc n) ?hs (?msgs @
        (if v_trailers v = [] then [] else [Inr (trailers_frame (v_trailers v))]) @ ?fin @ ?tail)"
    unfolding inp using recv_calls_headers [OF assms(1,2), of EOF _ cl zero m "length (v_msgs v) + n"] by simp
  also have "\<dots> = (let (rs, s') = recv_calls cl zero m (Suc n) ?s1
        ((if v_trailers v = [] then [] else [Inr (trailers_frame (v_trailers v))]) @ ?fin @ ?tail)
      in (map Inr (v_msgs v) @ rs, s'))"
    by (rule recv_calls_data [OF hs assms(3,4)])
  also have "recv_calls cl zero m (Suc n) ?s1
        ((if v_trailers v = [] then [] else [Inr (trailers_frame (v_trailers v))]) @ ?fin @ ?tail) =
      recv_calls cl zero m (Suc n) ?s2 (?fin @ ?tail)"
    using recv_calls_trailers [of ?s1 EOF _ cl zero m n] hs by simp
  finally have eq: "recv_calls cl zero m (length (v_msgs v) + Suc n) s
      (map Inr (frames_of_view v err) @ ?tail) =
    (let (rs, s') = recv_calls cl zero m (Suc n) ?s2 (?fin @ ?tail) in (map Inr (v_msgs v) @ rs, s'))" .
  have "\<exists>s'. recv_calls cl zero m (Suc n) ?s2 (?fin @ ?tail) =
      (replicate (Suc n) (Inl (case err of None \<Rightarrow> EOF | Some e \<Rightarrow> TranslateContextError e)), s') \<and>
      cs_headers s' = cs_headers ?s2 \<and> cs_trailers s' = cs_trailers ?s2 \<and> cs_mem s' = cs_mem ?s2"
  proof (cases err)
    case None
    with recv_calls_EOF [OF s2, of cl zero m "Suc n"] show ?thesis by simp
  next
    case (Some e)
    let ?s3 = "callEndOnceLocked
      (?s2\<lparr>cs_state := streamStateClosed, cs_last := Some (err_frame e)\<rparr>) (Some e)"
    have "cs_last ?s3 = Some (err_frame e)" by simp
    from recv_calls_sticky [OF this, of cl zero m n ?tail] obtain s' where
      "recv_calls cl zero m n ?s3 ?tail = (replicate n (Inl (TranslateContextError e)), s')"
      "cs_headers s' = cs_headers ?s2" "cs_trailers s' = cs_trailers ?s2" "cs_mem s' = cs_mem ?s2"
      by auto
    with Some s2 show ?thesis by (simp add: client_RecvMsg_def recv_last_None)
  qed
  then obtain s' where s':
    "recv_calls cl zero m (Suc n) ?s2 (?fin @ ?tail) =
      (replicate (Suc n) (Inl (case err of None \<Rightarrow> EOF | Some e \<Rightarrow> TranslateContextError e)), s')"
    "cs_headers s' = cs_headers ?s2" "cs_trailers s' = cs_trailers ?s2" "cs_mem s' = cs_mem ?s2"
    by blast
  show ?thesis
    unfolding eq s'(1) using s'(2-4) by (intro exI [of _ s']) simp
qed

end

subsection \<open>Methods with a single response\<close>

context faithful_cloner
begin

lemma recv_calls_single:
  fixes s :: "('m, 'p) client_stream"
  assumes s: "cs_last s = None" "\<not> cs_responseStream s"
    and A: "m \<in> A" "\<And>x. x \<in> A \<Longrightarrow> zero x \<in> A" "set (v_msgs v) \<subseteq> A"
  shows "\<exists>s' rest. client_RecvMsg cl zero s m (map Inr (frames_of_view v err) @ [Inl EOF]) =
      Some (case v_msgs v of
              [] \<Rightarrow> Inl (case err of None \<Rightarrow> EOF | Some e \<Rightarrow> TranslateContextError e)
            | [x] \<Rightarrow> Inr x
            | _ \<Rightarrow> Inl too_many_err, s', rest) \<and>
      (length (v_msgs v) \<le> 1 \<longrightarrow>
         cs_last s' = map_option err_frame err \<and>
         cs_trailers s' = (if v_trailers v = [] then cs_trailers s else Some (v_trailers v))) \<and>
      (1 < length (v_msgs v) \<longrightarrow> cs_last s' = Some (err_frame too_many_err))"
proof -
  let ?tl = "map Inr (trailers_part (v_trailers v)) @ map Inr (err_part err) @ [Inl EOF]"
  have loop_tail: "\<exists>s' rest. recv_loop cl zero s m b ?tl =
      Some (Inl (case err of None \<Rightarrow> EOF | Some e \<Rightarrow> TranslateContextError e), s', rest) \<and>
      cs_last s' = map_option err_frame err \<and>
      cs_trailers s' = (if v_trailers v = [] then cs_trailers s else Some (v_trailers v))"
    if "cs_last s = None" for s :: "('m, 'p) client_stream" and m b
    using that by (auto simp: trailers_part_def err_part_def split: option.splits)
  have msgs: "\<exists>s' rest. recv_loop cl zero s m True (map (Inr \<circ> data_frame) (v_msgs v) @ ?tl) =
      Some (case v_msgs v of
              [] \<Rightarrow> Inl (case err of None \<Rightarrow> EOF | Some e \<Rightarrow> TranslateContextError e)
            | [x] \<Rightarrow> Inr x
            | _ \<Rightarrow> Inl too_many_err, s', rest) \<and>
      (length (v_msgs v) \<le> 1 \<longrightarrow>
         cs_last s' = map_option err_frame err \<and>
         cs_trailers s' = (if v_trailers v = [] then cs_trailers s else Some (v_trailers v))) \<and>
      (1 < length (v_msgs v) \<longrightarrow> cs_last s' = Some (err_frame too_many_err))"
    if s: "cs_last s = None" for s :: "('m, 'p) client_stream"
  proof (cases "v_msgs v")
    case Nil
    with loop_tail [OF s] show ?thesis by simp
  next
    case (Cons x ms)
    let ?s1 = "cs_emit s (\<lambda>sh. sh_inPayload sh x)"
    from Cons A have x: "x \<in> A" "zero x \<in> A" by auto
    show ?thesis
    proof (cases ms)
      case Nil
      from s loop_tail [of ?s1 "zero x" False] Cons Nil A x show ?thesis
        by (auto simp: copy_ok ensureNoMoreLocked.simps recv_last_None)
    next
      case more: (Cons y ys)
      from s Cons more A x show ?thesis
        by (auto simp: copy_ok ensureNoMoreLocked.simps recv_last_None)
    qed
  qed
  let ?hs = "if v_headers v = [] then s
    else take_headers (s\<lparr>cs_state := streamStateMessages\<rparr>) (v_headers v)"
  have "client_RecvMsg cl zero s m (map Inr (frames_of_view v err) @ [Inl EOF]) =
      recv_loop cl zero ?hs m True (map (Inr \<circ> data_frame) (v_msgs v) @ ?tl)"
    using s by (simp add: client_RecvMsg_def recv_last_None frames_of_view_def headers_part_def)
  then have eq: "client_RecvMsg cl zero s m (map Inr (frames_of_view v err) @ [Inl EOF]) = \<dots>" .
  have hs: "cs_last ?hs = None" "cs_trailers ?hs = cs_trailers s" using s by simp_all
  show ?thesis unfolding eq by (rule msgs [OF hs(1), unfolded hs(2)])
qed

end

subsection \<open>Peeking for the headers\<close>

text \<open>The receive functions never look at \<open>cs_state\<close>; what \<open>Header\<close> does to it does not
  change what \<open>RecvMsg\<close> returns.\<close>

lemma cs_state_commute [simp]:
  "cs_emit (s\<lparr>cs_state := x\<rparr>) ev = (cs_emit s ev)\<lparr>cs_state := x\<rparr>"
  "callEndOnceLocked (s\<lparr>cs_state := x\<rparr>) e = (callEndOnceLocked s e)\<lparr>cs_state := x\<rparr>"
  "take_headers (s\<lparr>cs_state := x\<rparr>) h = (take_headers s h)\<lparr>cs_state := x\<rparr>"
  "take_trailers (s\<lparr>cs_state := x\<rparr>) h = (take_trailers s h)\<lparr>cs_state := x\<rparr>"
  by (simp_all add: cs_emit_def callEndOnceLocked_def take_headers_def take_trailers_def)

lemma cs_last_commute [simp]:
  "cs_emit (s\<lparr>cs_last := l\<rparr>) ev = (cs_emit s ev)\<lparr>cs_last := l\<rparr>"
  "callEndOnceLocked (s\<lparr>cs_last := l\<rparr>) e = (callEndOnceLocked s e)\<lparr>cs_last := l\<rparr>"
  by (simp_all add: cs_emit_def callEndOnceLocked_def)

lemma cs_state_last:
  "s\<lparr>cs_state := x, cs_last := l\<rparr> = s\<lparr>cs_last := l, cs_state := x\<rparr>" for s :: "('m, 'p) client_stream"
  by simp

definition up_to_state ::
    "((goerr + 'm) \<times> ('m, 'p) client_stream \<times> 'm reads) option \<Rightarrow>
     ((goerr + 'm) \<times> ('m, 'p) client_stream \<times> 'm reads) option" where
  "up_to_state = map_option (\<lambda>(r, s, rest). (r, s\<lparr>cs_state := streamStateClosed\<rparr>, rest))"

lemma up_to_state_simps [simp]:
  "up_to_state None = None"
  "up_to_state (Some (r, s, rest)) = Some (r, s\<lparr>cs_state := streamStateClosed\<rparr>, rest)"
  by (simp_all add: up_to_state_def)

lemma up_to_state_ensure:
  "up_to_state (ensureNoMoreLocked cl zero s v inp) =
     map_option (\<lambda>(r, s1, rest).
        (case r of
           Inl _ \<Rightarrow> (Inr v, s1, rest)
         | Inr _ \<Rightarrow> (Inl too_many_err,
             s1\<lparr>cs_last := Some (err_frame too_many_err), cs_state := streamStateClosed\<rparr>, rest)))
       (up_to_state (recvMsgLocked cl zero s (zero v) False inp))"
  by (auto simp: ensureNoMoreLocked.simps up_to_state_def cs_state_last
      split: option.splits sum.splits prod.splits)

lemma recv_ignores_state:
  "up_to_state (recvMsgLocked cl zero (s\<lparr>cs_state := x\<rparr>) m b inp) =
     up_to_state (recvMsgLocked cl zero s m b inp)"
  "up_to_state (recv_loop cl zero (s\<lparr>cs_state := x\<rparr>) m b inp) =
     up_to_state (recv_loop cl zero s m b inp)"
  "up_to_state (ensureNoMoreLocked cl zero (s\<lparr>cs_state := x\<rparr>) v inp) =
     up_to_state (ensureNoMoreLocked cl zero s v inp)"
proof (induction cl zero s m b inp and cl zero s m b inp and cl zero s v inp
    arbitrary: x and x and x rule: recvMsgLocked_recv_loop_ensureNoMoreLocked.induct)
  case (1 cl zero s m b inp)
  show ?case
    using "1.IH" by (auto simp: recvMsgLocked.simps Let_def cs_state_last split: option.splits frameKind.splits sum.splits)
next
  case (2 cl zero s m b)
  show ?case by simp
next
  case (3 cl zero s m b err inp)
  show ?case by (simp add: Let_def)
next
  case (4 cl zero s m b r inp)
  note IH = "4.IH"
  show ?case
  proof (cases "kind r")
    case kindHeaders
    then show ?thesis by simp
  next
    case kindTrailers
    then show ?thesis using IH(3) [OF kindTrailers, of x] by simp
  next
    case kindError
    then show ?thesis by simp
  next
    case kindUnknown
    then show ?thesis using IH(4) [OF kindUnknown, of x] by simp
  next
    case kindData
    show ?thesis
    proof (cases "Copy cl m (the (f_data r))")
      case (Inl e)
      with kindData show ?thesis by simp
    next
      case (Inr v)
      show ?thesis
        using kindData Inr IH(2) [OF kindData Inr refl, of x] by (cases b) (simp_all add: Let_def)
    qed
  qed
next
  case (5 cl zero s v inp)
  show ?case unfolding up_to_state_ensure "5.IH" [of x] by (rule refl)
qed


text \<open>A call of \<open>Header\<close> that reads a frame leaves what the next call of \<open>RecvMsg\<close> returns, and
  every field but \<open>cs_state\<close> after it, as if there had been no such call. (When the cloner
  fails to copy the message, a peeked frame is kept for another try and a frame that has just
  been read is lost.)\<close>

lemma Header_peeks:
  assumes "cs_state s = streamStateHeaders" and "cs_last s = None" and "kind f \<noteq> kindUnknown"
    and copy: "kind f = kindData \<longrightarrow> Copy cl m (the (f_data f)) = Inr v"
  shows "\<exists>h s1. client_Header s (Inr f # inp) = Some (Inr h, s1, inp) \<and>
    up_to_state (client_RecvMsg cl zero s1 m inp) =
    up_to_state (client_RecvMsg cl zero s m (Inr f # inp))"
proof (cases "kind f")
  case kindTrailers
  then show ?thesis
    using assms recv_ignores_state(2) [where s = "take_trailers s (the (f_trailers f))"]
    by (simp add: client_Header_def client_RecvMsg_def recv_last_None Let_def)
next
  case kindData
  let ?c = "cs_emit s (\<lambda>sh. sh_inPayload sh (the (f_data f)))"
  have eq: "?c\<lparr>cs_state := streamStateMessages, cs_last := None\<rparr> = ?c\<lparr>cs_state := streamStateMessages\<rparr>"
    using assms(2) by (cases s) (simp add: cs_emit_def)
  show ?thesis
    using kindData assms recv_ignores_state(3) [where s = ?c]
    by (simp add: client_Header_def client_RecvMsg_def recvMsgLocked.simps Let_def eq)
qed (use assms in \<open>simp_all add: client_Header_def client_RecvMsg_def recv_last_None
      recvMsgLocked.simps Let_def\<close>)

subsection \<open>The end of the RPC is reported once\<close>

fun is_end :: "'m rpc_stat \<Rightarrow> bool" where
  "is_end (End c e) = True"
| "is_end _ = False"

definition ends :: "('m, 'p) client_stream \<Rightarrow> nat" where
  "ends s = length (filter is_end (cs_events s))"

definition end_inv :: "('m, 'p) client_stream \<Rightarrow> bool" where
  "end_inv s \<longleftrightarrow> ends s = (if cs_ended s then 1 else 0)"

lemma end_inv_emit [simp]:
  "end_inv (cs_emit s (\<lambda>sh. sh_inPayload sh x)) = end_inv s"
  "end_inv (cs_emit s (\<lambda>sh. sh_outPayload sh x)) = end_inv s"
  "end_inv (take_headers s h) = end_inv s" "end_inv (take_trailers s h) = end_inv s"
  by (auto simp: end_inv_def ends_def cs_emit_def take_headers_def take_trailers_def sh_defs
      split: option.splits)

lemma end_inv_update [simp]:
  "end_inv (s\<lparr>cs_state := x\<rparr>) = end_inv s" "end_inv (s\<lparr>cs_last := l\<rparr>) = end_inv s"
  by (simp_all add: end_inv_def ends_def)

lemma end_inv_callEnd [simp]: "end_inv s \<Longrightarrow> end_inv (callEndOnceLocked s e)"
  by (auto simp: end_inv_def ends_def callEndOnceLocked_def cs_emit_def sh_defs split: option.splits)

lemma recv_end_inv:
  "recvMsgLocked cl zero s m b inp = Some (r, s', rest) \<Longrightarrow> end_inv s \<Longrightarrow> end_inv s'"
  "recv_loop cl zero s m b inp = Some (r, s', rest) \<Longrightarrow> end_inv s \<Longrightarrow> end_inv s'"
  "ensureNoMoreLocked cl zero s v inp = Some (r, s', rest) \<Longrightarrow> end_inv s \<Longrightarrow> end_inv s'"
proof (induction cl zero s m b inp and cl zero s m b inp and cl zero s v inp
    arbitrary: r s' rest and r s' rest and r s' rest
    rule: recvMsgLocked_recv_loop_ensureNoMoreLocked.induct)
  case (1 cl zero s m b inp)
  then show ?case
    by (auto simp: recvMsgLocked.simps [of cl zero s] Let_def
        split: option.splits frameKind.splits sum.splits if_splits)
next
  case (2 cl zero s m b)
  then show ?case by simp
next
  case (3 cl zero s m b err inp)
  then show ?case by (auto simp: Let_def split: if_splits)
next
  case (4 cl zero s m b f inp)
  then show ?case
    by (auto simp: Let_def split: frameKind.splits sum.splits if_splits)
next
  case (5 cl zero s v inp)
  then show ?case
    by (auto simp: ensureNoMoreLocked.simps [of cl zero s] split: option.splits sum.splits)
qed

lemma client_Header_end_inv: "client_Header s inp = Some (r, s', rest) \<Longrightarrow> end_inv s \<Longrightarrow> end_inv s'"
  by (auto simp: client_Header_def Let_def split: if_splits list.splits sum.splits frameKind.splits)

lemma client_SendMsg_end_inv: "client_SendMsg cl s m = (r, s') \<Longrightarrow> end_inv s \<Longrightarrow> end_inv s'"
  by (auto simp: client_SendMsg_def split: if_splits option.splits sum.splits)

text \<open>A sequence of calls of the three operations that record events.\<close>

datatype 'm cs_call = CallHeader | CallRecv 'm | CallSend "'m option"

fun cs_calls ::
    "'m cloner \<Rightarrow> ('m \<Rightarrow> 'm) \<Rightarrow> 'm cs_call list \<Rightarrow> ('m, 'p) client_stream \<Rightarrow> 'm reads \<Rightarrow> ('m, 'p) client_stream" where
  "cs_calls cl zero [] s inp = s"
| "cs_calls cl zero (CallHeader # cs) s inp =
     (case client_Header s inp of None \<Rightarrow> s | Some (_, s', rest) \<Rightarrow> cs_calls cl zero cs s' rest)"
| "cs_calls cl zero (CallRecv m # cs) s inp =
     (case client_RecvMsg cl zero s m inp of None \<Rightarrow> s | Some (_, s', rest) \<Rightarrow> cs_calls cl zero cs s' rest)"
| "cs_calls cl zero (CallSend m # cs) s inp = cs_calls cl zero cs (snd (client_SendMsg cl s m)) inp"

lemma cs_calls_end_inv: "end_inv s \<Longrightarrow> end_inv (cs_calls cl zero cs s inp)"
proof (induction cl zero cs s inp rule: cs_calls.induct)
  case (2 cl zero cs s inp)
  show ?case
  proof (cases "client_Header s inp")
    case (Some x)
    obtain r s' rest where "x = (r, s', rest)" by (cases x)
    with Some client_Header_end_inv [of s inp r s' rest] 2 show ?thesis by simp
  qed (use 2 in simp)
next
  case (3 cl zero m cs s inp)
  show ?case
  proof (cases "client_RecvMsg cl zero s m inp")
    case (Some x)
    obtain r s' rest where "x = (r, s', rest)" by (cases x)
    with Some recv_end_inv(1) [of cl zero s m _ inp r s' rest] 3 show ?thesis
      by (simp add: client_RecvMsg_def)
  qed (use 3 in simp)
next
  case (4 cl zero m cs s inp)
  then show ?case by (cases "client_SendMsg cl s m") (auto dest: client_SendMsg_end_inv)
qed simp

end
