(* ===== verification/Inproc_Rpc.thy ===== *)
theory Inproc_Rpc
  imports Inproc_Delivery
begin

text \<open>
  A streaming RPC of the in-process channel as \<open>NewStream\<close> of \<open>inprocgrpc/in_process.go\<close>
  sets it up: the server goroutine, the client, the two channels and the three contexts, as a
  step relation. A step is one communication of a goroutine with the rest of the system.

  \<^item> The server goroutine runs the handler and then \<open>finish\<close> (both in \<open>srv_pos\<close>). The
    handler is any well-founded tree of calls, each of which may depend on the results of the
    earlier ones.
  \<^item> The client may at any time read from the response channel, on behalf of \<open>Header\<close> or
    \<open>RecvMsg\<close>; \<open>r_reads\<close> holds what its calls of \<open>readMessage\<close> have returned, from which
    \<open>Inproc_Client\<close> computes the results of \<open>Header\<close> and \<open>RecvMsg\<close>. Independently it may
    call \<open>SendMsg\<close> and \<open>CloseSend\<close>, one at a time as \<open>reqMu\<close> demands.
  \<^item> The client's context may be done at any time. That reaches the server's context, and
    that one \<open>svrDoneCtx\<close>, by steps of their own: \<open>noValuesContext\<close> hides the parent from the
    context package, which then propagates the cancellation from another goroutine.
  \<^item> The \<open>select\<close> of \<open>readMessage\<close> and \<open>writeMessage\<close> and the look at the context's error
    after it are two steps.
\<close>

type_synonym 'm op_run = "('m, goerr option \<times> 'm server_stream) srv_prog"

text \<open>Where the server goroutine is: between two calls of the handler, within a call (with the
  case its current \<open>select\<close> has chosen, if any), within \<open>finish\<close>, or gone.\<close>

datatype 'm srv_pos =
    AtHandler "'m server_stream" "'m handler"
  | InOp "'m op_run" "wr_case option" "goerr option \<Rightarrow> 'm handler"
  | InRecv "'m server_stream" 'm "'m frame rd_case option" "goerr + 'm \<Rightarrow> 'm handler"
  | InFinish "'m op_run" "wr_case option" "goerr option"
  | Exited "goerr option"

record ('m, 'p) rpc =
  r_srv :: "'m srv_pos"
  r_resp :: "'m frame chan"
  r_req :: "'m frame chan"
  r_cctx :: "goerr option"
  r_sctx :: "goerr option"
  r_done :: "goerr option"
  r_cs :: "('m, 'p) client_stream"
  r_send :: "('m frame \<times> wr_case option) option"
  r_rsel :: "'m frame rd_case option"
  r_reads :: "'m reads"
  r_sends :: "goerr option list"
  r_log :: "'m srv_op list"
  r_sent :: "'m frame list"
  r_got :: "'m frame list"
  r_reqs :: "'m frame list"
  r_sgot :: "'m frame list"

text \<open>The fields from \<open>r_sends\<close> on are history: the results of \<open>SendMsg\<close>, the calls that
  the handler has made, the frames that were put on and taken from the response channel and
  the request channel.\<close>

definition start_rpc ::
    "bool \<Rightarrow> call_options \<Rightarrow> 'p call_mem \<Rightarrow> stats_helper \<Rightarrow> stats_helper \<Rightarrow> 'm handler \<Rightarrow> ('m, 'p) rpc" where
  "start_rpc rs co mem csh ssh h =
     \<lparr>r_srv = AtHandler (new_server_stream ssh) h, r_resp = new_chan, r_req = new_chan,
      r_cctx = None, r_sctx = None, r_done = None,
      r_cs = new_client_stream rs co mem csh, r_send = None, r_rsel = None, r_reads = [],
      r_sends = [], r_log = [], r_sent = [], r_got = [], r_reqs = [], r_sgot = []\<rparr>"

subsection \<open>Steps\<close>

text \<open>\<open>context.CancelFunc\<close>: the first error stays.\<close>

definition cancel_ctx :: "goerr option \<Rightarrow> goerr \<Rightarrow> goerr option" where
  "cancel_ctx c e = (case c of None \<Rightarrow> Some e | Some e' \<Rightarrow> Some e')"

text \<open>One action of a running operation, under the server's context \<open>e\<close>. The state is the
  rest of the operation, the chosen case, the response channel, \<open>svrDoneCtx\<close> and the frames
  sent.\<close>

type_synonym 'm prog_state =
  "'m op_run \<times> wr_case option \<times> 'm frame chan \<times> goerr option \<times> 'm frame list"

inductive prog_step :: "goerr option \<Rightarrow> 'm prog_state \<Rightarrow> 'm prog_state \<Rightarrow> bool" for e where
  ctx: "prog_step e (SCtxErr c, None, ch, d, fs) (c e, None, ch, d, fs)"
| select: "(w, ch') \<in> set (write_cases e None ch f) \<Longrightarrow> w \<noteq> WrPanic \<Longrightarrow>
    prog_step e (SWrite f c, None, ch, d, fs)
      (SWrite f c, Some w, ch', d, if w = Sent then fs @ [f] else fs)"
| written: "prog_step e (SWrite f c, Some w, ch, d, fs) (c (write_result e w), None, ch, d, fs)"
| onDone: "prog_step e (SOnDone c, None, ch, d, fs) (c, None, ch, cancel_ctx d CtxCanceled, fs)"
| close: "close_chan ch = Ret ch' \<Longrightarrow> prog_step e (SClose c, None, ch, d, fs) (c, None, ch', d, fs)"

inductive_cases prog_stepE: "prog_step e ps ps'"

fun prog_panics :: "goerr option \<Rightarrow> 'm op_run \<Rightarrow> wr_case option \<Rightarrow> 'm frame chan \<Rightarrow> bool" where
  "prog_panics e (SWrite f c) None ch = (WrPanic \<in> fst ` set (write_cases e None ch f))"
| "prog_panics e (SClose c) None ch = panics (close_chan ch)"
| "prog_panics e _ _ ch = False"

inductive rpc_step :: "'m cloner \<Rightarrow> ('m, 'p) rpc \<Rightarrow> ('m, 'p) rpc \<Rightarrow> bool" for cl where
  call: "r_srv r = AtHandler s (HCall a k) \<Longrightarrow>
    rpc_step cl r (r\<lparr>r_srv := InOp (op_prog cl a s) None k, r_log := r_log r @ [a]\<rparr>)"
| op: "r_srv r = InOp p w k \<Longrightarrow>
    prog_step (r_sctx r) (p, w, r_resp r, r_done r, r_sent r) (p', w', ch, d, fs) \<Longrightarrow>
    rpc_step cl r (r\<lparr>r_srv := InOp p' w' k, r_resp := ch, r_done := d, r_sent := fs\<rparr>)"
| op_return: "r_srv r = InOp (SRet (res, s)) None k \<Longrightarrow>
    rpc_step cl r (r\<lparr>r_srv := AtHandler s (k res)\<rparr>)"
| recv: "r_srv r = AtHandler s (HRecv m k) \<Longrightarrow> rpc_step cl r (r\<lparr>r_srv := InRecv s m None k\<rparr>)"
| recv_select: "r_srv r = InRecv s m None k \<Longrightarrow> (c, ch) \<in> set (read_cases (r_sctx r) (r_req r)) \<Longrightarrow>
    rpc_step cl r (r\<lparr>r_srv := InRecv s m (Some c) k, r_req := ch,
      r_sgot := r_sgot r @ (case c of Got (Some f) \<Rightarrow> [f] | _ \<Rightarrow> [])\<rparr>)"
| recv_return: "r_srv r = InRecv s m (Some c) k \<Longrightarrow>
    server_RecvMsg cl s m (read_result (r_sctx r) c) = (res, s') \<Longrightarrow>
    rpc_step cl r (r\<lparr>r_srv := AtHandler s' (k res)\<rparr>)"
| return: "r_srv r = AtHandler s (HReturn err) \<Longrightarrow>
    rpc_step cl r (r\<lparr>r_srv := InFinish (end_handler s err) None err\<rparr>)"
| fin: "r_srv r = InFinish p w err \<Longrightarrow>
    prog_step (r_sctx r) (p, w, r_resp r, r_done r, r_sent r) (p', w', ch, d, fs) \<Longrightarrow>
    rpc_step cl r (r\<lparr>r_srv := InFinish p' w' err, r_resp := ch, r_done := d, r_sent := fs\<rparr>)"
| exit: "r_srv r = InFinish (SRet x) None err \<Longrightarrow>
    rpc_step cl r (r\<lparr>r_srv := Exited err, r_sctx := cancel_ctx (r_sctx r) CtxCanceled\<rparr>)"
| read_select: "r_rsel r = None \<Longrightarrow> (c, ch) \<in> set (read_cases (r_cctx r) (r_resp r)) \<Longrightarrow>
    rpc_step cl r (r\<lparr>r_rsel := Some c, r_resp := ch,
      r_got := r_got r @ (case c of Got (Some f) \<Rightarrow> [f] | _ \<Rightarrow> [])\<rparr>)"
| read_return: "r_rsel r = Some c \<Longrightarrow>
    rpc_step cl r (r\<lparr>r_rsel := None, r_reads := r_reads r @ [read_result (r_cctx r) c]\<rparr>)"
| send_refused: "r_send r = None \<Longrightarrow> client_SendMsg cl (r_cs r) m = (Inl err, cs) \<Longrightarrow>
    rpc_step cl r (r\<lparr>r_cs := cs, r_sends := r_sends r @ [Some err]\<rparr>)"
| send_begin: "r_send r = None \<Longrightarrow> client_SendMsg cl (r_cs r) m = (Inr f, cs) \<Longrightarrow>
    rpc_step cl r (r\<lparr>r_cs := cs, r_send := Some (f, None)\<rparr>)"
| send_select: "r_send r = Some (f, None) \<Longrightarrow>
    (w, ch) \<in> set (write_cases (r_cctx r) (r_done r) (r_req r) f) \<Longrightarrow> w \<noteq> WrPanic \<Longrightarrow>
    rpc_step cl r (r\<lparr>r_send := Some (f, Some w), r_req := ch,
      r_reqs := (if w = Sent then r_reqs r @ [f] else r_reqs r)\<rparr>)"
| send_return: "r_send r = Some (f, Some w) \<Longrightarrow>
    rpc_step cl r (r\<lparr>r_send := None, r_sends := r_sends r @ [write_result (r_cctx r) w]\<rparr>)"
| close_send: "r_send r = None \<Longrightarrow> client_CloseSend (r_cs r) (r_req r) = Ret (cs, ch) \<Longrightarrow>
    rpc_step cl r (r\<lparr>r_cs := cs, r_req := ch\<rparr>)"
| cancel: "e = CtxCanceled \<or> e = CtxDeadlineExceeded \<Longrightarrow>
    rpc_step cl r (r\<lparr>r_cctx := cancel_ctx (r_cctx r) e\<rparr>)"
| propagate: "r_cctx r = Some e \<Longrightarrow> rpc_step cl r (r\<lparr>r_sctx := cancel_ctx (r_sctx r) e\<rparr>)"
| propagate_done: "r_sctx r = Some e \<Longrightarrow> rpc_step cl r (r\<lparr>r_done := cancel_ctx (r_done r) e\<rparr>)"

text \<open>A state in which the next action of a goroutine can panic.\<close>

definition rpc_panics :: "('m, 'p) rpc \<Rightarrow> bool" where
  "rpc_panics r \<longleftrightarrow>
     (case r_srv r of
        InOp p w k \<Rightarrow> prog_panics (r_sctx r) p w (r_resp r)
      | InFinish p w err \<Rightarrow> prog_panics (r_sctx r) p w (r_resp r)
      | _ \<Rightarrow> False) \<or>
     (case r_send r of
        Some (f, None) \<Rightarrow> WrPanic \<in> fst ` set (write_cases (r_cctx r) (r_done r) (r_req r) f)
      | None \<Rightarrow> panics (client_CloseSend (r_cs r) (r_req r))
      | _ \<Rightarrow> False)"

definition rpc_reachable ::
    "'m cloner \<Rightarrow> ('m, 'p) rpc \<Rightarrow> ('m, 'p) rpc \<Rightarrow> bool" where
  "rpc_reachable cl r0 r \<longleftrightarrow> (rpc_step cl)\<^sup>*\<^sup>* r0 r"

subsection \<open>A scheduler\<close>

text \<open>An executable reading of the steps: a schedule says which goroutine acts next and, where
  a \<open>select\<close> has several cases that can proceed, which one is chosen. \<open>None\<close> when the goroutine
  cannot act.\<close>

datatype 'm choice =
    ChServer nat
  | ChRead nat
  | ChSend "'m option"
  | ChSendGo nat
  | ChCloseSend
  | ChCancel
  | ChPropagate
  | ChPropagateDone

fun nth_opt :: "'a list \<Rightarrow> nat \<Rightarrow> 'a option" where
  "nth_opt [] i = None"
| "nth_opt (x # xs) 0 = Some x"
| "nth_opt (x # xs) (Suc i) = nth_opt xs i"

fun prog_next :: "goerr option \<Rightarrow> nat \<Rightarrow> 'm prog_state \<Rightarrow> 'm prog_state option" where
  "prog_next e i (SCtxErr c, None, ch, d, fs) = Some (c e, None, ch, d, fs)"
| "prog_next e i (SWrite f c, None, ch, d, fs) =
     (case nth_opt (write_cases e None ch f) i of
        None \<Rightarrow> None
      | Some (w, ch') \<Rightarrow>
          if w = WrPanic then None
          else Some (SWrite f c, Some w, ch', d, if w = Sent then fs @ [f] else fs))"
| "prog_next e i (SWrite f c, Some w, ch, d, fs) = Some (c (write_result e w), None, ch, d, fs)"
| "prog_next e i (SOnDone c, None, ch, d, fs) = Some (c, None, ch, cancel_ctx d CtxCanceled, fs)"
| "prog_next e i (SClose c, None, ch, d, fs) =
     (case close_chan ch of Ret ch' \<Rightarrow> Some (c, None, ch', d, fs) | Panic _ \<Rightarrow> None)"
| "prog_next e i _ = None"

definition server_next :: "'m cloner \<Rightarrow> nat \<Rightarrow> ('m, 'p) rpc \<Rightarrow> ('m, 'p) rpc option" where
  "server_next cl i r =
     (case r_srv r of
        AtHandler s (HCall a k) \<Rightarrow>
          Some (r\<lparr>r_srv := InOp (op_prog cl a s) None k, r_log := r_log r @ [a]\<rparr>)
      | AtHandler s (HRecv m k) \<Rightarrow> Some (r\<lparr>r_srv := InRecv s m None k\<rparr>)
      | AtHandler s (HReturn err) \<Rightarrow> Some (r\<lparr>r_srv := InFinish (end_handler s err) None err\<rparr>)
      | InOp (SRet (res, s)) None k \<Rightarrow> Some (r\<lparr>r_srv := AtHandler s (k res)\<rparr>)
      | InOp p w k \<Rightarrow>
          (case prog_next (r_sctx r) i (p, w, r_resp r, r_done r, r_sent r) of
             None \<Rightarrow> None
           | Some (p', w', ch, d, fs) \<Rightarrow>
               Some (r\<lparr>r_srv := InOp p' w' k, r_resp := ch, r_done := d, r_sent := fs\<rparr>))
      | InRecv s m None k \<Rightarrow>
          (case nth_opt (read_cases (r_sctx r) (r_req r)) i of
             None \<Rightarrow> None
           | Some (c, ch) \<Rightarrow>
               Some (r\<lparr>r_srv := InRecv s m (Some c) k, r_req := ch,
                 r_sgot := r_sgot r @ (case c of Got (Some f) \<Rightarrow> [f] | _ \<Rightarrow> [])\<rparr>))
      | InRecv s m (Some c) k \<Rightarrow>
          (case server_RecvMsg cl s m (read_result (r_sctx r) c) of
             (res, s') \<Rightarrow> Some (r\<lparr>r_srv := AtHandler s' (k res)\<rparr>))
      | InFinish (SRet x) None err \<Rightarrow>
          Some (r\<lparr>r_srv := Exited err, r_sctx := cancel_ctx (r_sctx r) CtxCanceled\<rparr>)
      | InFinish p w err \<Rightarrow>
          (case prog_next (r_sctx r) i (p, w, r_resp r, r_done r, r_sent r) of
             None \<Rightarrow> None
           | Some (p', w', ch, d, fs) \<Rightarrow>
               Some (r\<lparr>r_srv := InFinish p' w' err, r_resp := ch, r_done := d, r_sent := fs\<rparr>))
      | Exited err \<Rightarrow> None)"

fun rpc_next :: "'m cloner \<Rightarrow> 'm choice \<Rightarrow> ('m, 'p) rpc \<Rightarrow> ('m, 'p) rpc option" where
  "rpc_next cl (ChServer i) r = server_next cl i r"
| "rpc_next cl (ChRead i) r =
     (case r_rsel r of
        None \<Rightarrow>
          (case nth_opt (read_cases (r_cctx r) (r_resp r)) i of
             None \<Rightarrow> None
           | Some (c, ch) \<Rightarrow>
               Some (r\<lparr>r_rsel := Some c, r_resp := ch,
                 r_got := r_got r @ (case c of Got (Some f) \<Rightarrow> [f] | _ \<Rightarrow> [])\<rparr>))
      | Some c \<Rightarrow> Some (r\<lparr>r_rsel := None, r_reads := r_reads r @ [read_result (r_cctx r) c]\<rparr>))"
| "rpc_next cl (ChSend m) r =
     (case r_send r of
        Some _ \<Rightarrow> None
      | None \<Rightarrow>
          (case client_SendMsg cl (r_cs r) m of
             (Inl err, cs) \<Rightarrow> Some (r\<lparr>r_cs := cs, r_sends := r_sends r @ [Some err]\<rparr>)
           | (Inr f, cs) \<Rightarrow> Some (r\<lparr>r_cs := cs, r_send := Some (f, None)\<rparr>)))"
| "rpc_next cl (ChSendGo i) r =
     (case r_send r of
        None \<Rightarrow> None
      | Some (f, Some w) \<Rightarrow>
          Some (r\<lparr>r_send := None, r_sends := r_sends r @ [write_result (r_cctx r) w]\<rparr>)
      | Some (f, None) \<Rightarrow>
          (case nth_opt (write_cases (r_cctx r) (r_done r) (r_req r) f) i of
             None \<Rightarrow> None
           | Some (w, ch) \<Rightarrow>
               if w = WrPanic then None
               else Some (r\<lparr>r_send := Some (f, Some w), r_req := ch,
                      r_reqs := (if w = Sent then r_reqs r @ [f] else r_reqs r)\<rparr>)))"
| "rpc_next cl ChCloseSend r =
     (case r_send r of
        Some _ \<Rightarrow> None
      | None \<Rightarrow>
          (case client_CloseSend (r_cs r) (r_req r) of
             Panic _ \<Rightarrow> None
           | Ret (cs, ch) \<Rightarrow> Some (r\<lparr>r_cs := cs, r_req := ch\<rparr>)))"
| "rpc_next cl ChCancel r = Some (r\<lparr>r_cctx := cancel_ctx (r_cctx r) CtxCanceled\<rparr>)"
| "rpc_next cl ChPropagate r =
     (case r_cctx r of None \<Rightarrow> None | Some e \<Rightarrow> Some (r\<lparr>r_sctx := cancel_ctx (r_sctx r) e\<rparr>))"
| "rpc_next cl ChPropagateDone r =
     (case r_sctx r of None \<Rightarrow> None | Some e \<Rightarrow> Some (r\<lparr>r_done := cancel_ctx (r_done r) e\<rparr>))"

fun rpc_run :: "'m cloner \<Rightarrow> 'm choice list \<Rightarrow> ('m, 'p) rpc \<Rightarrow> ('m, 'p) rpc option" where
  "rpc_run cl [] r = Some r"
| "rpc_run cl (c # cs) r = (case rpc_next cl c r of None \<Rightarrow> None | Some r' \<Rightarrow> rpc_run cl cs r')"

lemma nth_opt_set: "nth_opt xs i = Some x \<Longrightarrow> x \<in> set xs"
  by (induction xs i rule: nth_opt.induct) auto

lemma prog_next_step: "prog_next e i ps = Some ps' \<Longrightarrow> prog_step e ps ps'"
proof (induction e i ps rule: prog_next.induct)
  case (2 e i f c ch d fs)
  then obtain w ch' where "(w, ch') \<in> set (write_cases e None ch f)" "w \<noteq> WrPanic"
      "ps' = (SWrite f c, Some w, ch', d, if w = Sent then fs @ [f] else fs)"
    by (auto dest!: nth_opt_set split: option.splits if_split_asm)
  then show ?case by (metis prog_step.select)
qed (auto intro: ctx written onDone close split: go.splits)

lemma server_next_step: "server_next cl i r = Some r' \<Longrightarrow> rpc_step cl r r'"
  unfolding server_next_def
  by (auto intro: rpc_step.intros dest!: nth_opt_set prog_next_step
      split: srv_pos.splits handler.splits srv_prog.splits option.splits prod.splits)

lemma rpc_next_step: "rpc_next cl c r = Some r' \<Longrightarrow> rpc_step cl r r'"
proof (cases c)
  case (ChServer i)
  then show "rpc_next cl c r = Some r' \<Longrightarrow> rpc_step cl r r'" by (simp add: server_next_step)
next
  case (ChSendGo i)
  assume "rpc_next cl c r = Some r'"
  with ChSendGo obtain f x where f: "r_send r = Some (f, x)" by (auto split: option.splits)
  show "rpc_step cl r r'"
  proof (cases x)
    case None
    with f ChSendGo \<open>rpc_next cl c r = Some r'\<close> obtain w ch where
        "(w, ch) \<in> set (write_cases (r_cctx r) (r_done r) (r_req r) f)" "w \<noteq> WrPanic"
        "r' = r\<lparr>r_send := Some (f, Some w), r_req := ch,
           r_reqs := (if w = Sent then r_reqs r @ [f] else r_reqs r)\<rparr>"
      by (auto dest!: nth_opt_set split: option.splits if_split_asm)
    with f None show ?thesis by (auto simp only: intro: send_select)
  next
    case (Some w)
    with f ChSendGo \<open>rpc_next cl c r = Some r'\<close> show ?thesis by (auto intro: send_return)
  qed
qed (auto intro: rpc_step.intros dest!: nth_opt_set
      split: option.splits prod.splits sum.splits go.splits)

lemma rpc_run_reachable: "rpc_run cl cs r = Some r' \<Longrightarrow> rpc_reachable cl r r'"
proof (induction cs arbitrary: r)
  case Nil
  then show ?case by (simp add: rpc_reachable_def)
next
  case (Cons c cs)
  then show ?case
    by (auto simp: rpc_reachable_def split: option.splits
        intro: converse_rtranclp_into_rtranclp rpc_next_step)
qed

end
