(* ===== verification/Inproc_Safety.thy ===== *)
theory Inproc_Safety
  imports Inproc_Rpc
begin

text \<open>
  Invariants of \<open>Inproc_Rpc\<close>: no goroutine panics, the two channels are first-in first-out,
  the client never sees frames out of order, and what it sees of an RPC that is not cancelled
  is what the handler did.
\<close>

subsection \<open>Operations and the response channel\<close>

text \<open>An operation of a handler never closes the channel; \<open>finish\<close> closes it once, as its
  last action.\<close>

primrec no_close :: "('m, 'a) srv_prog \<Rightarrow> bool" where
  "no_close (SRet x) = True"
| "no_close (SCtxErr c) = (\<forall>e. no_close (c e))"
| "no_close (SWrite f c) = (\<forall>e. no_close (c e))"
| "no_close (SOnDone c) = no_close c"
| "no_close (SClose c) = False"

primrec closes_last :: "('m, 'a) srv_prog \<Rightarrow> bool" where
  "closes_last (SRet x) = False"
| "closes_last (SCtxErr c) = (\<forall>e. closes_last (c e))"
| "closes_last (SWrite f c) = (\<forall>e. closes_last (c e))"
| "closes_last (SOnDone c) = closes_last c"
| "closes_last (SClose c) = (\<exists>x. c = SRet x)"

lemma no_close_op: "no_close (op_prog cl a s)"
proof (cases a)
  case (OpSendMsg m)
  have "no_close (sbind p k)" if "no_close p" "\<forall>x. no_close (k x)"
    for p :: "('a, goerr option \<times> 'a server_stream) srv_prog" and k :: "_ \<Rightarrow> 'a op_run"
    using that by (induction p) auto
  then show ?thesis
    using OpSendMsg
    by (auto simp: server_SendMsg_def sendHeadersLocked_def Let_def
        split: option.splits sum.splits)
qed (auto simp: SetHeader_def SendHeader_def setHeader_def sendHeadersLocked_def SetTrailer_def
    TrySetTrailer_def Let_def split: option.splits)

lemma closes_last_finish: "closes_last (end_handler s err)"
  by (auto simp: end_handler_def finish_def finish_trailers_def finish_err_def finish_close_def Let_def
      split: option.splits)

lemma prog_step_no_close:
  "prog_step e (p, w, ch, d, fs) (p', w', ch', d', fs') \<Longrightarrow> no_close p \<Longrightarrow> \<not> closed ch \<Longrightarrow>
   no_close p' \<and> \<not> closed ch'"
  by (auto elim!: prog_stepE simp: write_cases_def split: if_splits)

text \<open>Only a write waits for a \<open>select\<close>.\<close>

definition sel_ok :: "'m op_run \<Rightarrow> wr_case option \<Rightarrow> bool" where
  "sel_ok p w \<longleftrightarrow> w = None \<or> (\<exists>f c. p = SWrite f c)"

lemma sel_ok_None [simp]: "sel_ok p None"
  by (simp add: sel_ok_def)

lemma prog_step_sel_ok: "prog_step e (p, w, ch, d, fs) (p', w', ch', d', fs') \<Longrightarrow> sel_ok p' w'"
  by (erule prog_stepE) (auto simp: sel_ok_def)

text \<open>A \<open>finish\<close> under way: the channel is closed exactly when nothing is left to do.\<close>

definition finishing :: "'m op_run \<Rightarrow> wr_case option \<Rightarrow> 'm frame chan \<Rightarrow> bool" where
  "finishing p w ch \<longleftrightarrow>
     (if closed ch then w = None \<and> (\<exists>x. p = SRet x) else closes_last p)"

lemma prog_step_finishing:
  "prog_step e (p, w, ch, d, fs) (p', w', ch', d', fs') \<Longrightarrow> finishing p w ch \<Longrightarrow> finishing p' w' ch'"
  by (auto elim!: prog_stepE simp: finishing_def write_cases_def close_chan_def split: if_splits)

text \<open>What is on its way is what has been sent and not yet taken.\<close>

definition fifo :: "'f list \<Rightarrow> 'f list \<Rightarrow> 'f chan \<Rightarrow> bool" where
  "fifo put taken ch \<longleftrightarrow> put = taken @ buf ch \<and> length (buf ch) \<le> chan_cap"

lemma fifo_new: "fifo [] [] new_chan"
  by (simp add: fifo_def new_chan_def)

lemma fifo_write:
  "fifo put taken ch \<Longrightarrow> (w, ch') \<in> set (write_cases e rem ch f) \<Longrightarrow>
   fifo (if w = Sent then put @ [f] else put) taken ch'"
  by (auto simp: fifo_def write_cases_def chan_cap_def split: if_splits)

lemma fifo_read:
  "fifo put taken ch \<Longrightarrow> (c, ch') \<in> set (read_cases e ch) \<Longrightarrow>
   fifo put (taken @ (case c of Got (Some f) \<Rightarrow> [f] | _ \<Rightarrow> [])) ch'"
  by (cases "buf ch") (auto simp: fifo_def read_cases_def split: if_splits)

lemma fifo_close: "fifo put taken ch \<Longrightarrow> close_chan ch = Ret ch' \<Longrightarrow> fifo put taken ch'"
  by (auto simp: fifo_def close_chan_def split: if_splits)

lemma closed_read: "(c, ch') \<in> set (read_cases e ch) \<Longrightarrow> closed ch' = closed ch"
  by (auto simp: read_cases_def split: if_splits list.splits)

lemma closed_write: "(w, ch') \<in> set (write_cases e rem ch f) \<Longrightarrow> closed ch' = closed ch"
  by (auto simp: write_cases_def split: if_splits)

lemma prog_step_fifo:
  "prog_step e (p, w, ch, d, fs) (p', w', ch', d', fs') \<Longrightarrow> fifo fs got ch \<Longrightarrow> fifo fs' got ch'"
  by (erule prog_stepE) (auto dest: fifo_write fifo_close)

text \<open>While the server's context is not done, every write succeeds, so an operation goes the way
  that \<open>quiet\<close> says. \<open>pending\<close> is what is left of it after the write that has been chosen.\<close>

fun pending :: "'m op_run \<Rightarrow> wr_case option \<Rightarrow> 'm op_run" where
  "pending (SWrite f c) (Some w) = c None"
| "pending p w = p"

lemma pending_None [simp]: "pending p None = p"
  by (cases p) simp_all

lemma prog_step_quiet:
  "prog_step None (p, w, ch, d, fs) (p', w', ch', d', fs') \<Longrightarrow> w \<in> {None, Some Sent} \<Longrightarrow>
   w' \<in> {None, Some Sent} \<and> fs' @ fst (quiet (pending p' w')) = fs @ fst (quiet (pending p w)) \<and>
   snd (quiet (pending p' w')) = snd (quiet (pending p w))"
  by (erule prog_stepE) (auto simp: write_cases_def Let_def split: if_splits prod.splits)

subsection \<open>No panic, and first-in first-out\<close>

definition chan_inv :: "('m, 'p) rpc \<Rightarrow> bool" where
  "chan_inv r \<longleftrightarrow>
     fifo (r_sent r) (r_got r) (r_resp r) \<and> fifo (r_reqs r) (r_sgot r) (r_req r) \<and>
     closed (r_req r) = cs_sendClosed (r_cs r) \<and>
     (r_send r \<noteq> None \<longrightarrow> \<not> closed (r_req r)) \<and>
     (case r_srv r of
        InOp p w k \<Rightarrow> sel_ok p w \<and> no_close p \<and> \<not> closed (r_resp r)
      | InFinish p w err \<Rightarrow> sel_ok p w \<and> finishing p w (r_resp r)
      | Exited err \<Rightarrow> closed (r_resp r)
      | _ \<Rightarrow> \<not> closed (r_resp r))"

lemma client_SendMsg_sel:
  "client_SendMsg cl s m = (Inl err, s') \<Longrightarrow> cs_sendClosed s' = cs_sendClosed s"
  "client_SendMsg cl s m = (Inr f, s') \<Longrightarrow>
     \<not> cs_sendClosed s \<and> cs_sendClosed s' = cs_sendClosed s \<and> kind f = kindData"
  by (auto simp: client_SendMsg_def cs_emit_def split: if_splits option.splits sum.splits)

lemma client_CloseSend_sel:
  "client_CloseSend s ch = Ret (s', ch') \<Longrightarrow> closed ch = cs_sendClosed s \<Longrightarrow>
     closed ch' \<and> cs_sendClosed s' \<and> buf ch' = buf ch"
  by (auto simp: client_CloseSend_def close_chan_def split: if_splits)

lemma chan_inv_step: "rpc_step cl r r' \<Longrightarrow> chan_inv r \<Longrightarrow> chan_inv r'"
proof (induction rule: rpc_step.induct)
  case (call r s a k)
  then show ?case by (auto simp: chan_inv_def no_close_op)
next
  case (op r p w k p' w' ch d fs)
  then show ?case by (auto simp: chan_inv_def dest: prog_step_no_close prog_step_fifo prog_step_sel_ok)
next
  case (fin r p w err p' w' ch d fs)
  then show ?case by (auto simp: chan_inv_def dest: prog_step_finishing prog_step_fifo prog_step_sel_ok)
next
  case (return r s err)
  then show ?case by (auto simp: chan_inv_def finishing_def closes_last_finish)
next
  case (exit r x err)
  then show ?case by (auto simp: chan_inv_def finishing_def split: if_splits)
next
  case (recv_select r s m k c ch)
  then show ?case by (auto simp: chan_inv_def dest: fifo_read closed_read)
next
  case (read_select r c ch)
  then show ?case by (auto simp: chan_inv_def finishing_def dest: fifo_read closed_read split: srv_pos.splits)
next
  case (send_select r f w ch)
  then show ?case by (auto simp: chan_inv_def dest: fifo_write closed_write split: srv_pos.splits)
next
  case (close_send r cs ch)
  then show ?case
    by (auto simp: chan_inv_def fifo_def dest: client_CloseSend_sel split: srv_pos.splits)
qed (auto simp: chan_inv_def dest: client_SendMsg_sel split: srv_pos.splits)

lemma chan_inv_start: "chan_inv (start_rpc rs co mem csh ssh h)"
  by (simp add: chan_inv_def start_rpc_def fifo_new new_client_stream_def) (simp add: new_chan_def)

lemma no_close_no_panic: "no_close p \<Longrightarrow> \<not> closed ch \<Longrightarrow> \<not> prog_panics e p w ch"
  by (cases p; cases w) (auto simp: write_cases_def split: if_splits)

lemma finishing_no_panic: "finishing p w ch \<Longrightarrow> \<not> prog_panics e p w ch"
  by (cases p; cases w) (auto simp: finishing_def write_cases_def close_chan_def split: if_splits)

lemma chan_inv_no_panic: "chan_inv r \<Longrightarrow> \<not> rpc_panics r"
  by (auto simp: chan_inv_def rpc_panics_def client_CloseSend_def close_chan_def write_cases_def
      no_close_no_panic finishing_no_panic split: srv_pos.splits option.splits if_splits)

subsection \<open>What the client reads\<close>

definition read_frames :: "'m reads \<Rightarrow> 'm frame list" where
  "read_frames rs = concat (map (case_sum (\<lambda>e. []) (\<lambda>f. [f])) rs)"

lemma read_frames_simps [simp]:
  "read_frames [] = []" "read_frames (rs @ ss) = read_frames rs @ read_frames ss"
  "read_frames [Inl e] = []" "read_frames [Inr f] = [f]"
  "read_frames (map Inr fs) = fs" "read_frames (replicate k (Inl e)) = []"
  by (simp_all add: read_frames_def comp_def)

fun chosen :: "'f rd_case option \<Rightarrow> 'f list" where
  "chosen (Some (Got (Some f))) = [f]"
| "chosen _ = []"

text \<open>Until the client's context is done: every frame taken is delivered, in order, and an end
  of stream is reported only when nothing more will come.\<close>

definition read_inv :: "('m, 'p) rpc \<Rightarrow> bool" where
  "read_inv r \<longleftrightarrow>
     r_rsel r \<noteq> Some RdDone \<and>
     (\<exists>k. \<exists>g. r_reads r = map Inr g @ replicate k (Inl EOF) \<and> r_got r = g @ chosen (r_rsel r) \<and>
        (k > 0 \<or> r_rsel r = Some (Got None) \<longrightarrow> closed (r_resp r) \<and> buf (r_resp r) = []) \<and>
        (chosen (r_rsel r) \<noteq> [] \<longrightarrow> k = 0))"

lemma write_closed: "(w, ch') \<in> set (write_cases e rem ch f) \<Longrightarrow> closed ch \<Longrightarrow> ch' = ch"
  by (auto simp: write_cases_def split: if_splits)

lemma prog_step_drained:
  "prog_step e (p, w, ch, d, fs) (p', w', ch', d', fs') \<Longrightarrow> closed ch \<Longrightarrow> ch' = ch"
  by (erule prog_stepE) (auto dest: write_closed simp: close_chan_def)

lemma rpc_step_cctx: "rpc_step cl r r' \<Longrightarrow> r_cctx r' = None \<Longrightarrow> r_cctx r = None"
  by (induction rule: rpc_step.induct) (auto simp: cancel_ctx_def split: option.splits)

lemma read_inv_step:
  "rpc_step cl r r' \<Longrightarrow> r_cctx r = None \<Longrightarrow> read_inv r \<Longrightarrow> read_inv r'"
proof (induction rule: rpc_step.induct)
  case (op r p w k p' w' ch d fs)
  then show ?case by (fastforce simp: read_inv_def dest: prog_step_drained)
next
  case (fin r p w err p' w' ch d fs)
  then show ?case by (fastforce simp: read_inv_def dest: prog_step_drained)
next
  case (read_select r c ch)
  then show ?case
    by (cases "buf (r_resp r)")
      (auto simp: read_inv_def read_cases_def split: if_splits)
next
  case (read_return r c)
  then obtain k g where kg: "r_reads r = map Inr g @ replicate k (Inl EOF)"
      "r_got r = g @ chosen (Some c)" "c \<noteq> RdDone"
      "k > 0 \<or> c = Got None \<longrightarrow> closed (r_resp r) \<and> buf (r_resp r) = []"
      "chosen (Some c) \<noteq> [] \<longrightarrow> k = 0"
    by (auto simp: read_inv_def)
  show ?case
  proof (cases c)
    case (Got x)
    show ?thesis
    proof (cases x)
      case None
      have "r_reads r @ [Inl EOF] = map Inr g @ replicate (Suc k) (Inl EOF)"
        using kg(1) by (simp add: replicate_append_same)
      with read_return kg Got None show ?thesis unfolding read_inv_def
        by (intro conjI exI [of _ "Suc k"] exI [of _ g]) simp_all
    next
      case (Some f)
      with read_return kg Got show ?thesis unfolding read_inv_def
        by (intro conjI exI [of _ 0] exI [of _ "g @ [f]"]) simp_all
    qed
  qed (use kg in simp)
qed (auto simp: read_inv_def)

lemma read_inv_start: "read_inv (start_rpc rs co mem csh ssh h)"
  by (simp add: read_inv_def start_rpc_def)

text \<open>And after that no read returns a frame.\<close>

lemma read_result_done: "\<exists>e'. read_result (Some e) c = Inl e'"
  by (cases c) auto

subsection \<open>What the server has sent\<close>

text \<open>Until the client's context is done, the stream and the frames sent represent the view of
  the calls that the handler has made.\<close>

definition sent_inv :: "'m cloner \<Rightarrow> ('m, 'p) rpc \<Rightarrow> bool" where
  "sent_inv cl r \<longleftrightarrow>
     (case r_srv r of
        AtHandler s h \<Rightarrow> r_sctx r = None \<and> stream_view s (r_sent r) (view_of cl (r_log r))
      | InOp p w k \<Rightarrow> r_sctx r = None \<and> w \<in> {None, Some Sent} \<and>
          stream_view (snd (snd (quiet (pending p w)))) (r_sent r @ fst (quiet (pending p w)))
            (view_of cl (r_log r))
      | InRecv s m c k \<Rightarrow> r_sctx r = None \<and> stream_view s (r_sent r) (view_of cl (r_log r))
      | InFinish p w err \<Rightarrow> r_sctx r = None \<and> w \<in> {None, Some Sent} \<and>
          r_sent r @ fst (quiet (pending p w)) = frames_of_view (view_of cl (r_log r)) err
      | Exited err \<Rightarrow> r_sent r = frames_of_view (view_of cl (r_log r)) err)"

lemma view_of_snoc: "view_of cl (ops @ [a]) = view_op cl (view_of cl ops) a"
  by (simp add: view_of_def)

lemma stream_view_finish:
  "stream_view s fs v \<Longrightarrow> fs @ fst (quiet (end_handler s err)) = frames_of_view v err"
  by (cases "ss_state s") (auto simp: stream_view_def quiet_end_handler quiet_finish frames_of_view_def)

lemma stream_view_RecvMsg:
  "stream_view s fs v \<Longrightarrow> server_RecvMsg cl s m rr = (res, s') \<Longrightarrow> stream_view s' fs v"
  by (auto simp: server_RecvMsg_def stream_view_def split: sum.splits option.splits streamState.splits)

lemma sent_inv_step:
  "rpc_step cl r r' \<Longrightarrow> r_cctx r' = None \<Longrightarrow> sent_inv cl r \<Longrightarrow> sent_inv cl r'"
proof (induction rule: rpc_step.induct)
  case (call r s a k)
  then show ?case
    using stream_view_op [of s "r_sent r" "view_of cl (r_log r)" cl a]
    by (cases "quiet (op_prog cl a s)") (auto simp: sent_inv_def view_of_snoc)
next
  case (op r p w k p' w' ch d fs)
  then show ?case by (auto simp: sent_inv_def dest!: prog_step_quiet)
next
  case (recv_return r s m c k res s')
  then show ?case by (auto simp: sent_inv_def dest: stream_view_RecvMsg)
next
  case (return r s err)
  then show ?case by (auto simp: sent_inv_def stream_view_finish)
next
  case (fin r p w err p' w' ch d fs)
  then show ?case by (auto simp: sent_inv_def dest!: prog_step_quiet)
qed (auto simp: sent_inv_def cancel_ctx_def split: srv_pos.splits option.splits)

lemma sent_inv_start: "sent_inv cl (start_rpc rs co mem csh ssh h)"
  by (simp add: sent_inv_def start_rpc_def view_of_def stream_view_new)

lemma stream_view_protocol: "stream_view s fs v \<Longrightarrow> frame_protocol fs"
  using frames_of_view_protocol [of "v\<lparr>v_trailers := []\<rparr>" None]
  by (cases "ss_state s")
    (auto simp: stream_view_def frames_of_view_def trailers_part_def err_part_def)

lemma sent_inv_protocol: "sent_inv cl r \<Longrightarrow> frame_protocol (r_sent r)"
  by (auto simp: sent_inv_def frames_of_view_protocol dest: stream_view_protocol frame_protocol_prefix
      split: srv_pos.splits)
    (metis frame_protocol_prefix frames_of_view_protocol)+

subsection \<open>All together\<close>

definition rpc_inv :: "'m cloner \<Rightarrow> ('m, 'p) rpc \<Rightarrow> bool" where
  "rpc_inv cl r \<longleftrightarrow>
     chan_inv r \<and> (r_cctx r = None \<longrightarrow> read_inv r \<and> sent_inv cl r) \<and>
     frame_protocol (read_frames (r_reads r)) \<and> prefix (read_frames (r_reads r)) (r_got r)"

lemma read_inv_frames:
  "read_inv r \<Longrightarrow> r_got r = read_frames (r_reads r) @ chosen (r_rsel r)"
  by (auto simp: read_inv_def)

lemma rpc_inv_start: "rpc_inv cl (start_rpc rs co mem csh ssh h)"
  by (simp add: rpc_inv_def chan_inv_start read_inv_start sent_inv_start) (simp add: start_rpc_def)

lemma rpc_step_reads:
  "rpc_step cl r r' \<Longrightarrow> r_cctx r = Some e \<Longrightarrow>
   read_frames (r_reads r') = read_frames (r_reads r) \<and> prefix (r_got r) (r_got r')"
proof (induction rule: rpc_step.induct)
  case (read_return r c)
  then show ?case using read_result_done [of e c] by auto
qed auto

lemma rpc_step_cancel_only:
  "rpc_step cl r r' \<Longrightarrow> r_cctx r = None \<Longrightarrow> r_cctx r' \<noteq> None \<Longrightarrow>
   r_reads r' = r_reads r \<and> r_got r' = r_got r"
  by (induction rule: rpc_step.induct) auto

lemma prefix_of_app: "prefix xs (xs @ ys)"
  by (simp add: prefix_def)

lemma rpc_inv_step: "rpc_step cl r r' \<Longrightarrow> rpc_inv cl r \<Longrightarrow> rpc_inv cl r'"
proof -
  assume step: "rpc_step cl r r'" and inv: "rpc_inv cl r"
  have chan: "chan_inv r'" using chan_inv_step [OF step] inv by (simp add: rpc_inv_def)
  show "rpc_inv cl r'"
  proof (cases "r_cctx r'")
    case None
    with step have old: "r_cctx r = None" by (rule rpc_step_cctx)
    with inv have "read_inv r'" "sent_inv cl r'"
      using read_inv_step [OF step] sent_inv_step [OF step None] by (simp_all add: rpc_inv_def)
    moreover from this(2) have "frame_protocol (r_sent r')" by (rule sent_inv_protocol)
    with chan \<open>read_inv r'\<close> have "frame_protocol (read_frames (r_reads r'))"
      by (auto simp: chan_inv_def fifo_def read_inv_frames intro: frame_protocol_prefix)
    ultimately show ?thesis
      using chan by (simp add: rpc_inv_def read_inv_frames [of r'] prefix_of_app)
  next
    case (Some e')
    show ?thesis
    proof (cases "r_cctx r")
      case None
      with Some step inv chan rpc_step_cancel_only [OF step] show ?thesis
        by (simp add: rpc_inv_def)
    next
      case old: (Some e)
      with Some inv chan rpc_step_reads [OF step old] show ?thesis
        by (auto simp: rpc_inv_def intro: prefix_order.trans)
    qed
  qed
qed

lemma rpc_inv_reachable: "rpc_reachable cl (start_rpc rs co mem csh ssh h) r \<Longrightarrow> rpc_inv cl r"
proof -
  have "(rpc_step cl)\<^sup>*\<^sup>* r0 r \<Longrightarrow> rpc_inv cl r0 \<Longrightarrow> rpc_inv cl r" for r0 r :: "('a, 'b) rpc"
    by (induction rule: rtranclp_induct) (auto intro: rpc_inv_step)
  then show "rpc_reachable cl (start_rpc rs co mem csh ssh h) r \<Longrightarrow> rpc_inv cl r"
    by (simp add: rpc_reachable_def rpc_inv_start)
qed

text \<open>At the end of an RPC that has not been cancelled the client has read the frames of the
  handler's calls.\<close>

lemma read_all:
  assumes "rpc_inv cl r" and "r_cctx r = None" and "Inl EOF \<in> set (r_reads r)"
  shows "\<exists>err k. (r_srv r = Exited err \<or> (\<exists>p w. r_srv r = InFinish p w err)) \<and>
    r_reads r = map Inr (frames_of_view (view_of cl (r_log r)) err) @ replicate (Suc k) (Inl EOF)"
proof -
  from assms have inv: "chan_inv r" "read_inv r" "sent_inv cl r" by (simp_all add: rpc_inv_def)
  from inv(2) obtain k g where kg: "r_reads r = map Inr g @ replicate k (Inl EOF)"
      "r_got r = g @ chosen (r_rsel r)"
      "k > 0 \<longrightarrow> closed (r_resp r) \<and> buf (r_resp r) = []" "chosen (r_rsel r) \<noteq> [] \<longrightarrow> k = 0"
    by (auto simp: read_inv_def)
  from assms(3) kg(1) have "k > 0" by (cases k) auto
  with kg have closed: "closed (r_resp r)" and g: "g = r_sent r"
    using inv(1) by (auto simp: chan_inv_def fifo_def)
  from closed inv(1) obtain err where err: "(r_srv r = Exited err \<or> (\<exists>x. r_srv r = InFinish (SRet x) None err))"
    by (auto simp: chan_inv_def finishing_def split: srv_pos.splits)
  with inv(3) have "r_sent r = frames_of_view (view_of cl (r_log r)) err"
    by (auto simp: sent_inv_def)
  with \<open>k > 0\<close> kg(1) g err show ?thesis by (cases k) auto
qed

subsection \<open>The handler's calls, read directly\<close>

text \<open>How often the client has found the channel closed and drained.\<close>

definition eof_count :: "'m reads \<Rightarrow> nat" where
  "eof_count rs = length (filter (\<lambda>x. case x of Inl e \<Rightarrow> e = EOF | Inr _ \<Rightarrow> False) rs)"

lemma foldl_view_headers:
  "v_headers (foldl (view_op cl) v ops) =
     (if v_flushed v then v_headers v else foldl mjoin (v_headers v) (header_mds ops))"
proof (induction ops arbitrary: v)
  case (Cons a ops)
  then show ?case by (cases a) (auto simp: Let_def split: option.splits sum.splits)
qed simp

lemma foldl_view_trailers:
  "v_trailers (foldl (view_op cl) v ops) = foldl mjoin (v_trailers v) (trailer_mds ops)"
  by (induction ops arbitrary: v rule: trailer_mds.induct)
    (auto simp: Let_def split: option.splits sum.splits)

lemma view_of_metadata:
  "v_headers (view_of cl ops) = md_joined (header_mds ops)"
  "v_trailers (view_of cl ops) = md_joined (trailer_mds ops)"
  by (simp_all add: view_of_def foldl_view_headers foldl_view_trailers md_joined_def empty_view_def)

context faithful_cloner
begin

lemma foldl_view_msgs:
  "set (sent_msgs ops) \<subseteq> A \<Longrightarrow> v_msgs (foldl (view_op cl) v ops) = v_msgs v @ sent_msgs ops"
  by (induction ops arbitrary: v rule: sent_msgs.induct) (auto simp: Let_def clone_ok)

lemma view_of_msgs: "set (sent_msgs ops) \<subseteq> A \<Longrightarrow> v_msgs (view_of cl ops) = sent_msgs ops"
  by (simp add: view_of_def foldl_view_msgs empty_view_def)

text \<open>The client's calls on what a complete RPC lets it read.\<close>

lemma rpc_delivers:
  fixes r :: "('m, 'p) rpc"
  assumes "rpc_reachable cl (start_rpc True co mem csh ssh h) r"
    and "r_cctx r = None" and "Inl EOF \<in> set (r_reads r)"
    and "m \<in> A" and "set (sent_msgs (r_log r)) \<subseteq> A"
  shows "\<exists>err s'.
    (r_srv r = Exited err \<or> (\<exists>p w. r_srv r = InFinish p w err)) \<and>
    recv_calls cl zero m (length (sent_msgs (r_log r)) + eof_count (r_reads r))
        (new_client_stream True co mem csh) (r_reads r) =
      (map Inr (sent_msgs (r_log r)) @
         replicate (eof_count (r_reads r)) (Inl (case err of None \<Rightarrow> EOF | Some e \<Rightarrow> TranslateContextError e)), s') \<and>
    (let hs = md_joined (header_mds (r_log r)); ts = md_joined (trailer_mds (r_log r)) in
       cs_headers s' = (if hs = [] then None else Some hs) \<and>
       client_Trailer s' = (if ts = [] then None else Some ts) \<and>
       cs_mem s' = (if ts = [] then id else SetTrailers co ts)
          ((if hs = [] then id else SetHeaders co hs) mem))"
proof -
  let ?v = "view_of cl (r_log r)"
  let ?s = "new_client_stream True co mem csh :: ('m, 'p) client_stream"
  have s: "cs_last ?s = None" "cs_responseStream ?s" by (simp_all add: new_client_stream_def)
  from read_all [OF rpc_inv_reachable [OF assms(1)] assms(2,3)] obtain err k where
    err: "r_srv r = Exited err \<or> (\<exists>p w. r_srv r = InFinish p w err)" and
    reads: "r_reads r = map Inr (frames_of_view ?v err) @ replicate (Suc k) (Inl EOF)" by blast
  have count: "eof_count (r_reads r) = Suc k" by (simp add: reads eof_count_def)
  have msgs: "v_msgs ?v = sent_msgs (r_log r)" using assms(5) by (rule view_of_msgs)
  have "set (v_msgs ?v) \<subseteq> A" unfolding msgs by (rule assms(5))
  from recv_calls_view [OF s assms(4) this, where zero = zero and n = k and err = err,
      folded reads, unfolded msgs] obtain s' where s':
    "recv_calls cl zero m (length (sent_msgs (r_log r)) + Suc k) ?s (r_reads r) =
      (map Inr (sent_msgs (r_log r)) @
         replicate (Suc k) (Inl (case err of None \<Rightarrow> EOF | Some e \<Rightarrow> TranslateContextError e)), s')"
    "cs_headers s' = (if v_headers ?v = [] then cs_headers ?s else Some (v_headers ?v))"
    "cs_trailers s' = (if v_trailers ?v = [] then cs_trailers ?s else Some (v_trailers ?v))"
    "cs_mem s' = (if v_trailers ?v = [] then id else SetTrailers (cs_copts ?s) (v_trailers ?v))
          ((if v_headers ?v = [] then id else SetHeaders (cs_copts ?s) (v_headers ?v)) (cs_mem ?s))"
    by (elim exE conjE)
  have new: "cs_headers ?s = None" "cs_trailers ?s = None" "cs_copts ?s = co" "cs_mem ?s = mem"
    by (simp_all add: new_client_stream_def)
  show ?thesis
    unfolding Let_def client_Trailer_def count
    by (rule exI [of _ err], rule exI [of _ s'])
      (simp only: s' [unfolded view_of_metadata new] err simp_thms)
qed

end

end
