(* ===== verification/Inproc_Liveness.thy ===== *)
theory Inproc_Liveness
  imports Inproc_Safety
begin

text \<open>
  A streaming RPC of the in-process channel does not deadlock. From every reachable state the
  server goroutine can be brought to its end by steps of its own and by the client's reading
  and closing its side, with no need of a cancellation; and once \<open>finish\<close> has called
  \<open>onDone\<close>, a client that is blocked in \<open>SendMsg\<close> can always return.
\<close>

abbreviation rpc_steps :: "'m cloner \<Rightarrow> ('m, 'p) rpc \<Rightarrow> ('m, 'p) rpc \<Rightarrow> bool" where
  "rpc_steps cl \<equiv> (rpc_step cl)\<^sup>*\<^sup>*"

lemma chan_inv_steps: "rpc_steps cl r r' \<Longrightarrow> chan_inv r \<Longrightarrow> chan_inv r'"
  by (induction rule: rtranclp_induct) (auto intro: chan_inv_step)

text \<open>From \<open>r\<close> the system can get to a state where \<open>P\<close> holds.\<close>

definition can_reach :: "'m cloner \<Rightarrow> ('m, 'p) rpc \<Rightarrow> (('m, 'p) rpc \<Rightarrow> bool) \<Rightarrow> bool" where
  "can_reach cl r P \<longleftrightarrow> (\<exists>r'. rpc_steps cl r r' \<and> P r')"

lemma can_now: "P r \<Longrightarrow> can_reach cl r P"
  unfolding can_reach_def by blast

lemma can_step: "rpc_step cl r r' \<Longrightarrow> can_reach cl r' P \<Longrightarrow> can_reach cl r P"
  unfolding can_reach_def by (meson converse_rtranclp_into_rtranclp)

lemma can_trans:
  "can_reach cl r Q \<Longrightarrow> (\<And>r'. rpc_steps cl r r' \<Longrightarrow> Q r' \<Longrightarrow> can_reach cl r' P) \<Longrightarrow> can_reach cl r P"
  unfolding can_reach_def by (meson rtranclp_trans)

text \<open>The client can finish a read under way, and take what is in the channel.\<close>

lemma settle_read:
  "can_reach cl r (\<lambda>r'. r_rsel r' = None \<and> r_srv r' = r_srv r \<and> r_cctx r' = r_cctx r \<and>
     r_resp r' = r_resp r)"
proof (cases "r_rsel r")
  case None
  then show ?thesis by (intro can_now) simp
next
  case (Some c)
  show ?thesis by (rule can_step [OF read_return [OF Some]], rule can_now) simp
qed

lemma drain:
  fixes r :: "('m, 'p) rpc"
  assumes "chan_inv r"
  shows "can_reach cl r (\<lambda>r'. buf (r_resp r') = [] \<and> r_srv r' = r_srv r \<and> r_cctx r' = r_cctx r)"
proof (rule can_trans [OF settle_read])
  fix r1 :: "('m, 'p) rpc" assume r1: "r_rsel r1 = None \<and> r_srv r1 = r_srv r \<and> r_cctx r1 = r_cctx r \<and> r_resp r1 = r_resp r"
  show "can_reach cl r1 (\<lambda>r'. buf (r_resp r') = [] \<and> r_srv r' = r_srv r \<and> r_cctx r' = r_cctx r)"
  proof (cases "buf (r_resp r1)")
    case Nil
    with r1 show ?thesis by (intro can_now) simp
  next
    case (Cons f fs)
    with assms r1 have fs: "fs = []" by (auto simp: chan_inv_def fifo_def chan_cap_def)
    from Cons have "(Got (Some f), r_resp r1\<lparr>buf := fs\<rparr>) \<in> set (read_cases (r_cctx r1) (r_resp r1))"
      by (simp add: read_cases_def)
    from can_step [OF read_select [OF conjunct1 [OF r1] this]] show ?thesis
      by this (rule can_now, use r1 fs in simp)
  qed
qed

text \<open>A running operation can be brought to its end. \<open>at\<close> is the position of the server
  goroutine that runs it.\<close>

lemma run_prog:
  fixes r :: "('m, 'p) rpc"
  assumes step: "\<And>(r :: ('m, 'p) rpc) p w p' w' ch d fs. r_srv r = at p w \<Longrightarrow>
      prog_step (r_sctx r) (p, w, r_resp r, r_done r, r_sent r) (p', w', ch, d, fs) \<Longrightarrow>
      rpc_step cl r (r\<lparr>r_srv := at p' w', r_resp := ch, r_done := d, r_sent := fs\<rparr>)"
    and ok: "\<And>(r :: ('m, 'p) rpc) p w. chan_inv r \<Longrightarrow> r_srv r = at p w \<Longrightarrow>
      sel_ok p w \<and> \<not> prog_panics (r_sctx r) p w (r_resp r)"
  shows "chan_inv r \<Longrightarrow> r_srv r = at p w \<Longrightarrow> r_cctx r = cc \<Longrightarrow>
    can_reach cl r (\<lambda>r'. (\<exists>x. r_srv r' = at (SRet x) None) \<and> r_cctx r' = cc)"
proof (induction p arbitrary: r w)
  case (SRet x)
  with ok [of r "SRet x" w] have "r_srv r = at (SRet x) None" by (auto simp: sel_ok_def)
  with SRet.prems(3) show ?case by (intro can_now) blast
next
  case (SCtxErr c)
  with ok have w: "w = None" by (fastforce simp: sel_ok_def)
  note st = step [OF SCtxErr.prems(2) [unfolded w] ctx]
  show ?case
    by (rule can_step [OF st], rule SCtxErr.IH [OF rangeI chan_inv_step [OF st SCtxErr.prems(1)]])
      (simp_all add: SCtxErr.prems(3))
next
  case (SWrite f c)
  have wr: "can_reach cl r (\<lambda>r'. (\<exists>x. r_srv r' = at (SRet x) None) \<and> r_cctx r' = cc)"
    if "chan_inv r" "r_srv r = at (SWrite f c) (Some w)" "r_cctx r = cc" for r :: "('m, 'p) rpc" and w
  proof -
    note st = step [OF that(2) written]
    show ?thesis
      by (rule can_step [OF st], rule SWrite.IH [OF rangeI chan_inv_step [OF st that(1)]])
        (simp_all add: that(3))
  qed
  show ?case
  proof (cases w)
    case (Some w')
    with wr SWrite.prems show ?thesis by blast
  next
    case None
    show ?thesis
    proof (rule can_trans [OF drain [OF SWrite.prems(1)]])
      fix r1 :: "('m, 'p) rpc" assume steps: "rpc_steps cl r r1"
        and r1: "buf (r_resp r1) = [] \<and> r_srv r1 = r_srv r \<and> r_cctx r1 = r_cctx r"
      have inv1: "chan_inv r1" using chan_inv_steps [OF steps SWrite.prems(1)] .
      have at1: "r_srv r1 = at (SWrite f c) None" using r1 SWrite.prems(2) None by simp
      from ok [OF inv1 at1] have "\<not> closed (r_resp r1)" by (auto simp: write_cases_def)
      with r1 have "(Sent, r_resp r1\<lparr>buf := [f]\<rparr>) \<in> set (write_cases (r_sctx r1) None (r_resp r1) f)"
        by (simp add: write_cases_def chan_cap_def)
      note st = step [OF at1 prog_step.select [OF this]]
      show "can_reach cl r1 (\<lambda>r'. (\<exists>x. r_srv r' = at (SRet x) None) \<and> r_cctx r' = cc)"
        by (rule can_step [OF st], simp, rule wr [OF chan_inv_step [OF st inv1]])
          (simp_all add: r1 SWrite.prems(3))
    qed
  qed
next
  case (SOnDone c)
  with ok have w: "w = None" by (fastforce simp: sel_ok_def)
  note st = step [OF SOnDone.prems(2) [unfolded w] onDone]
  show ?case
    by (rule can_step [OF st], rule SOnDone.IH [OF chan_inv_step [OF st SOnDone.prems(1)]])
      (simp_all add: SOnDone.prems(3))
next
  case (SClose c)
  with ok have w: "w = None" by (fastforce simp: sel_ok_def)
  with ok [OF SClose.prems(1,2)] obtain ch where "close_chan (r_resp r) = Ret ch"
    by (cases "close_chan (r_resp r)") auto
  note st = step [OF SClose.prems(2) [unfolded w] prog_step.close [OF this]]
  show ?case
    by (rule can_step [OF st], rule SClose.IH [OF chan_inv_step [OF st SClose.prems(1)]])
      (simp_all add: SClose.prems(3))
qed

text \<open>A handler that waits for a request gets one, or the end of the requests, if the client
  finishes what it is sending and closes its side.\<close>

lemma feed_open:
  assumes "r_srv r = InRecv s m None k" and "r_cctx r = cc" and "buf (r_req r) \<noteq> [] \<or> closed (r_req r)"
  shows "can_reach cl r (\<lambda>r'. (\<exists>c. r_srv r' = InRecv s m (Some c) k) \<and> r_cctx r' = cc)"
proof -
  obtain c ch where "(c, ch) \<in> set (read_cases (r_sctx r) (r_req r))"
    using assms(3) by (cases "buf (r_req r)") (auto simp: read_cases_def)
  from can_step [OF recv_select [OF assms(1) this]] show ?thesis
    by this (rule can_now, use assms in simp)
qed

lemma feed_idle:
  assumes "chan_inv r" and "r_srv r = InRecv s m None k" and "r_cctx r = cc" and "r_send r = None"
  shows "can_reach cl r (\<lambda>r'. (\<exists>c. r_srv r' = InRecv s m (Some c) k) \<and> r_cctx r' = cc)"
proof (cases "closed (r_req r)")
  case True
  with assms show ?thesis by (intro feed_open) simp_all
next
  case False
  with assms(1) obtain cs ch where cs: "client_CloseSend (r_cs r) (r_req r) = Ret (cs, ch)"
    and ch: "closed ch"
    by (auto simp: chan_inv_def client_CloseSend_def close_chan_def)
  show ?thesis
    by (rule can_step [OF close_send [OF assms(4) cs]], rule feed_open)
      (use assms ch in simp_all)
qed

lemma feed:
  assumes "chan_inv r" and "r_srv r = InRecv s m None k" and "r_cctx r = cc"
  shows "can_reach cl r (\<lambda>r'. (\<exists>c. r_srv r' = InRecv s m (Some c) k) \<and> r_cctx r' = cc)"
proof (cases "buf (r_req r) \<noteq> [] \<or> closed (r_req r)")
  case True
  with assms show ?thesis by (intro feed_open)
next
  case empty: False
  consider "r_send r = None" | f w where "r_send r = Some (f, Some w)" | f where "r_send r = Some (f, None)"
    by (metis option.exhaust surj_pair)
  then show ?thesis
  proof cases
    case 1
    with assms show ?thesis by (intro feed_idle)
  next
    case (2 f w)
    note st = send_return [OF 2]
    show ?thesis
      by (rule can_step [OF st], rule feed_idle [OF chan_inv_step [OF st assms(1)]])
        (use assms in simp_all)
  next
    case (3 f)
    have "(Sent, r_req r\<lparr>buf := [f]\<rparr>) \<in> set (write_cases (r_cctx r) (r_done r) (r_req r) f)"
      using empty by (simp add: write_cases_def chan_cap_def)
    note st = send_select [OF 3 this]
    show ?thesis
      by (rule can_step [OF st], simp, rule feed_open) (use assms in simp_all)
  qed
qed

subsection \<open>Every RPC can complete\<close>

abbreviation exited :: "goerr option \<Rightarrow> ('m, 'p) rpc \<Rightarrow> bool" where
  "exited cc r \<equiv> (\<exists>err. r_srv r = Exited err) \<and> r_cctx r = cc"

lemma exit_finish:
  assumes "chan_inv r" and "r_srv r = InFinish p w err" and "r_cctx r = cc"
  shows "can_reach cl r (exited cc)"
proof (rule can_trans)
  show "can_reach cl r (\<lambda>r'. (\<exists>x. r_srv r' = InFinish (SRet x) None err) \<and> r_cctx r' = cc)"
    by (rule run_prog [where at = "\<lambda>p w. InFinish p w err", OF fin _ assms])
      (auto simp: chan_inv_def finishing_no_panic)
  show "can_reach cl r1 (exited cc)"
    if "(\<exists>x. r_srv r1 = InFinish (SRet x) None err) \<and> r_cctx r1 = cc" for r1 :: "('a, 'b) rpc"
  proof -
    from that obtain x where "r_srv r1 = InFinish (SRet x) None err" by blast
    then show ?thesis by (rule can_step [OF rpc_step.exit]) (rule can_now, simp add: that)
  qed
qed

lemma exit_op:
  fixes r :: "('m, 'p) rpc"
  assumes IH: "\<And>(r' :: ('m, 'p) rpc) s res. chan_inv r' \<Longrightarrow> r_srv r' = AtHandler s (k res) \<Longrightarrow> r_cctx r' = cc \<Longrightarrow>
      can_reach cl r' (exited cc)"
    and r: "chan_inv r" "r_srv r = InOp p w k" "r_cctx r = cc"
  shows "can_reach cl r (exited cc)"
proof (rule can_trans)
  show "can_reach cl r (\<lambda>r'. (\<exists>x. r_srv r' = InOp (SRet x) None k) \<and> r_cctx r' = cc)"
    by (rule run_prog [where at = "\<lambda>p w. InOp p w k", OF op _ r])
      (auto simp: chan_inv_def no_close_no_panic)
  show "can_reach cl r1 (exited cc)"
    if "rpc_steps cl r r1" "(\<exists>x. r_srv r1 = InOp (SRet x) None k) \<and> r_cctx r1 = cc" for r1 :: "('m, 'p) rpc"
  proof -
    from that obtain res s where "r_srv r1 = InOp (SRet (res, s)) None k" by auto
    note st = op_return [OF this]
    show ?thesis
      by (rule can_step [OF st], rule IH [OF chan_inv_step [OF st chan_inv_steps [OF that(1) r(1)]]])
        (use that in simp_all)
  qed
qed

lemma exit_recv:
  fixes r :: "('m, 'p) rpc"
  assumes IH: "\<And>(r' :: ('m, 'p) rpc) s res. chan_inv r' \<Longrightarrow> r_srv r' = AtHandler s (k res) \<Longrightarrow> r_cctx r' = cc \<Longrightarrow>
      can_reach cl r' (exited cc)"
    and r: "chan_inv r" "r_srv r = InRecv s m c k" "r_cctx r = cc"
  shows "can_reach cl r (exited cc)"
proof (rule can_trans)
  show "can_reach cl r (\<lambda>r'. (\<exists>c. r_srv r' = InRecv s m (Some c) k) \<and> r_cctx r' = cc)"
  proof (cases c)
    case None
    with r show ?thesis by (intro feed) simp_all
  next
    case (Some c')
    with r show ?thesis by (intro can_now) simp
  qed
  show "can_reach cl r1 (exited cc)"
    if "rpc_steps cl r r1" "(\<exists>c. r_srv r1 = InRecv s m (Some c) k) \<and> r_cctx r1 = cc" for r1 :: "('m, 'p) rpc"
  proof -
    from that obtain c where at: "r_srv r1 = InRecv s m (Some c) k" by blast
    obtain res s' where "server_RecvMsg cl s m (read_result (r_sctx r1) c) = (res, s')"
      by (cases "server_RecvMsg cl s m (read_result (r_sctx r1) c)")
    note st = recv_return [OF at this]
    show ?thesis
      by (rule can_step [OF st], rule IH [OF chan_inv_step [OF st chan_inv_steps [OF that(1) r(1)]]])
        (use that in simp_all)
  qed
qed

lemma exit_handler:
  "chan_inv r \<Longrightarrow> r_srv r = AtHandler s h \<Longrightarrow> r_cctx r = cc \<Longrightarrow> can_reach cl r (exited cc)"
proof (induction h arbitrary: r s)
  case (HReturn err)
  note st = return [OF HReturn.prems(2)]
  show ?case
    by (rule can_step [OF st], rule exit_finish [OF chan_inv_step [OF st HReturn.prems(1)]])
      (simp_all add: HReturn.prems(3))
next
  case (HCall a k)
  note st = call [OF HCall.prems(2)]
  show ?case
    by (rule can_step [OF st], rule exit_op [OF HCall.IH [OF rangeI] chan_inv_step [OF st HCall.prems(1)]])
      (simp_all add: HCall.prems(3))
next
  case (HRecv m k)
  note st = recv [OF HRecv.prems(2)]
  show ?case
    by (rule can_step [OF st], rule exit_recv [OF HRecv.IH [OF rangeI] chan_inv_step [OF st HRecv.prems(1)]])
      (simp_all add: HRecv.prems(3))
qed

lemma exit_always: "chan_inv r \<Longrightarrow> can_reach cl r (exited (r_cctx r))"
proof (cases "r_srv r")
  case (Exited err)
  then show ?thesis by (intro can_now) simp
qed (auto intro: exit_handler exit_op exit_recv exit_finish)

text \<open>And then the client can read to the end.\<close>

lemma read_EOF:
  assumes "chan_inv r" and "r_srv r = Exited err" and "r_cctx r = None"
  shows "can_reach cl r (\<lambda>r'. r_srv r' = Exited err \<and> r_cctx r' = None \<and> Inl EOF \<in> set (r_reads r'))"
proof (rule can_trans [OF drain [OF assms(1)]])
  let ?P = "\<lambda>r'. r_srv r' = Exited err \<and> r_cctx r' = None \<and> Inl EOF \<in> set (r_reads r')"
  fix r1 :: "('a, 'b) rpc"
  assume steps: "rpc_steps cl r r1"
    and r1: "buf (r_resp r1) = [] \<and> r_srv r1 = r_srv r \<and> r_cctx r1 = r_cctx r"
  show "can_reach cl r1 ?P"
  proof (rule can_trans [OF settle_read])
    fix r2 :: "('a, 'b) rpc"
    assume steps2: "rpc_steps cl r1 r2" and r2: "r_rsel r2 = None \<and> r_srv r2 = r_srv r1 \<and>
      r_cctx r2 = r_cctx r1 \<and> r_resp r2 = r_resp r1"
    have "chan_inv r2"
      using chan_inv_steps [OF steps2 chan_inv_steps [OF steps assms(1)]] .
    with r1 r2 assms(2) have "closed (r_resp r2)" by (simp add: chan_inv_def)
    with r1 r2 have "(Got None, r_resp r2) \<in> set (read_cases (r_cctx r2) (r_resp r2))"
      by (simp add: read_cases_def)
    note st = read_select [OF conjunct1 [OF r2] this]
    show "can_reach cl r2 ?P"
      by (rule can_step [OF st], rule can_step [OF read_return], simp, rule can_now)
        (use r1 r2 assms(2,3) in simp)
  qed
qed

lemma completes:
  assumes "chan_inv r" and "r_cctx r = None"
  shows "can_reach cl r (\<lambda>r'. (\<exists>err. r_srv r' = Exited err) \<and> r_cctx r' = None \<and> Inl EOF \<in> set (r_reads r'))"
proof (rule can_trans [OF exit_always [OF assms(1)]])
  fix r1 :: "('a, 'b) rpc" assume steps: "rpc_steps cl r r1" and ex: "exited (r_cctx r) r1"
  from ex obtain err where err: "r_srv r1 = Exited err" by blast
  show "can_reach cl r1
      (\<lambda>r'. (\<exists>err. r_srv r' = Exited err) \<and> r_cctx r' = None \<and> Inl EOF \<in> set (r_reads r'))"
    by (rule can_trans [OF read_EOF [OF chan_inv_steps [OF steps assms(1)] err]])
      (use ex assms(2) in \<open>auto intro: can_now\<close>)
qed

subsection \<open>Senders do not get stuck\<close>

text \<open>\<open>onDone\<close> is the first action of \<open>finish\<close>.\<close>

definition done_inv :: "('m, 'p) rpc \<Rightarrow> bool" where
  "done_inv r \<longleftrightarrow>
     (case r_srv r of
        InFinish p w err \<Rightarrow> r_done r \<noteq> None \<or> (w = None \<and> (\<exists>c. p = SOnDone c))
      | Exited err \<Rightarrow> r_done r \<noteq> None
      | _ \<Rightarrow> True)"

lemma prog_step_done:
  "prog_step e (p, w, ch, d, fs) (p', w', ch', d', fs') \<Longrightarrow>
   (d \<noteq> None \<or> (\<exists>c. p = SOnDone c)) \<Longrightarrow> d' \<noteq> None"
  by (erule prog_stepE) (auto simp: cancel_ctx_def split: option.splits)

lemma done_inv_step: "rpc_step cl r r' \<Longrightarrow> done_inv r \<Longrightarrow> done_inv r'"
proof (induction rule: rpc_step.induct)
  case (return r s err)
  then show ?case by (simp add: done_inv_def end_handler_def finish_def)
next
  case (fin r p w err p' w' ch d fs)
  then show ?case by (auto simp: done_inv_def dest: prog_step_done)
next
  case (propagate_done r e)
  then show ?case by (auto simp: done_inv_def cancel_ctx_def split: srv_pos.splits option.splits)
qed (simp_all add: done_inv_def split: srv_pos.splits)

lemma done_inv_reachable: "rpc_reachable cl (start_rpc rs co mem csh ssh h) r \<Longrightarrow> done_inv r"
proof -
  have "rpc_steps cl r0 r \<Longrightarrow> done_inv r0 \<Longrightarrow> done_inv r" for r0 r :: "('a, 'b) rpc"
    by (induction rule: rtranclp_induct) (auto intro: done_inv_step)
  then show "rpc_reachable cl (start_rpc rs co mem csh ssh h) r \<Longrightarrow> done_inv r"
    by (simp add: rpc_reachable_def done_inv_def start_rpc_def)
qed

lemma send_can_return:
  assumes "r_done r \<noteq> None" and "r_send r = Some (f, w)"
  shows "can_reach cl r (\<lambda>r'. r_send r' = None \<and> r_srv r' = r_srv r \<and> r_cctx r' = r_cctx r \<and>
    (\<exists>res. r_sends r' = r_sends r @ [res]))"
proof -
  have ret: "can_reach cl r1 (\<lambda>r'. r_send r' = None \<and> r_srv r' = r_srv r \<and> r_cctx r' = r_cctx r \<and>
      (\<exists>res. r_sends r' = r_sends r @ [res]))"
    if "r_send r1 = Some (f, Some w)" "r_sends r1 = r_sends r" "r_srv r1 = r_srv r" "r_cctx r1 = r_cctx r"
    for r1 w
    by (rule can_step [OF send_return [OF that(1)]], rule can_now) (simp add: that)
  show ?thesis
  proof (cases w)
    case (Some w')
    with assms(2) show ?thesis by (intro ret) simp_all
  next
    case None
    have "(WrRemote, r_req r) \<in> set (write_cases (r_cctx r) (r_done r) (r_req r) f)"
      using assms(1) by (simp add: write_cases_def)
    note st = send_select [OF assms(2) [unfolded None] this]
    show ?thesis by (rule can_step [OF st]) (simp, rule ret, simp_all)
  qed
qed

end
