(* ===== verification/Inproc_Properties.thy ===== *)
theory Inproc_Properties
  imports Inproc_Liveness
begin

text \<open>
  The properties of streaming RPCs over the in-process channel, each over the definitions of
  \<open>Inproc_Frames\<close>, \<open>Inproc_Server\<close>, \<open>Inproc_Client\<close> and \<open>Inproc_Rpc\<close> alone, and witnesses
  on a concrete RPC.
\<close>

subsection \<open>A concrete RPC\<close>

text \<open>Messages are numbers, the codec writes one byte. The handler sends a header, answers
  two requests, sets a trailer and fails.\<close>

definition nat_codec :: "nat msg_codec" where
  "nat_codec =
     \<lparr>Marshal = (\<lambda>n. if n < 256 then Inr [of_nat n] else Inl (OtherErr ''too big'')),
      Unmarshal = (\<lambda>b out. case b of [w] \<Rightarrow> (None, unat w) | _ \<Rightarrow> (Some (OtherErr ''bad length''), 0))\<rparr>"

definition nat_env :: "nat proto_env" where
  "nat_env =
     \<lparr>go_type = (\<lambda>_. ''nat''), go_zero = (\<lambda>_. 0), can_set = (\<lambda>_. True), is_proto = (\<lambda>_. False),
      proto_reset = (\<lambda>_. 0), proto_clone = (\<lambda>m. m), try_merge = (\<lambda>out i. (None, i)),
      codec_v2 = Some nat_codec, codec_v1 = None\<rparr>"

lemma nat_reproduced: "n < 256 \<Longrightarrow> n \<in> reproduced_by_codec nat_env nat_codec"
  by (simp add: reproduced_by_codec_def nat_codec_def unat_of_nat)

definition demo_handler :: "nat handler" where
  "demo_handler =
     HCall (OpSetHeader [(''h'', [''1''])]) (\<lambda>_.
     HRecv 0 (\<lambda>r.
     HCall (OpSendMsg (case r of Inr m \<Rightarrow> Some (m + 1) | Inl _ \<Rightarrow> None)) (\<lambda>_.
     HCall (OpSetTrailer [(''t'', [''2''])]) (\<lambda>_.
     HReturn (Some (status_error NotFound ''gone''))))))"

definition demo_mem :: "string call_mem" where
  "demo_mem = \<lparr>md_at = (\<lambda>_. []), peer_at = (\<lambda>_. [])\<rparr>"

definition demo_start :: "(nat, string) rpc" where
  "demo_start =
     start_rpc True (GetCallOptions [HeaderCallOption 0, TrailerCallOption 1]) demo_mem None None
       demo_handler"

definition demo_cloner :: "nat cloner" where
  "demo_cloner = CodecCloner nat_env nat_codec"

definition demo_schedule :: "nat choice list" where
  "demo_schedule =
     [ChSend (Some 41), ChSendGo 0, ChSendGo 0] @
     replicate 9 (ChServer 0) @ [ChRead 0] @ replicate 7 (ChServer 0) @ replicate 2 (ChRead 0) @
     replicate 2 (ChServer 0) @ replicate 2 (ChRead 0) @ replicate 4 (ChServer 0) @
     replicate 5 (ChRead 0)"

definition demo_end :: "(nat, string) rpc" where
  "demo_end = the (rpc_run demo_cloner demo_schedule demo_start)"

lemma demo_run: "rpc_run demo_cloner demo_schedule demo_start \<noteq> None"
  by code_simp

lemma demo_reachable:
  "rpc_reachable (CodecCloner nat_env nat_codec)
     (start_rpc True (GetCallOptions [HeaderCallOption 0, TrailerCallOption 1]) demo_mem None None
       demo_handler) demo_end"
  using rpc_run_reachable [of demo_cloner demo_schedule demo_start demo_end] demo_run
  by (auto simp: demo_end_def demo_start_def demo_cloner_def)

lemma demo_facts:
  "r_cctx demo_end = None" "Inl EOF \<in> set (r_reads demo_end)" "sent_msgs (r_log demo_end) = [42]"
  by code_simp+

definition demo_half :: "(nat, string) rpc" where
  "demo_half = the (rpc_run demo_cloner
     (take 26 demo_schedule @ [ChSend (Some 7), ChSendGo 0, ChSendGo 0, ChSend (Some 8)]) demo_start)"

lemma demo_half_run:
  "rpc_run demo_cloner
     (take 26 demo_schedule @ [ChSend (Some 7), ChSendGo 0, ChSendGo 0, ChSend (Some 8)]) demo_start \<noteq> None"
  by code_simp

lemma demo_half_reachable:
  "rpc_reachable (CodecCloner nat_env nat_codec)
     (start_rpc True (GetCallOptions [HeaderCallOption 0, TrailerCallOption 1]) demo_mem None None
       demo_handler) demo_half"
  using rpc_run_reachable [of demo_cloner _ demo_start demo_half] demo_half_run
  by (auto simp: demo_half_def demo_start_def demo_cloner_def)

subsection \<open>What the client receives\<close>

text \<open>C2. End-to-end delivery of a streaming RPC. In every reachable state of the RPC, if the
  client's context has not been done and its reads have come to the end of the channel, then
  the handler has returned and the client's calls of \<open>RecvMsg\<close> give exactly the messages the
  handler sent, in order, and then, on as many further calls as the channel was found closed,
  the handler's error (with a context
  error turned into a status) or \<open>io.EOF\<close> if it returned nil. \<open>Trailer\<close> and the header and
  trailer call options hold what the handler set before its first message and in all, joined
  per key. The hypothesis on the codec is that decoding an encoded message gives it back.\<close>

theorem stream_rpc_delivers:
  assumes "rpc_reachable (CodecCloner env codec) (start_rpc True co mem csh ssh h) r"
    and "r_cctx r = None" and "Inl EOF \<in> set (r_reads r)"
    and "m \<in> reproduced_by_codec env codec"
    and "set (sent_msgs (r_log r)) \<subseteq> reproduced_by_codec env codec"
  shows "\<exists>err s'.
    (r_srv r = Exited err \<or> (\<exists>p w. r_srv r = InFinish p w err)) \<and>
    recv_calls (CodecCloner env codec) zero m (length (sent_msgs (r_log r)) + eof_count (r_reads r))
        (new_client_stream True co mem csh) (r_reads r) =
      (map Inr (sent_msgs (r_log r)) @
         replicate (eof_count (r_reads r)) (Inl (case err of None \<Rightarrow> EOF | Some e \<Rightarrow> TranslateContextError e)), s') \<and>
    (let hs = md_joined (header_mds (r_log r)); ts = md_joined (trailer_mds (r_log r)) in
       cs_headers s' = (if hs = [] then None else Some hs) \<and>
       client_Trailer s' = (if ts = [] then None else Some ts) \<and>
       cs_mem s' = (if ts = [] then id else SetTrailers co ts)
          ((if hs = [] then id else SetHeaders co hs) mem))"
  using assms by (rule codec_cloner.rpc_delivers)

theorem stream_rpc_delivers_witness:
  "\<exists>err s'.
    recv_calls (CodecCloner nat_env nat_codec) (\<lambda>_. 0) 0 (1 + eof_count (r_reads demo_end))
        (new_client_stream True (GetCallOptions [HeaderCallOption 0, TrailerCallOption 1]) demo_mem None)
        (r_reads demo_end) =
      (Inr 42 # replicate (eof_count (r_reads demo_end)) (Inl (case err of None \<Rightarrow> EOF | Some e \<Rightarrow> TranslateContextError e)), s')"
proof -
  have "set (sent_msgs (r_log demo_end)) \<subseteq> reproduced_by_codec nat_env nat_codec"
    by (simp add: demo_facts nat_reproduced)
  from stream_rpc_delivers [OF demo_reachable demo_facts(1,2) nat_reproduced [of 0] this, of "\<lambda>_. 0"]
  show ?thesis by (auto simp: demo_facts(3) simp del: recv_calls.simps)
qed

text \<open>C3. No goroutine of a streaming RPC panics, in any interleaving of the handler, the
  client's calls and cancellations: the response channel is closed once and never written after
  that, and neither \<open>SendMsg\<close> nor a second \<open>CloseSend\<close> touches a closed request channel.\<close>

theorem stream_rpc_no_panic:
  assumes "rpc_reachable cl (start_rpc rs co mem csh ssh h) r"
  shows "\<not> rpc_panics r"
  using rpc_inv_reachable [OF assms] by (simp add: rpc_inv_def chan_inv_no_panic)

theorem stream_rpc_no_panic_witness: "\<not> rpc_panics demo_end \<and> \<not> rpc_panics demo_half"
  using stream_rpc_no_panic [OF demo_reachable] stream_rpc_no_panic [OF demo_half_reachable] by simp

text \<open>C4. Frames arrive in order, without gaps and by the protocol, whatever is cancelled and
  when: what the client has read is a prefix of what the server has sent and has at most one
  headers frame, before everything else, and at most one trailers and one error frame, at the
  end; what the handler has taken from the request channel is a prefix of what the client put
  there; and neither channel holds more than its one frame.\<close>

theorem stream_rpc_fifo:
  assumes "rpc_reachable cl (start_rpc rs co mem csh ssh h) r"
  shows "prefix (read_frames (r_reads r)) (r_sent r) \<and> frame_protocol (read_frames (r_reads r)) \<and>
    prefix (r_sgot r) (r_reqs r) \<and>
    length (buf (r_resp r)) \<le> chan_cap \<and> length (buf (r_req r)) \<le> chan_cap"
  using rpc_inv_reachable [OF assms]
  by (auto simp: rpc_inv_def chan_inv_def fifo_def)

theorem stream_rpc_fifo_witness:
  "prefix (read_frames (r_reads demo_end)) (r_sent demo_end) \<and> length (read_frames (r_reads demo_end)) = 4"
proof -
  have "length (read_frames (r_reads demo_end)) = 4" by code_simp
  with stream_rpc_fifo [OF demo_reachable] show ?thesis by simp
qed

subsection \<open>No deadlock\<close>

text \<open>C6. A streaming RPC never gets stuck: from every reachable state in which the client's
  context is not done there is a continuation, without any cancellation, in which the handler
  returns, \<open>finish\<close> sends its last frames, the server goroutine exits and the client reads the
  end of the stream.\<close>

theorem stream_rpc_completes:
  assumes "rpc_reachable cl (start_rpc rs co mem csh ssh h) r" and "r_cctx r = None"
  shows "\<exists>r' err. rpc_reachable cl r r' \<and> r_srv r' = Exited err \<and> r_cctx r' = None \<and>
    Inl EOF \<in> set (r_reads r')"
proof -
  have "chan_inv r" using rpc_inv_reachable [OF assms(1)] by (simp add: rpc_inv_def)
  from completes [OF this assms(2), of cl] show ?thesis
    by (auto simp: can_reach_def rpc_reachable_def)
qed

theorem stream_rpc_completes_witness:
  "\<exists>r' err. rpc_reachable (CodecCloner nat_env nat_codec) demo_half r' \<and> r_srv r' = Exited err"
proof -
  have "r_cctx demo_half = None" by code_simp
  from stream_rpc_completes [OF demo_half_reachable this] show ?thesis by blast
qed

text \<open>C7. The deadlock that \<open>svrDoneCtx\<close> is there for does not happen: once the handler has
  returned and \<open>finish\<close> has run \<open>onDone\<close>, a client that is in the middle of a \<open>SendMsg\<close>, with
  the request buffer full and nobody reading it, can still return from it, with no help from
  the server goroutine and with no cancellation.\<close>

theorem stream_send_not_stuck:
  assumes "rpc_reachable cl (start_rpc rs co mem csh ssh h) r"
    and "r_srv r = Exited err \<or> (r_srv r = InFinish p w err \<and> (\<forall>c. p \<noteq> SOnDone c))"
    and "r_send r = Some (f, x)"
  shows "\<exists>r' res. rpc_reachable cl r r' \<and> r_send r' = None \<and> r_sends r' = r_sends r @ [res] \<and>
    r_srv r' = r_srv r \<and> r_cctx r' = r_cctx r"
proof -
  have "r_done r \<noteq> None" using done_inv_reachable [OF assms(1)] assms(2) by (auto simp: done_inv_def)
  from send_can_return [OF this assms(3), of cl] show ?thesis
    by (auto simp: can_reach_def rpc_reachable_def)
qed

theorem stream_send_not_stuck_witness:
  "\<exists>r' res. rpc_reachable (CodecCloner nat_env nat_codec) demo_half r' \<and> r_send r' = None \<and>
     r_sends r' = r_sends demo_half @ [res]"
proof -
  have "case r_srv demo_half of InFinish (SWrite g c) None _ \<Rightarrow> True | _ \<Rightarrow> False"
    "r_send demo_half = Some (data_frame 8, None)" by code_simp+
  then obtain g c err where "r_srv demo_half = InFinish (SWrite g c) None err"
    by (auto split: srv_pos.splits srv_prog.splits option.splits)
  then have "r_srv demo_half = Exited err \<or>
      (r_srv demo_half = InFinish (SWrite g c) None err \<and> (\<forall>c'. SWrite g c \<noteq> SOnDone c'))" by simp
  from stream_send_not_stuck [OF demo_half_reachable this \<open>r_send demo_half = _\<close>] show ?thesis by blast
qed

subsection \<open>The two ends\<close>

text \<open>C8. The server's end refines its abstract view: whatever calls a handler makes, the
  frames that \<open>SetHeader\<close>, \<open>SendHeader\<close>, \<open>SetTrailer\<close>, \<open>SendMsg\<close> and finally \<open>finish\<close> write
  are the joined headers (if any), one frame per message, the joined trailers (if any) and the
  error (if any), and they obey the frame protocol.\<close>

theorem server_stream_refines:
  "server_frames cl sh ops err = frames_of_view (view_of cl ops) err \<and>
   v_headers (view_of cl ops) = md_joined (header_mds ops) \<and>
   v_trailers (view_of cl ops) = md_joined (trailer_mds ops) \<and>
   frame_protocol (server_frames cl sh ops err)"
  by (simp add: server_frames_eq frames_of_view_protocol view_of_metadata)

text \<open>C9. A method with a single response: on the complete frames of an RPC whose handler made
  the calls \<open>ops\<close>, \<open>RecvMsg\<close> returns the message when there was exactly one, the handler's
  error or \<open>io.EOF\<close> when there was none, and an \<open>Internal\<close> error, which also answers every
  later call, when there were two or more. With at most one message it has consumed the
  trailers and the final error too. (With one message and an error, the message wins: the error
  is only seen by the next call.)\<close>

theorem single_response_RecvMsg:
  assumes "cs_last s = None" and "\<not> cs_responseStream s"
    and "m \<in> reproduced_by_codec env codec" and "\<And>x. zero x \<in> reproduced_by_codec env codec"
    and "set (sent_msgs ops) \<subseteq> reproduced_by_codec env codec"
  shows "\<exists>s' rest. client_RecvMsg (CodecCloner env codec) zero s m
        (map Inr (server_frames (CodecCloner env codec) sh ops err) @ [Inl EOF]) =
      Some (case sent_msgs ops of
              [] \<Rightarrow> Inl (case err of None \<Rightarrow> EOF | Some e \<Rightarrow> TranslateContextError e)
            | [x] \<Rightarrow> Inr x
            | _ \<Rightarrow> Inl too_many_err, s', rest) \<and>
      (length (sent_msgs ops) \<le> 1 \<longrightarrow> cs_last s' = map_option err_frame err) \<and>
      (1 < length (sent_msgs ops) \<longrightarrow> cs_last s' = Some (err_frame too_many_err))"
proof -
  have msgs: "v_msgs (view_of (CodecCloner env codec) ops) = sent_msgs ops"
    using assms(5) by (rule codec_cloner.view_of_msgs)
  have sub: "set (v_msgs (view_of (CodecCloner env codec) ops)) \<subseteq> reproduced_by_codec env codec"
    unfolding msgs by (rule assms(5))
  show ?thesis
    unfolding server_frames_eq
    using codec_cloner.recv_calls_single [OF assms(1-3) _ sub, where err = err and zero = zero,
        unfolded msgs] assms(4) by blast
qed

theorem single_response_RecvMsg_witness:
  "\<exists>s' rest. client_RecvMsg (CodecCloner nat_env nat_codec) (\<lambda>_. 0)
      (new_client_stream False no_call_options demo_mem None) 0
      (map Inr (server_frames (CodecCloner nat_env nat_codec) None [OpSendMsg (Some 7)] None) @ [Inl EOF]) =
    Some (Inr 7, s', rest)"
proof -
  have s: "cs_last (new_client_stream False no_call_options demo_mem None) = None"
    "\<not> cs_responseStream (new_client_stream False no_call_options demo_mem None)"
    by (simp_all add: new_client_stream_def)
  have ops: "set (sent_msgs [OpSendMsg (Some 7)]) \<subseteq> reproduced_by_codec nat_env nat_codec"
    by (simp add: nat_reproduced)
  from single_response_RecvMsg [OF s nat_reproduced [of 0] nat_reproduced [of 0] ops,
      where sh = None and err = None] show ?thesis by auto
qed

text \<open>C10. Looking at the headers first is harmless: when \<open>Header\<close>, called before anything has
  been received, reads any frame but an empty one, the next \<open>RecvMsg\<close> returns what it would
  have returned without the call of \<open>Header\<close>, and leaves the same stream up to \<open>state\<close>,
  provided that the cloner can copy the message, if the frame carries one.\<close>

theorem Header_then_RecvMsg:
  assumes "cs_state s = streamStateHeaders" and "cs_last s = None" and "kind f \<noteq> kindUnknown"
    and "kind f = kindData \<longrightarrow> Copy cl m (the (f_data f)) = Inr v"
  shows "\<exists>h s1. client_Header s (Inr f # inp) = Some (Inr h, s1, inp) \<and>
    up_to_state (client_RecvMsg cl zero s1 m inp) =
    up_to_state (client_RecvMsg cl zero s m (Inr f # inp))"
  using assms by (rule Header_peeks)

theorem Header_then_RecvMsg_witness:
  "\<exists>h s1. client_Header (new_client_stream True no_call_options demo_mem None) [Inr (data_frame (5::nat))] =
      Some (Inr h, s1, []) \<and>
    up_to_state (client_RecvMsg demo_cloner (\<lambda>_. 0) s1 0 []) =
    up_to_state (client_RecvMsg demo_cloner (\<lambda>_. 0) (new_client_stream True no_call_options demo_mem None)
      0 [Inr (data_frame 5)])"
proof -
  have "Copy demo_cloner 0 5 = Inr 5" by code_simp
  then show ?thesis
    using Header_then_RecvMsg [of "new_client_stream True no_call_options demo_mem None"
        "data_frame 5" demo_cloner 0 5 "[]" "\<lambda>_. 0"]
    by (simp add: new_client_stream_def)
qed

text \<open>The client's stats handler hears of the end of the RPC at most once, however often
  \<open>Header\<close>, \<open>RecvMsg\<close> and \<open>SendMsg\<close> are called and whatever the reads return.\<close>

lemma client_end_reported_once:
  "length (filter is_end (cs_events (cs_calls cl zero calls (new_client_stream rs co mem sh) inp))) \<le> 1"
  using cs_calls_end_inv [of "new_client_stream rs co mem sh" cl zero calls inp]
  by (simp add: end_inv_def ends_def new_client_stream_def split: if_splits)

end
