(* ===== verification/Transport_Stream.thy ===== *)
theory Transport_Stream
  imports Inproc_Server
begin

text \<open>
  \<open>internal/transport_stream.go\<close>: the objects through which \<open>grpc.SetHeader\<close>,
  \<open>grpc.SendHeader\<close> and \<open>grpc.SetTrailer\<close> reach the transport, and the contract they share.

  \<open>UnaryServerTransportStream\<close> collects the metadata of a unary call; every method holds its
  mutex from start to end, so it is a function of the fields. \<open>ServerTransportStream\<close> delegates
  to a server stream, that of \<open>Inproc_Server\<close> or that of the HTTP transport.
\<close>

record unary_sts =
  sts_Name :: string
  sts_hdrs :: "md option"
  sts_hdrsSent :: bool
  sts_tlrs :: "md option"
  sts_tlrsSent :: bool

definition new_unary_sts :: "string \<Rightarrow> unary_sts" where
  "new_unary_sts name =
     \<lparr>sts_Name = name, sts_hdrs = None, sts_hdrsSent = False, sts_tlrs = None, sts_tlrsSent = False\<rparr>"

definition sts_Method :: "unary_sts \<Rightarrow> string" where
  "sts_Method sts = sts_Name sts"

definition sts_Finish :: "unary_sts \<Rightarrow> unary_sts" where
  "sts_Finish sts = sts\<lparr>sts_hdrsSent := True, sts_tlrsSent := True\<rparr>"

definition setHeaderLocked :: "unary_sts \<Rightarrow> md \<Rightarrow> goerr option \<times> unary_sts" where
  "setHeaderLocked sts md =
     (if sts_hdrsSent sts then (Some (OtherErr ''headers already sent''), sts)
      else (None, sts\<lparr>sts_hdrs := Some (mjoin (md_list (sts_hdrs sts)) md)\<rparr>))"

definition sts_SetHeader :: "unary_sts \<Rightarrow> md \<Rightarrow> goerr option \<times> unary_sts" where
  "sts_SetHeader sts md = setHeaderLocked sts md"

definition sts_SendHeader :: "unary_sts \<Rightarrow> md \<Rightarrow> goerr option \<times> unary_sts" where
  "sts_SendHeader sts md =
     (case setHeaderLocked sts md of
        (Some err, sts1) \<Rightarrow> (Some err, sts1)
      | (None, sts1) \<Rightarrow> (None, sts1\<lparr>sts_hdrsSent := True\<rparr>))"

definition sts_GetHeaders :: "unary_sts \<Rightarrow> md option" where
  "sts_GetHeaders sts = sts_hdrs sts"

definition sts_SetTrailer :: "unary_sts \<Rightarrow> md \<Rightarrow> goerr option \<times> unary_sts" where
  "sts_SetTrailer sts md =
     (if sts_tlrsSent sts then (Some (OtherErr ''trailers already sent''), sts)
      else (None, sts\<lparr>sts_tlrs := Some (mjoin (md_list (sts_tlrs sts)) md)\<rparr>))"

definition sts_GetTrailers :: "unary_sts \<Rightarrow> md option" where
  "sts_GetTrailers sts = sts_tlrs sts"

text \<open>The calls of a unary handler, and their results.\<close>

datatype sts_call =
    CSetHeader md
  | CSendHeader md
  | CSetTrailer md

fun sts_apply :: "sts_call \<Rightarrow> unary_sts \<Rightarrow> goerr option \<times> unary_sts" where
  "sts_apply (CSetHeader md) sts = sts_SetHeader sts md"
| "sts_apply (CSendHeader md) sts = sts_SendHeader sts md"
| "sts_apply (CSetTrailer md) sts = sts_SetTrailer sts md"

fun sts_run :: "sts_call list \<Rightarrow> unary_sts \<Rightarrow> goerr option list \<times> unary_sts" where
  "sts_run [] sts = ([], sts)"
| "sts_run (c # cs) sts =
     (let (e, sts1) = sts_apply c sts; (es, sts2) = sts_run cs sts1 in (e # es, sts2))"

subsection \<open>ServerTransportStream\<close>

text \<open>Over the in-process server stream, which has \<open>TrySetTrailer\<close>.\<close>

fun ServerTransportStream_inproc ::
    "sts_call \<Rightarrow> 'm server_stream \<Rightarrow> ('m, goerr option \<times> 'm server_stream) srv_prog" where
  "ServerTransportStream_inproc (CSetHeader md) s = SetHeader s md"
| "ServerTransportStream_inproc (CSendHeader md) s = SendHeader s md"
| "ServerTransportStream_inproc (CSetTrailer md) s = TrySetTrailer s md"

subsection \<open>The contract for headers\<close>

text \<open>Headers may be set until they have been sent, once; after that every call fails and
  changes nothing.\<close>

locale header_sink =
  fixes set_header send_header :: "'s \<Rightarrow> md \<Rightarrow> goerr option \<times> 's"
    and open_state sent_state :: "'s \<Rightarrow> bool"
  assumes set_open: "open_state s \<Longrightarrow> fst (set_header s h) = None \<and> open_state (snd (set_header s h))"
    and send_open: "open_state s \<Longrightarrow> fst (send_header s h) = None \<and> sent_state (snd (send_header s h))"
    and set_sent: "sent_state s \<Longrightarrow> set_header s h = (Some (OtherErr ''headers already sent''), s)"
    and send_sent: "sent_state s \<Longrightarrow> send_header s h = (Some (OtherErr ''headers already sent''), s)"
begin

text \<open>Calls with \<open>True\<close> are \<open>SendHeader\<close>, those with \<open>False\<close> are \<open>SetHeader\<close>.\<close>

fun header_calls :: "(bool \<times> md) list \<Rightarrow> 's \<Rightarrow> goerr option list" where
  "header_calls [] s = []"
| "header_calls ((send, h) # cs) s =
     (let (e, s') = (if send then send_header s h else set_header s h) in e # header_calls cs s')"

lemma header_calls_sent:
  "sent_state s \<Longrightarrow> header_calls cs s = replicate (length cs) (Some (OtherErr ''headers already sent''))"
  by (induction cs) (auto simp: set_sent send_sent)

lemma header_calls_results:
  "open_state s \<Longrightarrow>
   header_calls cs s =
     (let n = length (takeWhile (\<lambda>(send, _). \<not> send) cs)
      in map (\<lambda>i. if i \<le> n then None else Some (OtherErr ''headers already sent'')) [0..<length cs])"
proof (induction cs arbitrary: s)
  case Nil
  then show ?case by simp
next
  case (Cons c cs)
  obtain send h where c: "c = (send, h)" by (cases c)
  show ?case
  proof (cases send)
    case True
    with Cons.prems have "sent_state (snd (send_header s h))" "fst (send_header s h) = None"
      using send_open by auto
    with c True show ?thesis
      by (auto simp: header_calls_sent Let_def split: prod.splits simp del: upt_Suc
          intro!: nth_equalityI simp: nth_Cons')
  next
    case False
    with Cons.prems have "open_state (snd (set_header s h))" "fst (set_header s h) = None"
      using set_open by auto
    with c False Cons.IH show ?thesis
      by (auto simp: Let_def split: prod.splits simp del: upt_Suc intro!: nth_equalityI simp: nth_Cons')
  qed
qed

end

interpretation unary_sink: header_sink sts_SetHeader sts_SendHeader
    "\<lambda>s. \<not> sts_hdrsSent s" sts_hdrsSent
  by unfold_locales (auto simp: sts_SetHeader_def sts_SendHeader_def setHeaderLocked_def)

interpretation inproc_sink: header_sink
    "\<lambda>s h. snd (quiet (ServerTransportStream_inproc (CSetHeader h) s))"
    "\<lambda>s h. snd (quiet (ServerTransportStream_inproc (CSendHeader h) s))"
    "\<lambda>s. ss_state s = streamStateHeaders" "\<lambda>s. ss_state s \<noteq> streamStateHeaders"
  by unfold_locales (auto simp: SetHeader_def SendHeader_def setHeader_def)

subsection \<open>What a unary call has collected\<close>

fun call_headers :: "sts_call list \<Rightarrow> md list" where
  "call_headers [] = []"
| "call_headers (CSetHeader h # cs) = h # call_headers cs"
| "call_headers (CSendHeader h # cs) = [h]"
| "call_headers (CSetTrailer t # cs) = call_headers cs"

fun call_trailers :: "sts_call list \<Rightarrow> md list" where
  "call_trailers [] = []"
| "call_trailers (CSetTrailer t # cs) = t # call_trailers cs"
| "call_trailers (_ # cs) = call_trailers cs"

lemma sts_run_headers:
  "md_list (sts_hdrs (snd (sts_run cs s))) =
     (if sts_hdrsSent s then md_list (sts_hdrs s) else foldl mjoin (md_list (sts_hdrs s)) (call_headers cs))"
proof (induction cs arbitrary: s)
  case (Cons c cs)
  then show ?case
    by (cases c) (auto simp: sts_SetHeader_def sts_SendHeader_def sts_SetTrailer_def setHeaderLocked_def
        Let_def split_beta)
qed simp

lemma sts_run_trailers:
  "\<not> sts_tlrsSent s \<Longrightarrow>
   md_list (sts_tlrs (snd (sts_run cs s))) = foldl mjoin (md_list (sts_tlrs s)) (call_trailers cs)"
proof (induction cs arbitrary: s)
  case (Cons c cs)
  then show ?case
    by (cases c) (auto simp: sts_SetHeader_def sts_SendHeader_def sts_SetTrailer_def setHeaderLocked_def
        Let_def split_beta)
qed simp

lemma sts_run_finished:
  "sts_hdrsSent s \<Longrightarrow> sts_tlrsSent s \<Longrightarrow> snd (sts_run cs s) = s \<and> None \<notin> set (fst (sts_run cs s))"
proof (induction cs)
  case (Cons c cs)
  then show ?case
    by (cases c) (auto simp: sts_SetHeader_def sts_SendHeader_def sts_SetTrailer_def setHeaderLocked_def
        Let_def split_beta)
qed simp

lemma unary_collected:
  "md_list (sts_GetHeaders (snd (sts_run calls (new_unary_sts name)))) = md_joined (call_headers calls)"
  "md_list (sts_GetTrailers (snd (sts_run calls (new_unary_sts name)))) = md_joined (call_trailers calls)"
  by (simp_all add: sts_GetHeaders_def sts_GetTrailers_def sts_run_headers sts_run_trailers
      new_unary_sts_def md_joined_def)

end
