(* ===== verification/Intercept_Chain.thy ===== *)
theory Intercept_Chain
  imports Prelude
begin

text \<open>
  The four functions of \<open>intercept.go\<close> that build one interceptor from a slice of them, and
  their common contract as a locale.

  A call is a value of \<open>'a\<close> (context, method, request, options), \<open>'c option\<close> is the
  \<open>*grpc.ClientConn\<close> argument, \<open>'r\<close> what an RPC does and returns (a value of any type, a
  state transformer for instance). So an invoker is a function of call and connection, and an
  interceptor one of call, connection and the invoker to delegate to.

  The loops go \<open>for i := range ints\<close> and pick \<open>ints[len(ints)-i-1]\<close>; the closure that each
  round builds captures that interceptor and the previous invoker.
\<close>

type_synonym ('a, 'c, 'r) invoker = "'a \<Rightarrow> 'c option \<Rightarrow> 'r"
type_synonym ('a, 'c, 'r) client_int = "'a \<Rightarrow> 'c option \<Rightarrow> ('a, 'c, 'r) invoker \<Rightarrow> 'r"

type_synonym ('q, 'r) unary_handler = "'q \<Rightarrow> 'r"
type_synonym ('q, 'i, 'r) unary_server_int = "'q \<Rightarrow> 'i \<Rightarrow> ('q, 'r) unary_handler \<Rightarrow> 'r"

type_synonym ('h, 'w, 's) stream_handler = "'h \<Rightarrow> 'w \<Rightarrow> 's"
type_synonym ('h, 'w, 'i, 's) stream_server_int =
  "'h \<Rightarrow> 'w \<Rightarrow> 'i \<Rightarrow> ('h, 'w, 's) stream_handler \<Rightarrow> 's"

definition chainUnaryClient :: "('a, 'c, 'r) client_int list \<Rightarrow> ('a, 'c, 'r) client_int" where
  "chainUnaryClient unaryInt =
     (if length unaryInt = 1 then unaryInt ! 0
      else (\<lambda>a cc invoker.
        foldl (\<lambda>invoker i. \<lambda>a cc. (unaryInt ! (length unaryInt - i - 1)) a cc invoker)
          invoker [0..<length unaryInt] a cc))"

definition chainStreamClient :: "('a, 'c, 'r) client_int list \<Rightarrow> ('a, 'c, 'r) client_int" where
  "chainStreamClient streamInt =
     (if length streamInt = 1 then streamInt ! 0
      else (\<lambda>a cc streamer.
        foldl (\<lambda>streamer i. \<lambda>a cc. (streamInt ! (length streamInt - i - 1)) a cc streamer)
          streamer [0..<length streamInt] a cc))"

definition chainUnaryServer :: "('q, 'i, 'r) unary_server_int list \<Rightarrow> ('q, 'i, 'r) unary_server_int" where
  "chainUnaryServer unaryInt =
     (if length unaryInt = 1 then unaryInt ! 0
      else (\<lambda>q info handler.
        foldl (\<lambda>handler i. \<lambda>q. (unaryInt ! (length unaryInt - i - 1)) q info handler)
          handler [0..<length unaryInt] q))"

definition chainStreamServer ::
    "('h, 'w, 'i, 's) stream_server_int list \<Rightarrow> ('h, 'w, 'i, 's) stream_server_int" where
  "chainStreamServer streamInt =
     (if length streamInt = 1 then streamInt ! 0
      else (\<lambda>impl stream info handler.
        foldl (\<lambda>handler i. \<lambda>impl stream. (streamInt ! (length streamInt - i - 1)) impl stream info handler)
          handler [0..<length streamInt] impl stream))"

subsection \<open>The contract\<close>

text \<open>\<open>wrap i k\<close> is the continuation that runs the interceptor \<open>i\<close> before \<open>k\<close>. A chain runs
  the first interceptor first and hands each one the rest.\<close>

locale chain =
  fixes wrap :: "'i \<Rightarrow> 'k \<Rightarrow> 'k" and chain :: "'i list \<Rightarrow> 'i"
  assumes wrap_inj: "(\<And>k. wrap i k = wrap j k) \<Longrightarrow> i = j"
    and chain_wrap: "wrap (chain is) k = foldr wrap is k"
begin

lemma chain_single: "chain [i] = i"
  by (rule wrap_inj) (simp add: chain_wrap)

text \<open>A chain may be built in pieces: the interceptor of a chain counts as its members.\<close>

lemma chain_append: "chain (xs @ [chain ys]) = chain (xs @ ys)"
  by (rule wrap_inj) (simp add: chain_wrap)

lemma chain_flatten: "chain (map chain xss) = chain (concat xss)"
proof (rule wrap_inj)
  show "wrap (chain (map chain xss)) k = wrap (chain (concat xss)) k" for k
    by (induction xss arbitrary: k) (simp_all add: chain_wrap)
qed

end

definition client_wrap :: "('a, 'c, 'r) client_int \<Rightarrow> ('a, 'c, 'r) invoker \<Rightarrow> ('a, 'c, 'r) invoker" where
  "client_wrap i k = (\<lambda>a cc. i a cc k)"

definition unary_wrap ::
    "('q, 'i, 'r) unary_server_int \<Rightarrow> 'i \<times> ('q, 'r) unary_handler \<Rightarrow> 'i \<times> ('q, 'r) unary_handler" where
  "unary_wrap u = (\<lambda>(info, k). (info, \<lambda>q. u q info k))"

definition stream_wrap ::
    "('h, 'w, 'i, 's) stream_server_int \<Rightarrow> 'i \<times> ('h, 'w, 's) stream_handler \<Rightarrow>
     'i \<times> ('h, 'w, 's) stream_handler" where
  "stream_wrap u = (\<lambda>(info, k). (info, \<lambda>h w. u h w info k))"

interpretation unary_client: chain client_wrap chainUnaryClient
proof unfold_locales
  show "(\<And>k. client_wrap i k = client_wrap j k) \<Longrightarrow> i = j" for i j :: "('a, 'b, 'c) client_int"
    by (simp add: client_wrap_def fun_eq_iff)
  show "client_wrap (chainUnaryClient is) k = foldr client_wrap is k" for "is" k
  proof (cases "length is = 1")
    case True
    then obtain i where "is = [i]" by (cases "is") auto
    then show ?thesis by (simp add: chainUnaryClient_def)
  next
    case False
    then show ?thesis
      using foldl_index_rev [of client_wrap "is" k]
      by (simp add: chainUnaryClient_def client_wrap_def fun_eq_iff)
  qed
qed

interpretation stream_client: chain client_wrap chainStreamClient
proof unfold_locales
  show "(\<And>k. client_wrap i k = client_wrap j k) \<Longrightarrow> i = j" for i j :: "('a, 'b, 'c) client_int"
    by (simp add: client_wrap_def fun_eq_iff)
  show "client_wrap (chainStreamClient is) k = foldr client_wrap is k" for "is" k
  proof (cases "length is = 1")
    case True
    then obtain i where "is = [i]" by (cases "is") auto
    then show ?thesis by (simp add: chainStreamClient_def)
  next
    case False
    then show ?thesis
      using foldl_index_rev [of client_wrap "is" k]
      by (simp add: chainStreamClient_def client_wrap_def fun_eq_iff)
  qed
qed

lemma foldr_unary_wrap: "foldr unary_wrap us (info, k) = (info, foldr (\<lambda>u k q. u q info k) us k)"
  by (induction us) (simp_all add: unary_wrap_def)

lemma foldr_stream_wrap: "foldr stream_wrap us (info, k) = (info, foldr (\<lambda>u k h w. u h w info k) us k)"
  by (induction us) (simp_all add: stream_wrap_def)

interpretation unary_server: chain unary_wrap chainUnaryServer
proof unfold_locales
  fix i j :: "('a, 'b, 'c) unary_server_int"
  assume eq: "unary_wrap i k = unary_wrap j k" for k
  show "i = j"
  proof (intro ext)
    show "i q info k = j q info k" for q info k
      using eq [of "(info, k)"] by (simp add: unary_wrap_def fun_eq_iff)
  qed
next
  show "unary_wrap (chainUnaryServer is) k = foldr unary_wrap is k" for "is" k
  proof (cases "length is = 1")
    case True
    then obtain i where "is = [i]" by (cases "is") auto
    then show ?thesis by (simp add: chainUnaryServer_def)
  next
    case False
    obtain info h where k: "k = (info, h)" by (cases k)
    show ?thesis
      using False foldl_index_rev [of "\<lambda>u k q. u q info k" "is" h]
      by (simp add: k foldr_unary_wrap) (simp add: chainUnaryServer_def unary_wrap_def fun_eq_iff)
  qed
qed

interpretation stream_server: chain stream_wrap chainStreamServer
proof unfold_locales
  fix i j :: "('a, 'b, 'c, 'd) stream_server_int"
  assume eq: "stream_wrap i k = stream_wrap j k" for k
  show "i = j"
  proof (intro ext)
    show "i h w info k = j h w info k" for h w info k
      using eq [of "(info, k)"] by (simp add: stream_wrap_def fun_eq_iff)
  qed
next
  show "stream_wrap (chainStreamServer is) k = foldr stream_wrap is k" for "is" k
  proof (cases "length is = 1")
    case True
    then obtain i where "is = [i]" by (cases "is") auto
    then show ?thesis by (simp add: chainStreamServer_def)
  next
    case False
    obtain info h where k: "k = (info, h)" by (cases k)
    show ?thesis
      using False foldl_index_rev [of "\<lambda>u k i w. u i w info k" "is" h]
      by (simp add: k foldr_stream_wrap) (simp add: chainStreamServer_def stream_wrap_def fun_eq_iff)
  qed
qed

end
