(* ===== verification/Handler_Map.thy ===== *)
theory Handler_Map
  imports Prelude
begin

text \<open>
  \<open>HandlerMap\<close> of \<open>server.go\<close>, the lookups of methods of \<open>internal/misc.go\<close>, and the
  interface \<open>grpc.ServiceRegistrar\<close> as a locale.

  A method or stream handler is a value of \<open>'u\<close> or \<open>'v\<close>; a service implementation is a value
  of \<open>'h\<close>, \<open>None\<close> for a nil interface. What reflection says of a value, that its type
  implements an interface type, is the parameter \<open>implements\<close>. The two descriptor types are
  gRPC's; only the fields that the code reads are here. A map is an association list with at
  most one entry per key, \<open>None\<close> for a nil map; what iterates over a map takes the entries in
  an order of Go's choosing, so it is a relation or is stated for every order.
\<close>

record 'u method_desc =
  MethodName :: string
  md_handler :: 'u

record 'v stream_desc =
  StreamName :: string
  sd_handler :: 'v
  ServerStreams :: bool
  ClientStreams :: bool

record ('u, 'v) service_desc =
  ServiceName :: string
  HandlerType :: "string option"
  Methods :: "'u method_desc list"
  Streams :: "'v stream_desc list"
  svc_metadata :: string

type_synonym ('u, 'v, 'h) handler_map =
  "(string \<times> ('u, 'v) service_desc \<times> 'h) list option"

definition hm_get :: "('u, 'v, 'h) handler_map \<Rightarrow> string \<Rightarrow> (('u, 'v) service_desc \<times> 'h) option" where
  "hm_get m n = (case m of None \<Rightarrow> None | Some l \<Rightarrow> map_of l n)"

text \<open>\<open>HandlerType\<close> is a nil pointer to an interface in what the protobuf plugin generates; \<open>None\<close>
  is any other value, with which \<open>reflect.TypeOf(desc.HandlerType).Elem()\<close> or \<open>Implements\<close> panics.
  \<open>Implements\<close> on a nil \<open>reflect.Type\<close> dereferences nil. A nil handler map can be looked up but not
  assigned to.\<close>

definition RegisterService ::
    "('h \<Rightarrow> string \<Rightarrow> bool) \<Rightarrow> ('u, 'v, 'h) handler_map \<Rightarrow> ('u, 'v) service_desc \<Rightarrow> 'h option \<Rightarrow>
     ('u, 'v, 'h) handler_map go" where
  "RegisterService implements m desc h =
     (case HandlerType desc of
        None \<Rightarrow> Panic ''handler type is no pointer to an interface''
      | Some ht \<Rightarrow>
          (case h of
             None \<Rightarrow> Panic ''nil pointer dereference''
           | Some hv \<Rightarrow>
               if \<not> implements hv ht then Panic ''handler does not satisfy interface''
               else case hm_get m (ServiceName desc) of
                      Some _ \<Rightarrow> Panic ''handler already registered''
                    | None \<Rightarrow>
                        (case m of
                           None \<Rightarrow> Panic ''assignment to entry in nil map''
                         | Some l \<Rightarrow> Ret (Some ((ServiceName desc, desc, hv) # l)))))"

definition QueryService ::
    "('u, 'v, 'h) handler_map \<Rightarrow> string \<Rightarrow> ('u, 'v) service_desc option \<times> 'h option" where
  "QueryService m name =
     (case hm_get m name of None \<Rightarrow> (None, None) | Some (desc, h) \<Rightarrow> (Some desc, Some h))"

record method_info =
  mi_Name :: string
  mi_IsClientStream :: bool
  mi_IsServerStream :: bool

record service_info =
  si_Methods :: "method_info list"
  si_Metadata :: string

definition service_info_of :: "('u, 'v) service_desc \<Rightarrow> service_info" where
  "service_info_of desc =
     \<lparr>si_Methods =
        map (\<lambda>mtd. \<lparr>mi_Name = MethodName mtd, mi_IsClientStream = False, mi_IsServerStream = False\<rparr>)
          (Methods desc) @
        map (\<lambda>mtd. \<lparr>mi_Name = StreamName mtd, mi_IsClientStream = ClientStreams mtd,
                     mi_IsServerStream = ServerStreams mtd\<rparr>)
          (Streams desc),
      si_Metadata = svc_metadata desc\<rparr>"

text \<open>The loop assigns to \<open>ret\<close> once per entry of the map.\<close>

definition GetServiceInfo :: "('u, 'v, 'h) handler_map \<Rightarrow> (string \<times> service_info) list" where
  "GetServiceInfo m =
     (case m of
        None \<Rightarrow> []
      | Some l \<Rightarrow>
          foldl (\<lambda>ret (_, desc, _). AList.update (ServiceName desc) (service_info_of desc) ret) [] l)"

text \<open>\<open>ForEach\<close>, for the order \<open>xs\<close> of the entries and a function that changes a state or
  panics.\<close>

fun for_each ::
    "('st \<Rightarrow> ('u, 'v) service_desc \<Rightarrow> 'h option \<Rightarrow> 'st go) \<Rightarrow>
     (string \<times> ('u, 'v) service_desc \<times> 'h) list \<Rightarrow> 'st \<Rightarrow> 'st go" where
  "for_each fn [] st = Ret st"
| "for_each fn ((n, desc, h) # xs) st = go_bind (fn st desc (Some h)) (for_each fn xs)"

definition iteration_order ::
    "('u, 'v, 'h) handler_map \<Rightarrow> (string \<times> ('u, 'v) service_desc \<times> 'h) list \<Rightarrow> bool" where
  "iteration_order m xs \<longleftrightarrow> distinct (map fst xs) \<and> set xs = (case m of None \<Rightarrow> {} | Some l \<Rightarrow> set l)"

subsection \<open>Methods\<close>

fun FindUnaryMethod :: "string \<Rightarrow> 'u method_desc list \<Rightarrow> 'u method_desc option" where
  "FindUnaryMethod n [] = None"
| "FindUnaryMethod n (md # mds) = (if MethodName md = n then Some md else FindUnaryMethod n mds)"

fun FindStreamingMethod :: "string \<Rightarrow> 'v stream_desc list \<Rightarrow> 'v stream_desc option" where
  "FindStreamingMethod n [] = None"
| "FindStreamingMethod n (sd # sds) = (if StreamName sd = n then Some sd else FindStreamingMethod n sds)"

lemma FindUnaryMethod_find: "FindUnaryMethod n mds = find (\<lambda>md. MethodName md = n) mds"
  by (induction mds) auto

lemma FindStreamingMethod_find: "FindStreamingMethod n sds = find (\<lambda>sd. StreamName sd = n) sds"
  by (induction sds) auto

subsection \<open>The map's invariant\<close>

definition hm_inv :: "('h \<Rightarrow> string \<Rightarrow> bool) \<Rightarrow> ('u, 'v, 'h) handler_map \<Rightarrow> bool" where
  "hm_inv implements m \<longleftrightarrow>
     (case m of
        None \<Rightarrow> True
      | Some l \<Rightarrow> distinct (map fst l) \<and>
          (\<forall>(n, desc, h) \<in> set l. n = ServiceName desc \<and>
             (\<exists>ht. HandlerType desc = Some ht \<and> implements h ht)))"

definition acceptable ::
    "('h \<Rightarrow> string \<Rightarrow> bool) \<Rightarrow> ('u, 'v) service_desc \<Rightarrow> 'h option \<Rightarrow> bool" where
  "acceptable implements desc h \<longleftrightarrow>
     (case (HandlerType desc, h) of (Some ht, Some hv) \<Rightarrow> implements hv ht | _ \<Rightarrow> False)"

lemma acceptableD:
  "acceptable implements desc h \<Longrightarrow> \<exists>ht hv. HandlerType desc = Some ht \<and> h = Some hv \<and> implements hv ht"
  by (auto simp: acceptable_def split: option.splits)

lemma RegisterService_panics_iff:
  "panics (RegisterService implements m desc h) \<longleftrightarrow>
     \<not> (acceptable implements desc h \<and> hm_get m (ServiceName desc) = None \<and> m \<noteq> None)"
  by (auto simp: RegisterService_def acceptable_def split: option.splits)

lemma RegisterService_ok:
  assumes "acceptable implements desc (Some hv)" and "hm_get m (ServiceName desc) = None" and "m \<noteq> None"
  shows "RegisterService implements m desc (Some hv) = Ret (Some ((ServiceName desc, desc, hv) # the m))"
  using assms by (auto simp: RegisterService_def acceptable_def split: option.splits)

lemma RegisterService_Ret:
  assumes "RegisterService implements m desc h = Ret m'"
  shows "acceptable implements desc h \<and> hm_get m (ServiceName desc) = None \<and> m \<noteq> None \<and>
    m' = Some ((ServiceName desc, desc, the h) # the m)"
  using assms by (auto simp: RegisterService_def acceptable_def split: option.splits if_splits)

lemma hm_inv_RegisterService:
  assumes "RegisterService implements m desc h = Ret m'" and "hm_inv implements m"
  shows "hm_inv implements m'"
proof -
  from RegisterService_Ret [OF assms(1)] obtain l ht hv where
    "m = Some l" "map_of l (ServiceName desc) = None" "h = Some hv" "HandlerType desc = Some ht"
    "implements hv ht" "m' = Some ((ServiceName desc, desc, hv) # l)"
    by (auto simp: hm_get_def dest!: acceptableD)
  with assms(2) show ?thesis by (auto simp: hm_inv_def map_of_eq_None_iff)
qed

lemma hm_get_RegisterService:
  "RegisterService implements m desc (Some hv) = Ret m' \<Longrightarrow>
   hm_get m' = (hm_get m)(ServiceName desc \<mapsto> (desc, hv))"
  by (auto simp: fun_eq_iff hm_get_def dest!: RegisterService_Ret)

lemma GetServiceInfo_get:
  assumes "hm_inv implements m"
  shows "map_of (GetServiceInfo m) n = map_option (\<lambda>(desc, h). service_info_of desc) (hm_get m n)"
proof (cases m)
  case None
  then show ?thesis by (simp add: GetServiceInfo_def hm_get_def)
next
  case (Some l)
  have gen: "map_of (foldl (\<lambda>ret (_, desc, _). AList.update (ServiceName desc) (service_info_of desc) ret) ret l) n =
      (case map_of l n of None \<Rightarrow> map_of ret n | Some (desc, h) \<Rightarrow> Some (service_info_of desc))"
    if "distinct (map fst l)" "\<forall>(k, desc, h) \<in> set l. k = ServiceName desc" for ret
    using that
  proof (induction l arbitrary: ret)
    case (Cons x l)
    obtain k desc h where x: "x = (k, desc, h)" by (cases x)
    with Cons show ?case
      by (auto simp: update_conv' map_of_eq_None_iff [symmetric] split: option.splits)
  qed simp
  have "distinct (map fst l)" "\<forall>(k, desc, h) \<in> set l. k = ServiceName desc"
    using assms Some by (auto simp: hm_inv_def)
  from gen [OF this, of "[]"] Some show ?thesis
    by (auto simp: GetServiceInfo_def hm_get_def split: option.splits)
qed

subsection \<open>The interface of a registrar\<close>

text \<open>\<open>grpc.ServiceRegistrar\<close>: what the code that registers services, and the generated code,
  relies on. \<open>ready\<close> says that the registrar can take registrations, \<open>offers\<close> what it serves
  under a service name.\<close>

locale registrar =
  fixes register :: "'st \<Rightarrow> ('u, 'v) service_desc \<Rightarrow> 'h option \<Rightarrow> 'st go"
    and offers :: "'st \<Rightarrow> string \<Rightarrow> (('a, 'b) service_desc \<times> 'h) option"
    and ready :: "'st \<Rightarrow> bool"
    and ok :: "('u, 'v) service_desc \<Rightarrow> 'h option \<Rightarrow> bool"
    and served :: "('u, 'v) service_desc \<Rightarrow> ('a, 'b) service_desc"
  assumes register_new: "ready st \<Longrightarrow> ok desc (Some h) \<Longrightarrow> offers st (ServiceName desc) = None \<Longrightarrow>
      \<exists>st'. register st desc (Some h) = Ret st' \<and> ready st' \<and>
        offers st' = (offers st)(ServiceName desc \<mapsto> (served desc, h))"
    and register_twice: "offers st (ServiceName desc) \<noteq> None \<Longrightarrow> panics (register st desc hopt)"
begin

text \<open>Registering a collection of services with distinct names that the registrar does not have
  makes it offer them, too, and nothing else new.\<close>

lemma register_all:
  "ready st \<Longrightarrow> distinct (map fst xs) \<Longrightarrow>
   (\<forall>(n, desc, h) \<in> set xs. n = ServiceName desc \<and> ok desc (Some h) \<and> offers st n = None) \<Longrightarrow>
   \<exists>st'. for_each register xs st = Ret st' \<and> ready st' \<and>
     offers st' = offers st ++ map_of (map (\<lambda>(n, desc, h). (n, served desc, h)) xs)"
proof (induction xs arbitrary: st)
  case Nil
  then show ?case by simp
next
  case (Cons x xs)
  obtain n desc h where x: "x = (n, desc, h)" by (cases x)
  with Cons.prems have n: "n = ServiceName desc" "ok desc (Some h)" "offers st n = None" by auto
  from register_new [OF Cons.prems(1) n(2)] n obtain st1 where st1:
    "register st desc (Some h) = Ret st1" "ready st1" "offers st1 = (offers st)(n \<mapsto> (served desc, h))"
    by auto
  have fresh: "n \<notin> fst ` set xs" using Cons.prems(2) x by auto
  have "\<forall>(n', desc, h) \<in> set xs. n' = ServiceName desc \<and> ok desc (Some h) \<and> offers st1 n' = None"
  proof (intro ballI)
    fix y assume y: "y \<in> set xs"
    obtain n' d' h' where y': "y = (n', d', h')" by (cases y)
    from y y' fresh have "n' \<noteq> n" by (force simp: image_iff)
    moreover from Cons.prems(3) y y' have "n' = ServiceName d' \<and> ok d' (Some h') \<and> offers st n' = None"
      by auto
    ultimately show "case y of (n', desc, h) \<Rightarrow>
        n' = ServiceName desc \<and> ok desc (Some h) \<and> offers st1 n' = None"
      using y' st1(3) by (auto simp del: not_None_eq)
  qed
  from Cons.IH [OF st1(2) _ this] Cons.prems(2) obtain st2 where st2:
    "for_each register xs st1 = Ret st2" "ready st2"
    "offers st2 = offers st1 ++ map_of (map (\<lambda>(n, desc, h). (n, served desc, h)) xs)"
    by auto
  from fresh have "map_of (map (\<lambda>(n, desc, h). (n, served desc, h)) xs) n = None"
    by (auto simp: map_of_eq_None_iff image_iff)
  with st1 st2 x show ?case
    by (simp add: fun_eq_iff map_add_def split: option.split)
qed

end

interpretation handler_map: registrar
    "RegisterService (implements :: 'h \<Rightarrow> string \<Rightarrow> bool) ::
       ('u, 'v, 'h) handler_map \<Rightarrow> ('u, 'v) service_desc \<Rightarrow> 'h option \<Rightarrow> ('u, 'v, 'h) handler_map go"
    hm_get "\<lambda>m. m \<noteq> None" "acceptable implements" "\<lambda>desc. desc"
proof unfold_locales
  fix m :: "('u, 'v, 'h) handler_map" and desc :: "('u, 'v) service_desc" and h
  assume "m \<noteq> None" "acceptable implements desc (Some h)" "hm_get m (ServiceName desc) = None"
  then show "\<exists>m'. RegisterService implements m desc (Some h) = Ret m' \<and> m' \<noteq> None \<and>
      hm_get m' = (hm_get m)(ServiceName desc \<mapsto> (desc, h))"
    using RegisterService_ok hm_get_RegisterService by (metis option.discI)
next
  fix m :: "('u, 'v, 'h) handler_map" and desc :: "('u, 'v) service_desc" and h
  assume "hm_get m (ServiceName desc) \<noteq> None"
  then show "panics (RegisterService implements m desc h)"
    by (simp add: RegisterService_panics_iff)
qed

text \<open>\<open>reg.ForEach(other.RegisterService)\<close>, whatever the order: a map replayed into an empty one
  answers every query alike.\<close>

lemma for_each_replay:
  fixes m :: "('u, 'v, 'h) handler_map"
  assumes "hm_inv implements m" and "iteration_order m xs"
  shows "\<exists>m'. for_each (RegisterService implements) xs (Some []) = Ret m' \<and> hm_get m' = hm_get m"
proof -
  have set_xs: "set xs = (case m of None \<Rightarrow> {} | Some l \<Rightarrow> set l)" and dist: "distinct (map fst xs)"
    using assms(2) by (simp_all add: iteration_order_def)
  have "\<forall>(n, desc, h) \<in> set xs. n = ServiceName desc \<and> acceptable implements desc (Some h) \<and>
      hm_get (Some [] :: ('u, 'v, 'h) handler_map) n = None"
    using assms(1) set_xs
    by (force simp: hm_inv_def acceptable_def hm_get_def split: option.splits)
  from handler_map.register_all [OF _ dist this] obtain m' where m':
    "for_each (RegisterService implements) xs (Some []) = Ret m'"
    "hm_get m' = hm_get (Some []) ++ map_of (map (\<lambda>(n, desc, h). (n, desc, h)) xs)"
    by auto
  have "map_of xs = hm_get m"
  proof (cases m)
    case None
    with set_xs show ?thesis by (simp add: hm_get_def fun_eq_iff)
  next
    case (Some l)
    with assms(1) have "distinct (map fst l)" by (simp add: hm_inv_def)
    from map_of_inject_set [OF dist this] set_xs Some show ?thesis
      by (simp add: hm_get_def fun_eq_iff)
  qed
  with m' show ?thesis by (auto simp: hm_get_def map_add_def case_prod_unfold fun_eq_iff split: option.splits)
qed

end
