(* ===== verification/Intercept_Server.thy ===== *)
theory Intercept_Server
  imports Intercept_Chain Handler_Map
begin

text \<open>
  Server-side interception of \<open>intercept.go\<close>.

  The generated handler of a unary method gets the service, the context and the decoding
  function (together \<open>'w\<close>), and the server's interceptor, which may be nil. The handler of a
  stream gets the service and the stream. \<open>grpc.UnaryServerInfo\<close> is built by the generated
  handler and is the parameter type \<open>'i\<close>; \<open>grpc.StreamServerInfo\<close> is built here.
\<close>

record stream_info =
  FullMethod :: string
  IsClientStream :: bool
  IsServerStream :: bool

type_synonym ('w, 'q, 'i, 'r) unary_method = "'w \<Rightarrow> ('q, 'i, 'r) unary_server_int option \<Rightarrow> 'r"

type_synonym ('w, 'q, 'i, 'r, 'h, 'x, 's) svc =
  "(('w, 'q, 'i, 'r) unary_method, ('h, 'x, 's) stream_handler) service_desc"

text \<open>The two handlers that \<open>InterceptServer\<close> puts in place of the original ones.\<close>

definition intercept_method ::
    "('q, 'i, 'r) unary_server_int \<Rightarrow> ('w, 'q, 'i, 'r) unary_method \<Rightarrow> ('w, 'q, 'i, 'r) unary_method" where
  "intercept_method unaryInt origHandler = (\<lambda>w interceptor.
     origHandler w (Some
       (case interceptor of
          None \<Rightarrow> unaryInt
        | Some i \<Rightarrow> (\<lambda>q info handler. i q info (\<lambda>q. unaryInt q info handler)))))"

definition intercept_stream ::
    "('h, 'x, stream_info, 's) stream_server_int \<Rightarrow> string \<Rightarrow>
     ('h, 'x, 's) stream_handler stream_desc \<Rightarrow> ('h, 'x, 's) stream_handler" where
  "intercept_stream streamInt service sd = (\<lambda>srv stream.
     streamInt srv stream
       \<lparr>FullMethod = ''/'' @ service @ ''/'' @ StreamName sd, IsClientStream = ClientStreams sd,
        IsServerStream = ServerStreams sd\<rparr>
       (sd_handler sd))"

definition InterceptServer ::
    "('w, 'q, 'i, 'r, 'h, 'x, 's) svc \<Rightarrow> ('q, 'i, 'r) unary_server_int option \<Rightarrow>
     ('h, 'x, stream_info, 's) stream_server_int option \<Rightarrow> ('w, 'q, 'i, 'r, 'h, 'x, 's) svc" where
  "InterceptServer svcDesc unaryInt streamInt =
     (let d1 = (case unaryInt of
                  None \<Rightarrow> svcDesc
                | Some u \<Rightarrow>
                    svcDesc\<lparr>Methods :=
                      map (\<lambda>md. \<lparr>MethodName = MethodName md,
                                 md_handler = intercept_method u (md_handler md)\<rparr>)
                        (Methods svcDesc)\<rparr>)
      in case streamInt of
           None \<Rightarrow> d1
         | Some s \<Rightarrow>
             d1\<lparr>Streams :=
               map (\<lambda>sd. \<lparr>StreamName = StreamName sd,
                          sd_handler = intercept_stream s (ServiceName svcDesc) sd,
                          ServerStreams = ServerStreams sd, ClientStreams = ClientStreams sd\<rparr>)
                 (Streams svcDesc)\<rparr>)"

text \<open>A registrar is the underlying one, or an \<open>*interceptingRegistry\<close> around a registrar.\<close>

datatype ('q, 'i, 'r, 'h, 'x, 's) registry =
    BaseRegistry
  | InterceptingRegistry "('q, 'i, 'r, 'h, 'x, 's) registry" "('q, 'i, 'r) unary_server_int option"
      "('h, 'x, stream_info, 's) stream_server_int option"

definition WithUnaryInterceptors ::
    "('q, 'i, 'r, 'h, 'x, 's) registry \<Rightarrow> ('q, 'i, 'r) unary_server_int list \<Rightarrow>
     ('q, 'i, 'r, 'h, 'x, 's) registry" where
  "WithUnaryInterceptors reg unaryInt =
     (if unaryInt = [] then reg
      else case reg of
             InterceptingRegistry reg' u s \<Rightarrow>
               InterceptingRegistry reg'
                 (Some (chainUnaryServer (case u of None \<Rightarrow> unaryInt | Some i \<Rightarrow> unaryInt @ [i]))) s
           | BaseRegistry \<Rightarrow> InterceptingRegistry reg (Some (chainUnaryServer unaryInt)) None)"

definition WithStreamInterceptors ::
    "('q, 'i, 'r, 'h, 'x, 's) registry \<Rightarrow> ('h, 'x, stream_info, 's) stream_server_int list \<Rightarrow>
     ('q, 'i, 'r, 'h, 'x, 's) registry" where
  "WithStreamInterceptors reg streamInt =
     (if streamInt = [] then reg
      else case reg of
             InterceptingRegistry reg' u s \<Rightarrow>
               InterceptingRegistry reg' u
                 (Some (chainStreamServer (case s of None \<Rightarrow> streamInt | Some i \<Rightarrow> streamInt @ [i])))
           | BaseRegistry \<Rightarrow> InterceptingRegistry reg None (Some (chainStreamServer streamInt)))"

definition WithInterceptor ::
    "('q, 'i, 'r, 'h, 'x, 's) registry \<Rightarrow> ('q, 'i, 'r) unary_server_int option \<Rightarrow>
     ('h, 'x, stream_info, 's) stream_server_int option \<Rightarrow> ('q, 'i, 'r, 'h, 'x, 's) registry" where
  "WithInterceptor reg unaryInt streamInt =
     (let r1 = (case unaryInt of None \<Rightarrow> reg | Some u \<Rightarrow> WithUnaryInterceptors reg [u])
      in case streamInt of None \<Rightarrow> r1 | Some s \<Rightarrow> WithStreamInterceptors r1 [s])"

text \<open>\<open>RegisterService\<close> of a registrar, over that of the underlying one.\<close>

fun registry_RegisterService ::
    "('st \<Rightarrow> ('w, 'q, 'i, 'r, 'h, 'x, 's) svc \<Rightarrow> 'h option \<Rightarrow> 'st go) \<Rightarrow>
     ('q, 'i, 'r, 'h, 'x, 's) registry \<Rightarrow> 'st \<Rightarrow> ('w, 'q, 'i, 'r, 'h, 'x, 's) svc \<Rightarrow> 'h option \<Rightarrow> 'st go" where
  "registry_RegisterService base BaseRegistry st desc srv = base st desc srv"
| "registry_RegisterService base (InterceptingRegistry reg u s) st desc srv =
     registry_RegisterService base reg st (InterceptServer desc u s) srv"

subsection \<open>What a registered service looks like\<close>

fun registry_served ::
    "('q, 'i, 'r, 'h, 'x, 's) registry \<Rightarrow> ('w, 'q, 'i, 'r, 'h, 'x, 's) svc \<Rightarrow> ('w, 'q, 'i, 'r, 'h, 'x, 's) svc" where
  "registry_served BaseRegistry desc = desc"
| "registry_served (InterceptingRegistry reg u s) desc = registry_served reg (InterceptServer desc u s)"

lemma InterceptServer_sel [simp]:
  "ServiceName (InterceptServer desc u s) = ServiceName desc"
  "HandlerType (InterceptServer desc u s) = HandlerType desc"
  "svc_metadata (InterceptServer desc u s) = svc_metadata desc"
  by (simp_all add: InterceptServer_def Let_def split: option.splits)

lemma InterceptServer_None [simp]: "InterceptServer desc None None = desc"
  by (simp add: InterceptServer_def)

lemma registry_served_sel [simp]:
  "ServiceName (registry_served reg desc) = ServiceName desc"
  "HandlerType (registry_served reg desc) = HandlerType desc"
  by (induction reg arbitrary: desc) simp_all

lemma registry_RegisterService_eq:
  "registry_RegisterService base reg st desc srv = base st (registry_served reg desc) srv"
  by (induction reg arbitrary: desc) simp_all

lemma acceptable_served [simp]:
  "acceptable implements (registry_served reg desc) h = acceptable implements desc h"
  by (simp add: acceptable_def)

text \<open>An intercepting registry in front of a handler map is a registrar, too.\<close>

type_synonym ('w, 'q, 'i, 'r, 'h, 'x, 's) svc_map =
  "(('w, 'q, 'i, 'r) unary_method, ('h, 'x, 's) stream_handler, 'h) handler_map"

interpretation intercepting: registrar
    "registry_RegisterService (RegisterService (implements :: 'h \<Rightarrow> string \<Rightarrow> bool))
       (reg :: ('q, 'i, 'r, 'h, 'x, 's) registry) :: ('w, 'q, 'i, 'r, 'h, 'x, 's) svc_map \<Rightarrow> _"
    hm_get "\<lambda>m. m \<noteq> None" "acceptable implements" "registry_served reg"
proof unfold_locales
  fix m :: "('w, 'q, 'i, 'r, 'h, 'x, 's) svc_map" and desc :: "('w, 'q, 'i, 'r, 'h, 'x, 's) svc" and h
  assume "m \<noteq> None" "acceptable implements desc (Some h)" "hm_get m (ServiceName desc) = None"
  then show "\<exists>m'. registry_RegisterService (RegisterService implements) reg m desc (Some h) = Ret m' \<and>
      m' \<noteq> None \<and> hm_get m' = (hm_get m)(ServiceName desc \<mapsto> (registry_served reg desc, h))"
    using handler_map.register_new [of m implements "registry_served reg desc" h]
    by (simp add: registry_RegisterService_eq)
next
  fix m :: "('w, 'q, 'i, 'r, 'h, 'x, 's) svc_map" and desc :: "('w, 'q, 'i, 'r, 'h, 'x, 's) svc" and h
  assume "hm_get m (ServiceName desc) \<noteq> None"
  then show "panics (registry_RegisterService (RegisterService implements) reg m desc h)"
    by (simp add: registry_RegisterService_eq RegisterService_panics_iff)
qed

subsection \<open>Dispatch\<close>

lemma chainUnaryServer_apply:
  "chainUnaryServer us q info k = foldr (\<lambda>u k q. u q info k) us k q"
  using unary_server.chain_wrap [of us "(info, k)"]
  by (simp add: foldr_unary_wrap) (simp add: unary_wrap_def fun_eq_iff)

lemma chainStreamServer_apply:
  "chainStreamServer ss h w info k = foldr (\<lambda>u k h w. u h w info k) ss k h w"
  using stream_server.chain_wrap [of ss "(info, k)"]
  by (simp add: foldr_stream_wrap) (simp add: stream_wrap_def fun_eq_iff)

lemma FindUnaryMethod_intercepted:
  "FindUnaryMethod n (Methods (InterceptServer desc u s)) =
     map_option (\<lambda>md. case u of None \<Rightarrow> md
       | Some i \<Rightarrow> \<lparr>MethodName = MethodName md, md_handler = intercept_method i (md_handler md)\<rparr>)
       (FindUnaryMethod n (Methods desc))"
proof -
  have "FindUnaryMethod n (map (\<lambda>md. \<lparr>MethodName = MethodName md, md_handler = g (md_handler md)\<rparr>) mds) =
      map_option (\<lambda>md. \<lparr>MethodName = MethodName md, md_handler = g (md_handler md)\<rparr>) (FindUnaryMethod n mds)"
    for g mds by (induction mds) auto
  then show ?thesis
    by (cases u; cases s) (simp_all add: InterceptServer_def Let_def option.map_ident)
qed

lemma FindStreamingMethod_intercepted:
  "FindStreamingMethod n (Streams (InterceptServer desc u s)) =
     map_option (\<lambda>sd. case s of None \<Rightarrow> sd
       | Some i \<Rightarrow> sd\<lparr>sd_handler := intercept_stream i (ServiceName desc) sd\<rparr>)
       (FindStreamingMethod n (Streams desc))"
proof -
  have "FindStreamingMethod n (map (\<lambda>sd. \<lparr>StreamName = StreamName sd, sd_handler = g sd,
        ServerStreams = ServerStreams sd, ClientStreams = ClientStreams sd\<rparr>) sds) =
      map_option (\<lambda>sd. sd\<lparr>sd_handler := g sd\<rparr>) (FindStreamingMethod n sds)"
    for g sds by (induction sds) auto
  then show ?thesis
    by (cases u; cases s) (simp_all add: InterceptServer_def Let_def option.map_ident)
qed

text \<open>Adding interceptors twice is adding them once, the later ones first.\<close>

lemma WithUnary_twice:
  "WithUnaryInterceptors (WithUnaryInterceptors reg js) is = WithUnaryInterceptors reg (is @ js)"
proof (cases "is = [] \<or> js = []")
  case True
  then show ?thesis by (cases reg) (auto simp: WithUnaryInterceptors_def split: option.splits)
next
  case False
  then show ?thesis
    by (cases reg) (auto simp: WithUnaryInterceptors_def unary_server.chain_append split: option.splits)
qed

lemma WithStream_twice:
  "WithStreamInterceptors (WithStreamInterceptors reg js) is = WithStreamInterceptors reg (is @ js)"
proof (cases "is = [] \<or> js = []")
  case True
  then show ?thesis by (cases reg) (auto simp: WithStreamInterceptors_def split: option.splits)
next
  case False
  then show ?thesis
    by (cases reg) (auto simp: WithStreamInterceptors_def stream_server.chain_append split: option.splits)
qed

end
