(* ===== verification/Inproc_Channel.thy ===== *)
theory Inproc_Channel
  imports Inproc_Rpc Transport_Stream Intercept_Server
begin

text \<open>
  The in-process \<open>Channel\<close> of \<open>inprocgrpc/in_process.go\<close>: its configuration, the server's
  context, and how a call finds its handler. \<open>NewStream\<close> ends in the start state of
  \<open>Inproc_Rpc\<close>, \<open>Invoke\<close> in that of a unary call.

  Of a context the model has the values that the code reads, and one function for all the others;
  cancellation is part of the states of a call.
\<close>

subsection \<open>Contexts\<close>

type_synonym inproc_peer = "string \<times> string"

datatype go_ctx = Ctx
  (cx_outgoing: "md option")
  (cx_incoming: "md option")
  (cx_peer: "inproc_peer option")
  (cx_value: "string \<Rightarrow> string option")
  (cx_client: "go_ctx option")

text \<open>\<open>noValuesContext\<close> answers every key with nil.\<close>

definition noValuesContext :: "go_ctx \<Rightarrow> go_ctx" where
  "noValuesContext ctx = Ctx None None None (\<lambda>_. None) None"

definition NewIncomingContext :: "md \<Rightarrow> go_ctx \<Rightarrow> go_ctx" where
  "NewIncomingContext meta ctx = Ctx (cx_outgoing ctx) (Some meta) (cx_peer ctx) (cx_value ctx) (cx_client ctx)"

definition peer_NewContext :: "inproc_peer \<Rightarrow> go_ctx \<Rightarrow> go_ctx" where
  "peer_NewContext p ctx = Ctx (cx_outgoing ctx) (cx_incoming ctx) (Some p) (cx_value ctx) (cx_client ctx)"

definition with_client_ctx :: "go_ctx \<Rightarrow> go_ctx \<Rightarrow> go_ctx" where
  "with_client_ctx client ctx =
     Ctx (cx_outgoing ctx) (cx_incoming ctx) (cx_peer ctx) (cx_value ctx) (Some client)"

definition NewOutgoingContext :: "md option \<Rightarrow> go_ctx \<Rightarrow> go_ctx" where
  "NewOutgoingContext out ctx = Ctx out (cx_incoming ctx) (cx_peer ctx) (cx_value ctx) (cx_client ctx)"

text \<open>The address and the authentication type of \<open>inprocessAddr\<close>.\<close>

definition inprocessPeer :: inproc_peer where "inprocessPeer = (''0'', ''inproc'')"

definition makeServerContext :: "go_ctx \<Rightarrow> go_ctx" where
  "makeServerContext ctx =
     (let newCtx = noValuesContext ctx;
          newCtx = (case cx_outgoing ctx of None \<Rightarrow> newCtx | Some meta \<Rightarrow> NewIncomingContext meta newCtx)
      in with_client_ctx ctx (peer_NewContext inprocessPeer newCtx))"

definition ClientContext :: "go_ctx \<Rightarrow> go_ctx option" where
  "ClientContext ctx = cx_client ctx"

lemma makeServerContext_sel [simp]:
  "cx_incoming (makeServerContext ctx) = cx_outgoing ctx" "cx_outgoing (makeServerContext ctx) = None"
  "cx_peer (makeServerContext ctx) = Some inprocessPeer" "cx_value (makeServerContext ctx) = (\<lambda>_. None)"
  "ClientContext (makeServerContext ctx) = Some ctx"
  by (simp_all add: makeServerContext_def noValuesContext_def NewIncomingContext_def peer_NewContext_def
      with_client_ctx_def ClientContext_def Let_def split: option.split)

subsection \<open>The channel\<close>

text \<open>What a unary handler does, given the error of its context when it looks: its calls on the
  transport stream, and an error or a response, \<open>None\<close> for a nil one.\<close>

type_synonym 'm unary_run = "goerr option \<Rightarrow> sts_call list \<times> (goerr + 'm option)"

type_synonym ('h, 'm) unary_args = "'h \<times> go_ctx \<times> ('m \<Rightarrow> goerr + 'm)"

text \<open>\<open>TagRPC\<close> of a stats handler, from the full method name and the context to the context that
  the rest of the call uses. It may change the context's values, not its cancellation.\<close>

type_synonym stats_tag = "string \<Rightarrow> go_ctx \<Rightarrow> go_ctx"

record ('q, 'i, 'h, 'm) inproc_channel =
  handlers :: "(('h, 'm) unary_args, 'q, 'i, 'm unary_run, 'h, go_ctx, 'm handler) svc_map"
  unaryInterceptor :: "('q, 'i, 'm unary_run) unary_server_int option"
  streamInterceptor :: "('h, go_ctx, stream_info, 'm handler) stream_server_int option"
  cloner :: "'m cloner option"
  clientStatsHandler :: stats_helper
  serverStatsHandler :: stats_helper
  clientTag :: stats_tag
  serverTag :: stats_tag

text \<open>The zero value.\<close>

definition zero_channel :: "('q, 'i, 'h, 'm) inproc_channel" where
  "zero_channel = \<lparr>handlers = None, unaryInterceptor = None, streamInterceptor = None, cloner = None,
     clientStatsHandler = None, serverStatsHandler = None, clientTag = \<lambda>_ ctx. ctx, serverTag = \<lambda>_ ctx. ctx\<rparr>"

definition ic_RegisterService ::
    "('h \<Rightarrow> string \<Rightarrow> bool) \<Rightarrow> ('q, 'i, 'h, 'm) inproc_channel \<Rightarrow>
     (('h, 'm) unary_args, 'q, 'i, 'm unary_run, 'h, go_ctx, 'm handler) svc \<Rightarrow> 'h option \<Rightarrow>
     ('q, 'i, 'h, 'm) inproc_channel go" where
  "ic_RegisterService implements c desc svr =
     (let m = (case handlers c of None \<Rightarrow> Some [] | Some l \<Rightarrow> Some l)
      in go_bind (RegisterService implements m desc svr) (\<lambda>m'. Ret (c\<lparr>handlers := m'\<rparr>)))"

definition ic_GetServiceInfo :: "('q, 'i, 'h, 'm) inproc_channel \<Rightarrow> (string \<times> service_info) list option" where
  "ic_GetServiceInfo c = (case handlers c of None \<Rightarrow> None | Some l \<Rightarrow> Some (GetServiceInfo (Some l)))"

definition WithServerUnaryInterceptor ::
    "('q, 'i, 'm unary_run) unary_server_int option \<Rightarrow> ('q, 'i, 'h, 'm) inproc_channel \<Rightarrow>
     ('q, 'i, 'h, 'm) inproc_channel" where
  "WithServerUnaryInterceptor i c = c\<lparr>unaryInterceptor := i\<rparr>"

definition WithServerStreamInterceptor ::
    "('h, go_ctx, stream_info, 'm handler) stream_server_int option \<Rightarrow> ('q, 'i, 'h, 'm) inproc_channel \<Rightarrow>
     ('q, 'i, 'h, 'm) inproc_channel" where
  "WithServerStreamInterceptor i c = c\<lparr>streamInterceptor := i\<rparr>"

definition WithCloner :: "'m cloner option \<Rightarrow> ('q, 'i, 'h, 'm) inproc_channel \<Rightarrow> ('q, 'i, 'h, 'm) inproc_channel" where
  "WithCloner cl c = c\<lparr>cloner := cl\<rparr>"

text \<open>The helper with a handler that is not nil; the events go to the states of a call.\<close>

definition WithServerStatsHandler ::
    "stats_tag \<Rightarrow> ('q, 'i, 'h, 'm) inproc_channel \<Rightarrow> ('q, 'i, 'h, 'm) inproc_channel" where
  "WithServerStatsHandler h c = c\<lparr>serverStatsHandler := Some False, serverTag := h\<rparr>"

definition WithClientStatsHandler ::
    "stats_tag \<Rightarrow> ('q, 'i, 'h, 'm) inproc_channel \<Rightarrow> ('q, 'i, 'h, 'm) inproc_channel" where
  "WithClientStatsHandler h c = c\<lparr>clientStatsHandler := Some True, clientTag := h\<rparr>"

text \<open>A context after \<open>if handler != nil { ctx = handler.tagRPC(ctx, method) }\<close>, and what both
  kinds of calls make of the client's context for the server's handler.\<close>

definition tagRPC :: "stats_helper \<Rightarrow> stats_tag \<Rightarrow> go_ctx \<Rightarrow> string \<Rightarrow> go_ctx" where
  "tagRPC sh tag ctx method = (case sh of None \<Rightarrow> ctx | Some _ \<Rightarrow> tag method ctx)"

definition server_context :: "('q, 'i, 'h, 'm) inproc_channel \<Rightarrow> string \<Rightarrow> go_ctx \<Rightarrow> go_ctx" where
  "server_context c method ctx =
     (let ctx = tagRPC (clientStatsHandler c) (clientTag c) ctx method
      in tagRPC (serverStatsHandler c) (serverTag c) (makeServerContext ctx) method)"

lemma server_context_untagged:
  "clientStatsHandler c = None \<Longrightarrow> serverStatsHandler c = None \<Longrightarrow>
   server_context c method ctx = makeServerContext ctx"
  by (simp add: server_context_def tagRPC_def)

text \<open>The channel is a registrar in its zero value, too.\<close>

interpretation inproc_channel: registrar
    "ic_RegisterService (implements :: 'h \<Rightarrow> string \<Rightarrow> bool) :: ('q, 'i, 'h, 'm) inproc_channel \<Rightarrow> _"
    "\<lambda>c. hm_get (handlers c)" "\<lambda>c. True" "acceptable implements" "\<lambda>desc. desc"
proof unfold_locales
  fix c :: "('q, 'i, 'h, 'm) inproc_channel"
    and desc :: "(('h, 'm) unary_args, 'q, 'i, 'm unary_run, 'h, go_ctx, 'm handler) svc" and h
  let ?m = "case handlers c of None \<Rightarrow> Some [] | Some l \<Rightarrow> Some l"
  have get: "hm_get ?m = hm_get (handlers c)" by (auto simp: hm_get_def fun_eq_iff split: option.splits)
  {
    assume "acceptable implements desc (Some h)" "hm_get (handlers c) (ServiceName desc) = None"
    moreover have "?m \<noteq> None" by (simp split: option.split)
    ultimately obtain m' where "RegisterService implements ?m desc (Some h) = Ret m'"
      "hm_get m' = (hm_get ?m)(ServiceName desc \<mapsto> (desc, h))"
      using handler_map.register_new [of ?m implements desc h] get by auto
    then show "\<exists>c'. ic_RegisterService implements c desc (Some h) = Ret c' \<and> True \<and>
        hm_get (handlers c') = (hm_get (handlers c))(ServiceName desc \<mapsto> (desc, h))"
      using get by (simp add: ic_RegisterService_def)
  next
    fix hopt
    assume "hm_get (handlers c) (ServiceName desc) \<noteq> None"
    then have "panics (RegisterService implements ?m desc hopt)"
      using handler_map.register_twice [of ?m desc implements hopt] get by simp
    then show "panics (ic_RegisterService implements c desc hopt)"
      by (cases "RegisterService implements ?m desc hopt") (simp_all add: ic_RegisterService_def Let_def)
  }
qed

subsection \<open>Dispatch\<close>

text \<open>The beginning of \<open>Invoke\<close> and \<open>NewStream\<close>: the method's name gets a leading slash, the
  credentials are applied, and the service and the method are taken apart. \<open>method[0]\<close> panics on
  an empty name, \<open>strs[1]\<close> on one without a second slash.\<close>

definition index_panic :: string where "index_panic = ''index out of range''"

definition full_method :: "string \<Rightarrow> string go" where
  "full_method method =
     (case method of
        [] \<Rightarrow> Panic index_panic
      | c # _ \<Rightarrow> Ret (if c \<noteq> CHR ''/'' then ''/'' @ method else method))"

definition split_method :: "string \<Rightarrow> (string \<times> string) go" where
  "split_method method =
     (case splitn2 CHR ''/'' (tl method) of
        [serviceName, methodName] \<Rightarrow> Ret (serviceName, methodName)
      | _ \<Rightarrow> Panic index_panic)"

definition no_service_err :: "string \<Rightarrow> goerr" where
  "no_service_err svc = status_error Unimplemented (''service '' @ svc @ '' not implemented'')"

definition no_method_err :: "string \<Rightarrow> string \<Rightarrow> goerr" where
  "no_method_err svc mth =
     status_error Unimplemented (''method '' @ svc @ ''/'' @ mth @ '' not implemented'')"

text \<open>Both functions share this shape; \<open>find\<close> is the lookup of the method.\<close>

definition dispatch ::
    "md_api \<Rightarrow> ('u, 'v, 'h) handler_map \<Rightarrow> (string \<Rightarrow> ('u, 'v) service_desc \<Rightarrow> 'd option) \<Rightarrow>
     go_ctx \<Rightarrow> string \<Rightarrow> call_options \<Rightarrow> (goerr + string \<times> go_ctx \<times> 'h \<times> 'd) go" where
  "dispatch api hm look ctx method copts =
     go_bind (full_method method) (\<lambda>method.
       case ApplyPerRPCCreds api (cx_outgoing ctx) copts (''inproc:0'' @ method) True of
         Inl err \<Rightarrow> Ret (Inl err)
       | Inr out \<Rightarrow>
           go_bind (split_method method) (\<lambda>(serviceName, methodName).
             case hm_get hm serviceName of
               None \<Rightarrow> Ret (Inl (no_service_err serviceName))
             | Some (sd, svr) \<Rightarrow>
                 (case look methodName sd of
                    None \<Rightarrow> Ret (Inl (no_method_err serviceName methodName))
                  | Some md \<Rightarrow> Ret (Inr (method, NewOutgoingContext out ctx, svr, md)))))"

text \<open>\<open>pc\<close> is \<open>ProtoCloner{}\<close>.\<close>

definition cloner_or :: "'m cloner \<Rightarrow> ('q, 'i, 'h, 'm) inproc_channel \<Rightarrow> 'm cloner" where
  "cloner_or pc c = (case cloner c of None \<Rightarrow> pc | Some cl \<Rightarrow> cl)"

text \<open>What \<open>NewStream\<close> starts, with the events that the two stats handlers get first and the cloner
  of the call. \<open>desc.ServerStreams\<close> is the client's view; the server's is in its own
  descriptor.\<close>

definition ic_NewStream ::
    "md_api \<Rightarrow> 'm cloner \<Rightarrow> ('q, 'i, 'h, 'm) inproc_channel \<Rightarrow> go_ctx \<Rightarrow> bool \<Rightarrow> string \<Rightarrow> call_option list \<Rightarrow>
     inproc_peer call_mem \<Rightarrow>
     ((goerr \<times> inproc_peer call_mem) +
      ('m cloner \<times> 'm rpc_stat list \<times> 'm rpc_stat list \<times> ('m, inproc_peer) rpc)) go" where
  "ic_NewStream api pc c ctx serverStreams method opts mem =
     (let copts = GetCallOptions opts;
          mem = SetPeer copts inprocessPeer mem
      in go_bind (dispatch api (handlers c) (\<lambda>n sd. FindStreamingMethod n (Streams sd)) ctx method copts)
         (\<lambda>found. case found of
            Inl err \<Rightarrow> Ret (Inl (err, mem))
          | Inr (method, ctx, svr, md) \<Rightarrow>
              (let svrCtx = server_context c method ctx;
                   info = \<lparr>FullMethod = method, IsClientStream = ClientStreams md, IsServerStream = ServerStreams md\<rparr>;
                   h = (case streamInterceptor c of
                          Some i \<Rightarrow> i svr svrCtx info (sd_handler md)
                        | None \<Rightarrow> sd_handler md svr svrCtx)
               in Ret (Inr (cloner_or pc c,
                    sh_begin (clientStatsHandler c) (ClientStreams md) (ServerStreams md),
                    sh_begin (serverStatsHandler c) (ClientStreams md) (ServerStreams md),
                    start_rpc serverStreams copts mem (clientStatsHandler c) (serverStatsHandler c) h)))))"

subsection \<open>Lemmas\<close>

text \<open>A method's name is callable when it has a slash beyond its first byte.\<close>

fun callable :: "string \<Rightarrow> bool" where
  "callable [] = False"
| "callable (c # s) = (CHR ''/'' \<in> set s)"

lemma split_method_panics: "panics (split_method m) \<longleftrightarrow> CHR ''/'' \<notin> set (tl m)"
proof -
  note splitn2_cases [of "tl m" "CHR ''/''"]
  then show ?thesis
  proof
    assume "\<exists>a b. tl m = a @ CHR ''/'' # b \<and> CHR ''/'' \<notin> set a \<and> splitn2 CHR ''/'' (tl m) = [a, b]"
    then obtain a b where "tl m = a @ CHR ''/'' # b" "splitn2 CHR ''/'' (tl m) = [a, b]" by blast
    then show ?thesis by (simp add: split_method_def)
  next
    assume "CHR ''/'' \<notin> set (tl m) \<and> splitn2 CHR ''/'' (tl m) = [tl m]"
    then show ?thesis by (simp add: split_method_def)
  qed
qed

lemma callable_split: "full_method m = Ret m' \<Longrightarrow> callable m \<longleftrightarrow> \<not> panics (split_method m')"
  by (cases m) (auto simp: full_method_def split_method_panics split: if_splits)

lemma full_method_panics: "panics (full_method m) \<longleftrightarrow> m = []"
  by (cases m) (simp_all add: full_method_def)

lemma not_panics_Ret: "\<not> panics x \<Longrightarrow> \<exists>v. x = Ret v"
  by (cases x) auto

text \<open>A well-formed name, with or without its leading slash.\<close>

lemma full_method_split:
  assumes "CHR ''/'' \<notin> set svc" and "svc \<noteq> []"
  shows "full_method (svc @ ''/'' @ mth) = Ret (''/'' @ svc @ ''/'' @ mth)"
    and "full_method (''/'' @ svc @ ''/'' @ mth) = Ret (''/'' @ svc @ ''/'' @ mth)"
    and "split_method (''/'' @ svc @ ''/'' @ mth) = Ret (svc, mth)"
proof -
  from assms obtain c cs where svc: "svc = c # cs" "c \<noteq> CHR ''/''" by (cases svc) auto
  then show "full_method (svc @ ''/'' @ mth) = Ret (''/'' @ svc @ ''/'' @ mth)" by (simp add: full_method_def)
  show "full_method (''/'' @ svc @ ''/'' @ mth) = Ret (''/'' @ svc @ ''/'' @ mth)"
    by (simp add: full_method_def)
  show "split_method (''/'' @ svc @ ''/'' @ mth) = Ret (svc, mth)"
    using assms(1) by (simp add: split_method_def)
qed

text \<open>When and how dispatch panics, and what it finds.\<close>

lemma dispatch_panics:
  assumes "ApplyPerRPCCreds api (cx_outgoing ctx) copts (''inproc:0'' @ m) True = Inr out"
    and "full_method method = Ret m"
  shows "panics (dispatch api hm look ctx method copts) \<longleftrightarrow> \<not> callable method"
proof (cases "split_method m")
  case (Panic p)
  then have "panics (split_method m)" by simp
  with callable_split [OF assms(2)] Panic assms show ?thesis by (simp add: dispatch_def)
next
  case (Ret x)
  then have "\<not> panics (split_method m)" by simp
  with callable_split [OF assms(2)] Ret assms show ?thesis
    by (cases x) (auto simp: dispatch_def split: option.splits)
qed

lemma dispatch_found:
  assumes "CHR ''/'' \<notin> set svc" and "svc \<noteq> []"
    and "method = svc @ ''/'' @ mth \<or> method = ''/'' @ svc @ ''/'' @ mth"
    and "ApplyPerRPCCreds api (cx_outgoing ctx) copts (''inproc:0/'' @ svc @ ''/'' @ mth) True = Inr out"
  shows "dispatch api hm look ctx method copts =
    Ret (case hm_get hm svc of
           None \<Rightarrow> Inl (no_service_err svc)
         | Some (sd, svr) \<Rightarrow>
             (case look mth sd of
                None \<Rightarrow> Inl (no_method_err svc mth)
              | Some md \<Rightarrow> Inr (''/'' @ svc @ ''/'' @ mth, NewOutgoingContext out ctx, svr, md)))"
proof -
  have "full_method method = Ret (''/'' @ svc @ ''/'' @ mth)"
    using assms(3) full_method_split [OF assms(1,2), of mth] by auto
  with assms(4) full_method_split(3) [OF assms(1,2), of mth] show ?thesis
    by (auto simp: dispatch_def split: option.splits)
qed

end
