(* ===== verification/Inproc_Unary.thy ===== *)
theory Inproc_Unary
  imports Inproc_Channel
begin

text \<open>
  A unary call over the in-process channel: \<open>Invoke\<close> of \<open>inprocgrpc/in_process.go\<close>, as a
  step relation between the client's loop and the server goroutine, which share one channel of
  frames and the context.

  The server's context answers \<open>Done\<close> and \<open>Err\<close> from the client's one. The handler runs in
  one step, since nothing that it does can be seen before its frames are written; that step gets
  the error of the context. Its goroutine then writes at most four frames, each in a
  \<open>select\<close> with the context's end, and ignores the results. When the client's loop returns, the
  stats handler gets the end of the call and the deferred \<open>cancel\<close> ends the context.
\<close>

subsection \<open>The state\<close>

text \<open>What the server writes for its handler's headers, trailers and outcome, and the final value
  of \<open>err\<close>.\<close>

definition no_response_err :: goerr where
  "no_response_err = status_error Internal ''handler returned neither error nor response message''"

definition unary_err :: "goerr + 'm option \<Rightarrow> goerr option" where
  "unary_err out = (case out of Inl e \<Rightarrow> Some e | Inr None \<Rightarrow> Some no_response_err | Inr (Some v) \<Rightarrow> None)"

definition unary_frames :: "sts_call list \<times> (goerr + 'm option) \<Rightarrow> 'm frame list" where
  "unary_frames run =
     (let (calls, out) = run;
          sts = snd (sts_run calls (new_unary_sts ''''));
          h = md_list (sts_GetHeaders sts); t = md_list (sts_GetTrailers sts)
      in (if h \<noteq> [] then [headers_frame h] else []) @
         (case out of Inr (Some v) \<Rightarrow> [data_frame v] | _ \<Rightarrow> []) @
         (if t \<noteq> [] then [trailers_frame t] else []) @
         (case unary_err out of Some e \<Rightarrow> [err_frame e] | None \<Rightarrow> []))"

datatype 'm usrv_pos =
    USHandler
  | USWrite "'m frame list" "goerr option"
  | USExited

datatype ucl_pos =
    ULoop bool
  | UReturned "goerr option"

record 'm ucall =
  u_srv :: "'m usrv_pos"
  u_cl :: ucl_pos
  u_ch :: "'m frame chan"
  u_ctx :: "goerr option"
  u_resp :: 'm
  u_mem :: "inproc_peer call_mem"
  u_cevents :: "'m rpc_stat list"
  u_sevents :: "'m rpc_stat list"
  u_caller :: "goerr option"
  u_run :: "(sts_call list \<times> (goerr + 'm option)) option"
  u_sent :: "'m frame list"
  u_got :: "'m frame list"

text \<open>The last four fields are history: the error of the context that the caller passed, what the
  handler did, and the frames put on and taken from the channel.\<close>

record 'm ucall_env =
  ue_cloner :: "'m cloner"
  ue_copts :: call_options
  ue_cstats :: stats_helper
  ue_sstats :: stats_helper
  ue_impl :: "'m unary_run"

definition start_ucall :: "'m ucall_env \<Rightarrow> 'm \<Rightarrow> 'm \<Rightarrow> inproc_peer call_mem \<Rightarrow> 'm ucall" where
  "start_ucall K req resp mem =
     \<lparr>u_srv = USHandler, u_cl = ULoop False, u_ch = new_chan, u_ctx = None, u_resp = resp, u_mem = mem,
      u_cevents = sh_begin (ue_cstats K) False False @ sh_outPayload (ue_cstats K) req,
      u_sevents = [], u_caller = None, u_run = None, u_sent = [], u_got = []\<rparr>"

text \<open>\<open>Invoke\<close>, up to the start of the goroutine; \<open>req\<close> is \<open>None\<close> for a nil message.\<close>

definition ic_Invoke ::
    "md_api \<Rightarrow> 'm cloner \<Rightarrow> ('q, 'i, 'h, 'm) inproc_channel \<Rightarrow> go_ctx \<Rightarrow> string \<Rightarrow> 'm option \<Rightarrow> 'm \<Rightarrow>
     call_option list \<Rightarrow> inproc_peer call_mem \<Rightarrow>
     ((goerr \<times> inproc_peer call_mem) + ('m ucall_env \<times> 'm ucall)) go" where
  "ic_Invoke api pc c ctx method req resp opts mem =
     (let copts = GetCallOptions opts;
          mem = SetPeer copts inprocessPeer mem
      in case req of
           None \<Rightarrow> Ret (Inl (status_error Internal ''request message is nil'', mem))
         | Some rq \<Rightarrow>
             go_bind (dispatch api (handlers c) (\<lambda>n sd. FindUnaryMethod n (Methods sd)) ctx method copts)
               (\<lambda>found. case found of
                  Inl err \<Rightarrow> Ret (Inl (err, mem))
                | Inr (method, ctx, svr, md) \<Rightarrow>
                    (let cl = cloner_or pc c;
                         codec = (\<lambda>out. Copy cl out rq);
                         K = \<lparr>ue_cloner = cl, ue_copts = copts, ue_cstats = clientStatsHandler c,
                              ue_sstats = serverStatsHandler c,
                              ue_impl = md_handler md (svr, server_context c method ctx, codec) (unaryInterceptor c)\<rparr>
                     in Ret (Inr (K, start_ucall K rq resp mem)))))"

subsection \<open>The client's loop\<close>

definition unexpected_response_err :: goerr where
  "unexpected_response_err = status_error Internal ''server sent unexpected response message''"

definition empty_frame_err :: goerr where
  "empty_frame_err = status_error Internal ''server sent empty frame''"

text \<open>The \<open>switch\<close> on a frame, for \<open>gotResponse\<close>, the response and the caller's variables.\<close>

type_synonym 'm uview = "bool \<times> 'm \<times> inproc_peer call_mem"

definition u_frame :: "'m ucall_env \<Rightarrow> 'm frame \<Rightarrow> 'm uview \<Rightarrow> goerr option \<times> 'm uview" where
  "u_frame K r view =
     (let (gotResponse, resp, mem) = view
      in case f_err r of
           Some e \<Rightarrow> (Some e, view)
         | None \<Rightarrow>
             (case f_data r of
                Some d \<Rightarrow>
                  if gotResponse then (Some unexpected_response_err, view)
                  else (case copy_to (ue_cloner K) resp d of
                          (Some e, v) \<Rightarrow> (Some e, (True, v, mem))
                        | (None, v) \<Rightarrow> (None, (True, v, mem)))
              | None \<Rightarrow>
                  (case f_headers r of
                     Some h \<Rightarrow> (None, (gotResponse, resp, SetHeaders (ue_copts K) h mem))
                   | None \<Rightarrow>
                       (case f_trailers r of
                          Some t \<Rightarrow> (None, (gotResponse, resp, SetTrailers (ue_copts K) t mem))
                        | None \<Rightarrow> (Some empty_frame_err, view)))))"

definition u_event :: "'m ucall_env \<Rightarrow> 'm frame \<Rightarrow> 'm rpc_stat list" where
  "u_event K r =
     (case f_data r of
        Some d \<Rightarrow> sh_inPayload (ue_cstats K) d
      | None \<Rightarrow>
          (case f_headers r of
             Some h \<Rightarrow> sh_inHeader (ue_cstats K) h
           | None \<Rightarrow> (case f_trailers r of Some t \<Rightarrow> sh_inTrailer (ue_cstats K) t | None \<Rightarrow> [])))"

definition u_return :: "'m ucall_env \<Rightarrow> goerr option \<Rightarrow> 'm ucall \<Rightarrow> 'm ucall" where
  "u_return K err s =
     s\<lparr>u_cl := UReturned err, u_cevents := u_cevents s @ sh_end (ue_cstats K) err,
       u_ctx := cancel_ctx (u_ctx s) CtxCanceled\<rparr>"

definition u_receive :: "'m ucall_env \<Rightarrow> bool \<Rightarrow> 'm frame \<Rightarrow> 'm ucall \<Rightarrow> 'm ucall" where
  "u_receive K gotResponse r s =
     (case u_frame K r (gotResponse, u_resp s, u_mem s) of
        (err, (got, resp, mem)) \<Rightarrow>
          (let s1 = s\<lparr>u_resp := resp, u_mem := mem\<rparr>
           in case err of
                Some e \<Rightarrow> u_return K (Some e) s1
              | None \<Rightarrow> s1\<lparr>u_cl := ULoop got, u_cevents := u_cevents s1 @ u_event K r\<rparr>))"

subsection \<open>Steps\<close>

inductive ucall_step :: "'m ucall_env \<Rightarrow> 'm ucall \<Rightarrow> 'm ucall \<Rightarrow> bool" for K where
  handle: "u_srv s = USHandler \<Longrightarrow> ue_impl K (u_ctx s) = (calls, out) \<Longrightarrow>
    ucall_step K s (s\<lparr>u_srv := USWrite (unary_frames (calls, out)) (unary_err out), u_run := Some (calls, out),
      u_sevents := u_sevents s @ sh_begin (ue_sstats K) False False\<rparr>)"
| write_frame: "u_srv s = USWrite (f # fs) err \<Longrightarrow>
    (w, ch) \<in> set (write_cases (u_ctx s) None (u_ch s) f) \<Longrightarrow> w \<noteq> WrPanic \<Longrightarrow>
    ucall_step K s (s\<lparr>u_srv := USWrite fs err, u_ch := ch,
      u_sent := (if w = Sent then u_sent s @ [f] else u_sent s)\<rparr>)"
| finish: "u_srv s = USWrite [] err \<Longrightarrow> close_chan (u_ch s) = Ret ch \<Longrightarrow>
    ucall_step K s (s\<lparr>u_srv := USExited, u_ch := ch, u_sevents := u_sevents s @ sh_end (ue_sstats K) err\<rparr>)"
| receive: "u_cl s = ULoop got \<Longrightarrow> buf (u_ch s) = f # fs \<Longrightarrow>
    ucall_step K s (u_receive K got f (s\<lparr>u_ch := (u_ch s)\<lparr>buf := fs\<rparr>, u_got := u_got s @ [f]\<rparr>))"
| no_more: "u_cl s = ULoop got \<Longrightarrow> buf (u_ch s) = [] \<Longrightarrow> closed (u_ch s) \<Longrightarrow>
    ucall_step K s (u_return K (if got then None else Some EOF) s)"
| ctx_done: "u_cl s = ULoop got \<Longrightarrow> u_ctx s = Some e \<Longrightarrow>
    ucall_step K s (u_return K (Some (TranslateContextError e)) s)"
| cancel: "e = CtxCanceled \<or> e = CtxDeadlineExceeded \<Longrightarrow>
    ucall_step K s (s\<lparr>u_ctx := cancel_ctx (u_ctx s) e, u_caller := cancel_ctx (u_caller s) e\<rparr>)"

inductive_cases ucall_stepE: "ucall_step K s s'"

definition ucall_reachable :: "'m ucall_env \<Rightarrow> 'm ucall \<Rightarrow> 'm ucall \<Rightarrow> bool" where
  "ucall_reachable K s0 s \<longleftrightarrow> (ucall_step K)\<^sup>*\<^sup>* s0 s"

text \<open>The server goroutine could panic on the channel: a write to it when closed, or a second
  close.\<close>

definition ucall_panics :: "'m ucall \<Rightarrow> bool" where
  "ucall_panics s \<longleftrightarrow>
     (case u_srv s of
        USWrite (f # fs) err \<Rightarrow> WrPanic \<in> fst ` set (write_cases (u_ctx s) None (u_ch s) f)
      | USWrite [] err \<Rightarrow> panics (close_chan (u_ch s))
      | _ \<Rightarrow> False)"

end
