(* ===== verification/Inproc_Unary_Safety.thy ===== *)
theory Inproc_Unary_Safety
  imports Inproc_Unary
begin

text \<open>
  Invariants of a unary call over the in-process channel, by induction on the steps; what the
  client's loop makes of the frames; and that the call can always be brought to its end.
\<close>

subsection \<open>The frames\<close>

fun u_frames :: "'m ucall_env \<Rightarrow> 'm frame list \<Rightarrow> 'm uview \<Rightarrow> goerr option \<times> 'm uview" where
  "u_frames K [] view = (None, view)"
| "u_frames K (f # fs) view =
     (case u_frame K f view of
        (Some e, view') \<Rightarrow> (Some e, view')
      | (None, view') \<Rightarrow> u_frames K fs view')"

lemma u_frames_append:
  "u_frames K (fs @ gs) view =
     (case u_frames K fs view of
        (Some e, view') \<Rightarrow> (Some e, view')
      | (None, view') \<Rightarrow> u_frames K gs view')"
  by (induction fs arbitrary: view) (auto split: prod.split option.split)

text \<open>The loop's result when it has got the frames and the channel is closed.\<close>

definition u_result ::
    "'m ucall_env \<Rightarrow> 'm frame list \<Rightarrow> 'm uview \<Rightarrow> goerr option \<times> 'm \<times> inproc_peer call_mem" where
  "u_result K fs view =
     (case u_frames K fs view of
        (Some e, (g, resp, mem)) \<Rightarrow> (Some e, resp, mem)
      | (None, (g, resp, mem)) \<Rightarrow> ((if g then None else Some EOF), resp, mem))"

lemma u_frame_simps [simp]:
  "u_frame K (err_frame e) view = (Some e, view)"
  "u_frame K (data_frame d) (g, resp, mem) =
     (if g then (Some unexpected_response_err, (g, resp, mem))
      else case copy_to (ue_cloner K) resp d of (e, v) \<Rightarrow> (e, (True, v, mem)))"
  "u_frame K (headers_frame h) (g, resp, mem) = (None, (g, resp, SetHeaders (ue_copts K) h mem))"
  "u_frame K (trailers_frame t) (g, resp, mem) = (None, (g, resp, SetTrailers (ue_copts K) t mem))"
  by (simp_all add: u_frame_def Let_def split: prod.split option.split)

text \<open>What the loop has got of a response came from a data frame.\<close>

lemma u_frame_None:
  assumes "u_frame K f (g, resp, mem) = (None, (g', resp', mem'))"
  shows "(g' = g \<and> resp' = resp) \<or>
    (\<not> g \<and> g' \<and> (\<exists>d. f_data f = Some d \<and> Copy (ue_cloner K) resp d = Inr resp'))"
  using assms by (auto simp: u_frame_def Let_def Copy_def copied_def split: option.splits prod.splits if_splits)

lemma u_frames_None:
  "u_frames K fs (g, resp, mem) = (None, (g', resp', mem')) \<Longrightarrow>
     (g' = g \<and> resp' = resp) \<or>
     (\<not> g \<and> g' \<and> (\<exists>f \<in> set fs. \<exists>d. f_data f = Some d \<and> Copy (ue_cloner K) resp d = Inr resp'))"
proof (induction fs arbitrary: g resp mem)
  case (Cons f fs)
  obtain e g1 resp1 mem1 where f: "u_frame K f (g, resp, mem) = (e, (g1, resp1, mem1))"
    by (cases "u_frame K f (g, resp, mem)") auto
  with Cons.prems have "e = None" "u_frames K fs (g1, resp1, mem1) = (None, (g', resp', mem'))"
    by (auto split: option.splits)
  with Cons.IH [OF this(2)] u_frame_None [of K f g resp mem g1 resp1 mem1] f show ?case by auto
qed simp

lemma unary_frames_data: "f \<in> set (unary_frames run) \<Longrightarrow> f_data f = Some d \<Longrightarrow> snd run = Inr (Some d)"
  by (cases run) (auto simp: unary_frames_def Let_def split: if_splits sum.splits option.splits)

text \<open>The result on all the frames of a call.\<close>

lemma u_result_frames:
  assumes "h = md_joined (call_headers calls)" and "t = md_joined (call_trailers calls)"
    and "mem1 = (if h \<noteq> [] then SetHeaders (ue_copts K) h mem else mem)"
    and "mem2 = (if t \<noteq> [] then SetTrailers (ue_copts K) t mem1 else mem1)"
  shows "u_result K (unary_frames (calls, out)) (False, resp, mem) =
    (case out of
       Inl e \<Rightarrow> (Some e, resp, mem2)
     | Inr None \<Rightarrow> (Some no_response_err, resp, mem2)
     | Inr (Some v) \<Rightarrow>
         (case copy_to (ue_cloner K) resp v of
            (Some e, x) \<Rightarrow> (Some e, x, mem1)
          | (None, x) \<Rightarrow> (None, x, mem2)))"
  using assms
  by (auto simp: u_result_def unary_frames_def unary_collected unary_err_def u_frames_append Let_def
      split: sum.split option.split prod.split)

subsection \<open>The invariant\<close>

definition ucall_srv_inv :: "'m ucall \<Rightarrow> bool" where
  "ucall_srv_inv s \<longleftrightarrow>
     u_sent s = u_got s @ buf (u_ch s) \<and>
     (case u_srv s of
        USHandler \<Rightarrow> u_sent s = [] \<and> \<not> closed (u_ch s) \<and> u_run s = None
      | USWrite fs err \<Rightarrow> \<not> closed (u_ch s) \<and>
          (\<exists>run pre. u_run s = Some run \<and> unary_frames run = pre @ fs \<and> subseq (u_sent s) pre \<and>
             (u_ctx s = None \<longrightarrow> u_sent s = pre))
      | USExited \<Rightarrow> closed (u_ch s) \<and>
          (\<exists>run. u_run s = Some run \<and> subseq (u_sent s) (unary_frames run) \<and>
             (u_ctx s = None \<longrightarrow> u_sent s = unary_frames run)))"

definition ucall_cl_inv :: "'m ucall_env \<Rightarrow> 'm uview \<Rightarrow> 'm ucall \<Rightarrow> bool" where
  "ucall_cl_inv K view s \<longleftrightarrow>
     (case u_cl s of
        ULoop g \<Rightarrow> u_frames K (u_got s) view = (None, (g, u_resp s, u_mem s)) \<and>
          (u_caller s = None \<longrightarrow> u_ctx s = None)
      | UReturned r \<Rightarrow> u_ctx s \<noteq> None \<and>
          (r = None \<longrightarrow> u_frames K (u_got s) view = (None, (True, u_resp s, u_mem s)) \<and> u_run s \<noteq> None) \<and>
          (u_caller s = None \<longrightarrow>
             (\<exists>run. u_run s = Some run \<and> u_result K (unary_frames run) view = (r, u_resp s, u_mem s))))"

lemma u_return_sel [simp]:
  "u_srv (u_return K r s) = u_srv s" "u_cl (u_return K r s) = UReturned r" "u_ch (u_return K r s) = u_ch s"
  "u_ctx (u_return K r s) \<noteq> None" "u_resp (u_return K r s) = u_resp s" "u_mem (u_return K r s) = u_mem s"
  "u_caller (u_return K r s) = u_caller s" "u_run (u_return K r s) = u_run s"
  "u_sent (u_return K r s) = u_sent s" "u_got (u_return K r s) = u_got s"
  by (simp_all add: u_return_def cancel_ctx_def split: option.split)

lemma u_receive_sel [simp]:
  "u_srv (u_receive K g f s) = u_srv s" "u_ch (u_receive K g f s) = u_ch s"
  "u_caller (u_receive K g f s) = u_caller s" "u_run (u_receive K g f s) = u_run s"
  "u_sent (u_receive K g f s) = u_sent s" "u_got (u_receive K g f s) = u_got s"
  by (auto simp: u_receive_def Let_def split: prod.split option.split)

lemma u_receive_ctx: "u_ctx (u_receive K g f s) = None \<Longrightarrow> u_ctx s = None"
  by (auto simp: u_receive_def Let_def split: prod.splits option.splits)

lemma cancel_ctx_not_None [simp]: "cancel_ctx c e \<noteq> None"
  by (simp add: cancel_ctx_def split: option.split)

lemma write_cases_sent:
  "(Sent, ch') \<in> set (write_cases e r ch f) \<Longrightarrow> ch' = ch\<lparr>buf := buf ch @ [f]\<rparr> \<and> \<not> closed ch"
  "(w, ch') \<in> set (write_cases e r ch f) \<Longrightarrow> w \<noteq> Sent \<Longrightarrow> ch' = ch"
  "(w, ch') \<in> set (write_cases e None ch f) \<Longrightarrow> w \<noteq> Sent \<Longrightarrow> w \<noteq> WrPanic \<Longrightarrow> e \<noteq> None"
  by (auto simp: write_cases_def split: if_splits)

lemma srv_inv_write:
  assumes "u_srv s = USWrite (f # fs) err" and "(w, ch) \<in> set (write_cases (u_ctx s) None (u_ch s) f)"
    and "w \<noteq> WrPanic" and "ucall_srv_inv s"
  shows "ucall_srv_inv (s\<lparr>u_srv := USWrite fs err, u_ch := ch,
      u_sent := (if w = Sent then u_sent s @ [f] else u_sent s)\<rparr>)"
proof -
  from assms(1,4) obtain run pre where run: "u_run s = Some run" "unary_frames run = pre @ f # fs"
    "subseq (u_sent s) pre" "u_ctx s = None \<longrightarrow> u_sent s = pre" and s: "u_sent s = u_got s @ buf (u_ch s)"
      "\<not> closed (u_ch s)"
    by (auto simp: ucall_srv_inv_def)
  have frames: "unary_frames run = (pre @ [f]) @ fs" using run(2) by simp
  show ?thesis
  proof (cases "w = Sent")
    case True
    with assms(2) have "ch = (u_ch s)\<lparr>buf := buf (u_ch s) @ [f]\<rparr>" using write_cases_sent(1) [of ch] by simp
    moreover have "subseq (u_sent s @ [f]) (pre @ [f])" using run(3) by simp
    ultimately show ?thesis
      unfolding ucall_srv_inv_def using True run(1,4) frames s by (auto intro!: exI [of _ "pre @ [f]"])
  next
    case False
    then have "ch = u_ch s" "u_ctx s \<noteq> None"
      using write_cases_sent(2,3) [OF assms(2)] assms(3) by auto
    moreover have "subseq (u_sent s) (pre @ [f])" using run(3) by (rule subseq_rev_drop_many)
    ultimately show ?thesis
      unfolding ucall_srv_inv_def using False run(1) frames s by (auto intro!: exI [of _ "pre @ [f]"])
  qed
qed

lemma srv_inv_step:
  assumes "ucall_step K s s'" and "ucall_srv_inv s"
  shows "ucall_srv_inv s'"
  using assms(1)
proof cases
  case (handle calls out)
  with assms(2) show ?thesis by (auto simp: ucall_srv_inv_def)
next
  case (write_frame f fs err w ch)
  with srv_inv_write [OF write_frame(2-4) assms(2)] show ?thesis by simp
next
  case (finish err ch)
  with assms(2) show ?thesis by (auto simp: ucall_srv_inv_def close_chan_def split: if_splits)
next
  case (receive got f fs)
  with assms(2) show ?thesis
    by (cases "u_srv s") (auto simp: ucall_srv_inv_def dest!: u_receive_ctx)
next
  case (no_more got)
  with assms(2) show ?thesis by (cases "u_srv s") (auto simp: ucall_srv_inv_def)
next
  case (ctx_done got e)
  with assms(2) show ?thesis by (cases "u_srv s") (auto simp: ucall_srv_inv_def)
next
  case (cancel e)
  with assms(2) show ?thesis by (cases "u_srv s") (auto simp: ucall_srv_inv_def)
qed

text \<open>A prefix of the frames on which the loop has returned decides the result.\<close>

lemma u_result_prefix:
  "u_frames K fs view = (Some e, (g, resp, mem)) \<Longrightarrow> u_result K (fs @ gs) view = (Some e, resp, mem)"
  by (simp add: u_result_def u_frames_append)

lemma sent_prefix:
  assumes "ucall_srv_inv s" and "u_ctx s = None" and "u_sent s \<noteq> []"
  obtains run fs where "u_run s = Some run" "unary_frames run = u_sent s @ fs"
  using assms that [of _ "[]"] by (cases "u_srv s") (fastforce simp: ucall_srv_inv_def)+

lemma cl_inv_receive:
  assumes "u_cl s = ULoop got" and "buf (u_ch s) = f # fs"
    and srv: "ucall_srv_inv s" and cl: "ucall_cl_inv K view s"
  shows "ucall_cl_inv K view (u_receive K got f (s\<lparr>u_ch := (u_ch s)\<lparr>buf := fs\<rparr>, u_got := u_got s @ [f]\<rparr>))"
proof -
  obtain r g resp mem where f: "u_frame K f (got, u_resp s, u_mem s) = (r, (g, resp, mem))"
    by (cases "u_frame K f (got, u_resp s, u_mem s)") auto
  from cl assms(1) have view: "u_frames K (u_got s) view = (None, (got, u_resp s, u_mem s))"
    and ctx: "u_caller s = None \<Longrightarrow> u_ctx s = None" by (auto simp: ucall_cl_inv_def)
  with f have got: "u_frames K (u_got s @ [f]) view = (r, (g, resp, mem))"
    by (simp add: u_frames_append split: option.split)
  show ?thesis
  proof (cases r)
    case None
    with f got ctx assms(1) show ?thesis by (simp add: ucall_cl_inv_def u_receive_def)
  next
    case (Some e)
    have "\<exists>run. u_run s = Some run \<and> u_result K (unary_frames run) view = (Some e, resp, mem)"
      if "u_caller s = None"
    proof -
      have sent: "u_sent s = (u_got s @ [f]) @ fs" using srv assms(2) by (simp add: ucall_srv_inv_def)
      then have "u_sent s \<noteq> []" by simp
      from sent_prefix [OF srv ctx [OF that] this] obtain run gs where
        "u_run s = Some run" "unary_frames run = (u_got s @ [f]) @ (fs @ gs)" unfolding sent by auto
      with u_result_prefix [OF got [unfolded Some]] show ?thesis by metis
    qed
    with f Some show ?thesis by (simp add: ucall_cl_inv_def u_receive_def)
  qed
qed

lemma cl_inv_no_more:
  assumes "u_cl s = ULoop got" and "buf (u_ch s) = []" and "closed (u_ch s)"
    and srv: "ucall_srv_inv s" and cl: "ucall_cl_inv K view s"
  shows "ucall_cl_inv K view (u_return K (if got then None else Some EOF) s)"
proof -
  from cl assms(1) have view: "u_frames K (u_got s) view = (None, (got, u_resp s, u_mem s))"
    and ctx: "u_caller s = None \<Longrightarrow> u_ctx s = None" by (auto simp: ucall_cl_inv_def)
  from srv assms(3) obtain run where run: "u_run s = Some run" "u_ctx s = None \<longrightarrow> u_sent s = unary_frames run"
    by (cases "u_srv s") (auto simp: ucall_srv_inv_def)
  have "u_sent s = u_got s" using srv assms(2) by (simp add: ucall_srv_inv_def)
  with run(2) view ctx have "u_caller s = None \<Longrightarrow> u_frames K (unary_frames run) view = (None, (got, u_resp s, u_mem s))"
    by simp
  with run(1) view show ?thesis by (auto simp: ucall_cl_inv_def u_result_def)
qed

lemma cl_inv_step:
  assumes "ucall_step K s s'" and "ucall_srv_inv s" and "ucall_cl_inv K view s"
  shows "ucall_cl_inv K view s'"
  using assms(1)
proof cases
  case (handle calls out)
  with assms(2,3) show ?thesis by (cases "u_cl s") (auto simp: ucall_cl_inv_def ucall_srv_inv_def)
next
  case (receive got f fs)
  with cl_inv_receive [OF receive(2,3) assms(2,3)] show ?thesis by simp
next
  case (no_more got)
  with cl_inv_no_more [OF no_more(2-4) assms(2,3)] show ?thesis by simp
next
  case (ctx_done got e)
  with assms(3) show ?thesis by (auto simp: ucall_cl_inv_def)
next
  case (cancel e)
  with assms(3) show ?thesis by (cases "u_cl s") (auto simp: ucall_cl_inv_def)
qed (use assms(3) in \<open>cases "u_cl s"; auto simp: ucall_cl_inv_def\<close>)+

lemma ucall_inv_reachable:
  assumes "ucall_reachable K (start_ucall K req resp mem) s"
  shows "ucall_srv_inv s \<and> ucall_cl_inv K (False, resp, mem) s"
  using assms unfolding ucall_reachable_def
proof (induction rule: rtranclp_induct)
  case base
  then show ?case by (simp add: start_ucall_def ucall_srv_inv_def ucall_cl_inv_def new_chan_def)
next
  case (step s s')
  then show ?case using srv_inv_step cl_inv_step by blast
qed

lemma srv_inv_no_panic: "ucall_srv_inv s \<Longrightarrow> \<not> ucall_panics s"
  by (auto simp: ucall_panics_def ucall_srv_inv_def write_cases_def close_chan_def
      split: usrv_pos.splits list.splits)

subsection \<open>What the handler was given, and all outcomes\<close>

definition ucall_run_inv :: "'m ucall_env \<Rightarrow> 'm ucall \<Rightarrow> bool" where
  "ucall_run_inv K s \<longleftrightarrow>
     (\<forall>run. u_run s = Some run \<longrightarrow>
        (\<exists>e. ue_impl K e = run) \<and> (u_caller s = None \<longrightarrow> ue_impl K None = run))"

lemma run_inv_step:
  assumes "ucall_step K s s'" and "ucall_srv_inv s" and "ucall_cl_inv K view s" and "ucall_run_inv K s"
  shows "ucall_run_inv K s'"
  using assms(1)
proof cases
  case (handle calls out)
  then have "u_run s = None" using assms(2) by (simp add: ucall_srv_inv_def)
  with assms(3) have "u_caller s = None \<Longrightarrow> u_ctx s = None"
    by (cases "u_cl s") (auto simp: ucall_cl_inv_def)
  with handle show ?thesis by (auto simp: ucall_run_inv_def)
qed (use assms(4) in \<open>auto simp: ucall_run_inv_def\<close>)

text \<open>At most one data frame gets through.\<close>

lemma subseq_one_data:
  assumes "subseq fs (unary_frames run)"
  shows "length (filter (\<lambda>f. f_data f \<noteq> None) fs) \<le> 1"
proof -
  have "subseq (filter (\<lambda>f. f_data f \<noteq> None) fs) (filter (\<lambda>f. f_data f \<noteq> None) (unary_frames run))"
    using assms by (rule subseq_filter)
  moreover have "length (filter (\<lambda>f. f_data f \<noteq> None) (unary_frames run)) \<le> 1"
    by (cases run) (auto simp: unary_frames_def Let_def split: sum.split option.split)
  ultimately show ?thesis using list_emb_length le_trans by blast
qed

lemma sent_subseq:
  assumes "ucall_srv_inv s" and "u_sent s \<noteq> []"
  obtains run where "u_run s = Some run" "subseq (u_sent s) (unary_frames run)"
proof (cases "u_srv s")
  case (USWrite fs err)
  with assms(1) obtain run pre where "u_run s = Some run" "unary_frames run = pre @ fs" "subseq (u_sent s) pre"
    by (auto simp: ucall_srv_inv_def)
  with that [of run] show ?thesis by (simp add: subseq_rev_drop_many)
qed (use assms that in \<open>auto simp: ucall_srv_inv_def\<close>)

lemma set_subseq: "subseq xs ys \<Longrightarrow> set xs \<subseteq> set ys"
  by (auto elim: list_emb_set)

text \<open>A frame that ends the loop is the handler's error or cannot be copied.\<close>

lemma u_frame_Some:
  assumes "u_frame K f (g, resp, mem) = (Some e, view')" and "f \<in> set (unary_frames run)"
    and "g \<longrightarrow> f_data f = None"
  shows "unary_err (snd run) = Some e \<or> (\<exists>v. snd run = Inr (Some v) \<and> \<not> g \<and> Copy (ue_cloner K) resp v = Inl e)"
proof -
  obtain calls out where run: "run = (calls, out)" by (cases run)
  have "f_err f = None \<or> f_err f = unary_err out" "f_data f = None \<or> out = Inr (f_data f)"
    "f_err f \<noteq> None \<or> f_data f \<noteq> None \<or> f_headers f \<noteq> None \<or> f_trailers f \<noteq> None"
    using assms(2) unfolding run
    by (auto simp: unary_frames_def Let_def split: if_splits sum.splits option.splits)
  with assms(1,3) show ?thesis
    by (auto simp: run u_frame_def Let_def Copy_def copied_def split: option.splits prod.splits if_splits)
qed

text \<open>What \<open>Invoke\<close> returns on its handler's outcome, and the response after it.\<close>

definition unary_returns :: "'m ucall_env \<Rightarrow> 'm \<Rightarrow> goerr + 'm option \<Rightarrow> goerr option \<Rightarrow> 'm \<Rightarrow> bool" where
  "unary_returns K resp out r x \<longleftrightarrow>
     (case r of
        None \<Rightarrow> \<exists>v. out = Inr (Some v) \<and> Copy (ue_cloner K) resp v = Inr x
      | Some e \<Rightarrow> unary_err out = Some e \<or> (\<exists>v. out = Inr (Some v) \<and> Copy (ue_cloner K) resp v = Inl e))"

definition ucall_outcome :: "'m ucall_env \<Rightarrow> 'm \<Rightarrow> 'm ucall \<Rightarrow> bool" where
  "ucall_outcome K resp s \<longleftrightarrow>
     (\<forall>r. u_cl s = UReturned r \<longrightarrow>
        (\<exists>calls out. u_run s = Some (calls, out) \<and> unary_returns K resp out r (u_resp s)) \<or>
        (u_caller s \<noteq> None \<and>
         r \<in> {Some EOF, Some (TranslateContextError CtxCanceled), Some (TranslateContextError CtxDeadlineExceeded)}))"

text \<open>The context's error is one of two.\<close>

definition ucall_ctx_inv :: "'m ucall \<Rightarrow> bool" where
  "ucall_ctx_inv s \<longleftrightarrow> u_ctx s \<in> {None, Some CtxCanceled, Some CtxDeadlineExceeded}"

lemma cancel_ctx_in:
  "c \<in> {None, Some CtxCanceled, Some CtxDeadlineExceeded} \<Longrightarrow> e = CtxCanceled \<or> e = CtxDeadlineExceeded \<Longrightarrow>
   cancel_ctx c e \<in> {None, Some CtxCanceled, Some CtxDeadlineExceeded}"
  by (auto simp: cancel_ctx_def)

lemma ctx_inv_step: "ucall_step K s s' \<Longrightarrow> ucall_ctx_inv s \<Longrightarrow> ucall_ctx_inv s'"
proof (induction rule: ucall_step.induct)
  case (receive s got f fs)
  then show ?case
    by (auto simp: ucall_ctx_inv_def u_receive_def u_return_def cancel_ctx_def Let_def
        split: prod.split option.split)
next
  case (no_more s got)
  then show ?case by (auto simp: ucall_ctx_inv_def u_return_def cancel_ctx_def)
next
  case (ctx_done s got e)
  then show ?case by (auto simp: ucall_ctx_inv_def u_return_def cancel_ctx_def)
next
  case (cancel e s)
  then show ?case by (auto simp: ucall_ctx_inv_def cancel_ctx_def)
qed (simp_all add: ucall_ctx_inv_def)

lemma outcome_receive:
  assumes loop: "u_cl s = ULoop got" and buf: "buf (u_ch s) = f # fs"
    and srv: "ucall_srv_inv s" and cl: "ucall_cl_inv K (False, resp, mem) s"
  shows "ucall_outcome K resp (u_receive K got f (s\<lparr>u_ch := (u_ch s)\<lparr>buf := fs\<rparr>, u_got := u_got s @ [f]\<rparr>))"
proof -
  obtain r g resp1 mem1 where f: "u_frame K f (got, u_resp s, u_mem s) = (r, (g, resp1, mem1))"
    by (cases "u_frame K f (got, u_resp s, u_mem s)") auto
  show ?thesis
  proof (cases r)
    case None
    with f show ?thesis by (simp add: ucall_outcome_def u_receive_def)
  next
    case (Some e)
    from cl loop have view: "u_frames K (u_got s) (False, resp, mem) = (None, (got, u_resp s, u_mem s))"
      by (simp add: ucall_cl_inv_def)
    have sent: "u_sent s = u_got s @ f # fs" using srv buf by (simp add: ucall_srv_inv_def)
    then have "u_sent s \<noteq> []" by simp
    then obtain run where run: "u_run s = Some run" "subseq (u_sent s) (unary_frames run)"
      by (rule sent_subseq [OF srv])
    have "set (u_sent s) \<subseteq> set (unary_frames run)" using run(2) by (rule set_subseq)
    then have fin: "f \<in> set (unary_frames run)" using sent by auto
    have one: "got \<longrightarrow> f_data f = None"
    proof
      assume got
      with u_frames_None [OF view] obtain f' where "f' \<in> set (u_got s)" "f_data f' \<noteq> None" by auto
      then have "filter (\<lambda>f. f_data f \<noteq> None) (u_got s) \<noteq> []" by (auto simp: filter_empty_conv)
      with subseq_one_data [OF run(2)] sent show "f_data f = None"
        by (cases "f_data f") (auto simp: Suc_le_eq)
    qed
    have "\<not> got \<Longrightarrow> u_resp s = resp" using u_frames_None [OF view] by auto
    with u_frame_Some [OF f [unfolded Some] fin one] have
      "unary_err (snd run) = Some e \<or> (\<exists>v. snd run = Inr (Some v) \<and> Copy (ue_cloner K) resp v = Inl e)" by auto
    with f Some run(1) show ?thesis
      by (cases run) (auto simp: ucall_outcome_def unary_returns_def u_receive_def)
  qed
qed

lemma outcome_no_more:
  assumes loop: "u_cl s = ULoop got" and buf: "buf (u_ch s) = []" "closed (u_ch s)"
    and srv: "ucall_srv_inv s" and cl: "ucall_cl_inv K (False, resp, mem) s"
  shows "ucall_outcome K resp (u_return K (if got then None else Some EOF) s)"
proof -
  from cl loop have view: "u_frames K (u_got s) (False, resp, mem) = (None, (got, u_resp s, u_mem s))"
    and ctx: "u_caller s = None \<Longrightarrow> u_ctx s = None" by (auto simp: ucall_cl_inv_def)
  have sent: "u_sent s = u_got s" using srv buf by (simp add: ucall_srv_inv_def)
  from srv buf(2) obtain calls out where run: "u_run s = Some (calls, out)"
    "subseq (u_sent s) (unary_frames (calls, out))" "u_ctx s = None \<longrightarrow> u_sent s = unary_frames (calls, out)"
    by (cases "u_srv s") (auto simp: ucall_srv_inv_def)
  show ?thesis
  proof (cases got)
    case True
    with u_frames_None [OF view] obtain f d where d: "f \<in> set (u_got s)" "f_data f = Some d"
      "Copy (ue_cloner K) resp d = Inr (u_resp s)" by auto
    have "f \<in> set (unary_frames (calls, out))" using run(2) d(1) sent set_subseq by fastforce
    with unary_frames_data [OF this d(2)] d(3) run(1) True show ?thesis
      by (auto simp: ucall_outcome_def unary_returns_def)
  next
    case False
    have "u_caller s \<noteq> None"
    proof
      assume "u_caller s = None"
      with ctx run(3) sent have "u_got s = unary_frames (calls, out)" by simp
      with view False have "u_result K (unary_frames (calls, out)) (False, resp, mem) = (Some EOF, u_resp s, u_mem s) \<and>
          fst (u_frames K (unary_frames (calls, out)) (False, resp, mem)) = None" by (simp add: u_result_def)
      then show False
        using view False \<open>u_got s = unary_frames (calls, out)\<close>
        by (auto simp: unary_frames_def u_frames_append unary_err_def Let_def
            split: sum.splits option.splits prod.splits if_splits)
    qed
    with False show ?thesis by (simp add: ucall_outcome_def)
  qed
qed

lemma outcome_step:
  assumes "ucall_step K s s'" and "ucall_srv_inv s" and "ucall_cl_inv K (False, resp, mem) s"
    and "ucall_ctx_inv s" and "ucall_outcome K resp s"
  shows "ucall_outcome K resp s'"
  using assms(1)
proof cases
  case (handle calls out)
  then have "u_run s = None" using assms(2) by (simp add: ucall_srv_inv_def)
  with handle assms(5) show ?thesis by (auto simp: ucall_outcome_def)
next
  case (receive got f fs)
  with outcome_receive [OF receive(2,3) assms(2,3)] show ?thesis by simp
next
  case (no_more got)
  with outcome_no_more [OF no_more(2-4) assms(2,3)] show ?thesis by simp
next
  case (ctx_done got e)
  then have "u_caller s \<noteq> None" using assms(3) by (auto simp: ucall_cl_inv_def)
  with ctx_done assms(4) show ?thesis by (auto simp: ucall_outcome_def ucall_ctx_inv_def)
next
  case (cancel e)
  with assms(5) show ?thesis by (auto simp: ucall_outcome_def)
qed (use assms(5) in \<open>auto simp: ucall_outcome_def\<close>)

lemma outcome_reachable:
  assumes "ucall_reachable K (start_ucall K req resp mem) s"
  shows "ucall_run_inv K s \<and> ucall_outcome K resp s"
proof -
  have "ucall_srv_inv s \<and> ucall_cl_inv K (False, resp, mem) s \<and> ucall_ctx_inv s \<and> ucall_run_inv K s \<and>
      ucall_outcome K resp s"
    using assms unfolding ucall_reachable_def
  proof (induction rule: rtranclp_induct)
    case base
    have "ucall_reachable K (start_ucall K req resp mem) (start_ucall K req resp mem)"
      by (simp add: ucall_reachable_def)
    from ucall_inv_reachable [OF this] show ?case
      by (simp add: ucall_ctx_inv_def ucall_run_inv_def ucall_outcome_def start_ucall_def)
  next
    case (step s s')
    then have "ucall_srv_inv s" "ucall_cl_inv K (False, resp, mem) s" "ucall_ctx_inv s" "ucall_run_inv K s"
      "ucall_outcome K resp s" by simp_all
    note inv = this
    show ?case
      using srv_inv_step [OF step.hyps(2) inv(1)] cl_inv_step [OF step.hyps(2) inv(1,2)]
        ctx_inv_step [OF step.hyps(2) inv(3)] run_inv_step [OF step.hyps(2) inv(1,2,4)]
        outcome_step [OF step.hyps(2) inv(1,2,3,5)] by simp
  qed
  then show ?thesis by blast
qed

subsection \<open>To the end\<close>

definition ucall_over :: "'m ucall \<Rightarrow> bool" where
  "ucall_over s \<longleftrightarrow> u_srv s = USExited \<and> (\<exists>r. u_cl s = UReturned r)"

fun srv_left :: "'m usrv_pos \<Rightarrow> nat" where
  "srv_left USHandler = 11"
| "srv_left (USWrite fs err) = 2 * length fs + 1"
| "srv_left USExited = 0"

definition ucall_left :: "'m ucall \<Rightarrow> nat" where
  "ucall_left s = srv_left (u_srv s) + length (buf (u_ch s)) + (case u_cl s of ULoop g \<Rightarrow> 1 | UReturned r \<Rightarrow> 0)"

lemma unary_frames_length: "length (unary_frames run) \<le> 4"
  by (cases run) (auto simp: unary_frames_def Let_def split: sum.split option.split)

text \<open>Some goroutine can always take a step of its own.\<close>

lemma ucall_progress:
  assumes "ucall_srv_inv s" and "ucall_cl_inv K view s" and "\<not> ucall_over s"
  shows "\<exists>s'. ucall_step K s s' \<and> ucall_left s' < ucall_left s \<and> u_caller s' = u_caller s"
proof (cases "u_srv s")
  case USHandler
  obtain calls out where "ue_impl K (u_ctx s) = (calls, out)" by (cases "ue_impl K (u_ctx s)")
  note step = handle [OF USHandler this]
  show ?thesis
    by (rule exI, rule conjI [OF step])
      (use unary_frames_length [of "(calls, out)"] USHandler in \<open>simp add: ucall_left_def\<close>)
next
  case (USWrite fs err)
  then have open_ch: "\<not> closed (u_ch s)" using assms(1) by (simp add: ucall_srv_inv_def)
  show ?thesis
  proof (cases fs)
    case Nil
    with open_ch have "close_chan (u_ch s) = Ret ((u_ch s)\<lparr>closed := True\<rparr>)" by (simp add: close_chan_def)
    note step = finish [OF USWrite [unfolded Nil] this]
    show ?thesis
      by (rule exI, rule conjI [OF step]) (use USWrite Nil in \<open>simp add: ucall_left_def\<close>)
  next
    case (Cons f fs')
    note pos = USWrite [unfolded Cons]
    show ?thesis
    proof (cases "buf (u_ch s)")
      case Nil
      with open_ch have "(Sent, (u_ch s)\<lparr>buf := [f]\<rparr>) \<in> set (write_cases (u_ctx s) None (u_ch s) f)"
        by (simp add: write_cases_def chan_cap_def)
      note step = write_frame [OF pos this]
      show ?thesis
        by (rule exI, rule conjI [OF step]) (use pos Nil in \<open>simp_all add: ucall_left_def\<close>)
    next
      case buf: (Cons g gs)
      show ?thesis
      proof (cases "u_cl s")
        case (ULoop got)
        note step = receive [OF ULoop buf]
        show ?thesis
          by (rule exI, rule conjI [OF step]) (use buf ULoop in \<open>simp add: ucall_left_def split: ucl_pos.split\<close>)
      next
        case (UReturned r)
        then have "u_ctx s \<noteq> None" using assms(2) by (simp add: ucall_cl_inv_def)
        then have "(WrDone, u_ch s) \<in> set (write_cases (u_ctx s) None (u_ch s) f)" by (simp add: write_cases_def)
        note step = write_frame [OF pos this]
        show ?thesis
          by (rule exI, rule conjI [OF step]) (use pos in \<open>simp_all add: ucall_left_def\<close>)
      qed
    qed
  qed
next
  case USExited
  with assms(1) have ch: "closed (u_ch s)" by (simp add: ucall_srv_inv_def)
  from USExited assms(3) obtain got where loop: "u_cl s = ULoop got" by (cases "u_cl s") (auto simp: ucall_over_def)
  show ?thesis
  proof (cases "buf (u_ch s)")
    case Nil
    note step = no_more [OF loop Nil ch]
    show ?thesis
      by (rule exI, rule conjI [OF step]) (use loop in \<open>simp add: ucall_left_def\<close>)
  next
    case buf: (Cons g gs)
    note step = receive [OF loop buf]
    show ?thesis
      by (rule exI, rule conjI [OF step]) (use buf loop in \<open>simp add: ucall_left_def split: ucl_pos.split\<close>)
  qed
qed

lemma ucall_finishes:
  assumes "ucall_srv_inv s" and "ucall_cl_inv K view s"
  shows "\<exists>s'. ucall_reachable K s s' \<and> ucall_over s' \<and> u_caller s' = u_caller s"
  using assms
proof (induction "ucall_left s" arbitrary: s rule: less_induct)
  case less
  show ?case
  proof (cases "ucall_over s")
    case True
    then show ?thesis by (auto simp: ucall_reachable_def)
  next
    case False
    from ucall_progress [OF less.prems this] obtain s1 where
      s1: "ucall_step K s s1" "ucall_left s1 < ucall_left s" "u_caller s1 = u_caller s" by blast
    from less.hyps [OF s1(2) srv_inv_step [OF s1(1) less.prems(1)] cl_inv_step [OF s1(1) less.prems]]
    obtain s' where "ucall_reachable K s1 s'" "ucall_over s'" "u_caller s' = u_caller s1" by blast
    with s1 show ?thesis
      unfolding ucall_reachable_def by (metis converse_rtranclp_into_rtranclp)
  qed
qed

end
