(* ===== verification/Inproc_Unary_Properties.thy ===== *)
theory Inproc_Unary_Properties
  imports Inproc_Unary_Safety Inproc_Properties
begin

text \<open>
  The properties of unary calls over the in-process channel and of its dispatch, with a concrete
  service for the witnesses.
\<close>

subsection \<open>A concrete service\<close>

definition square_sd ::
    "((unit, nat) unary_args, unit, unit, nat unary_run, unit, go_ctx, nat handler) svc" where
  "square_sd =
     \<lparr>ServiceName = ''svc'', HandlerType = Some ''Squares'',
      Methods = [\<lparr>MethodName = ''Square'',
        md_handler = (\<lambda>(svr, ctx, dec) interceptor e.
          case dec 0 of
            Inl err \<Rightarrow> ([], Inl err)
          | Inr x \<Rightarrow> ([CSetHeader [(''h'', [''1''])], CSetTrailer [(''t'', [''2''])]], Inr (Some (x * x))))\<rparr>],
      Streams = [], svc_metadata = ''''\<rparr>"

definition square_ic :: "(unit, unit, unit, nat) inproc_channel" where
  "square_ic = zero_channel\<lparr>handlers := Some [(''svc'', square_sd, ())]\<rparr>"

definition square_ctx :: go_ctx where
  "square_ctx = Ctx (Some [(''k'', [''v''])]) None None (\<lambda>_. None) None"

definition square_api :: md_api where
  "square_api = \<lparr>md_New = (\<lambda>_. []), md_Join = concat\<rparr>"

definition square_mem :: "inproc_peer call_mem" where
  "square_mem = \<lparr>md_at = (\<lambda>_. []), peer_at = (\<lambda>_. ('''', ''''))\<rparr>"

definition square_call :: "nat ucall_env \<times> nat ucall" where
  "square_call = (case ic_Invoke square_api (CodecCloner nat_env nat_codec) square_ic square_ctx ''/svc/Square''
     (Some 3) 0 [HeaderCallOption 0, TrailerCallOption 1] square_mem of
       Ret (Inr x) \<Rightarrow> x)"

lemma square_registered:
  "ic_RegisterService (\<lambda>_ _. True) zero_channel square_sd (Some ()) = Ret square_ic"
  by (simp add: ic_RegisterService_def RegisterService_def zero_channel_def square_sd_def square_ic_def
      hm_get_def)

lemma square_invoked:
  "ic_Invoke square_api (CodecCloner nat_env nat_codec) square_ic square_ctx ''/svc/Square''
     (Some 3) 0 [HeaderCallOption 0, TrailerCallOption 1] square_mem = Ret (Inr (fst square_call, snd square_call))"
  by (simp add: square_call_def ic_Invoke_def dispatch_def full_method_def split_method_def splitn2_def
      square_ic_def zero_channel_def hm_get_def square_sd_def ApplyPerRPCCreds_def GetCallOptions_def
      no_call_options_def Let_def)

subsection \<open>Dispatch\<close>

lemma panics_go_bind: "panics x \<Longrightarrow> panics (go_bind x f)"
  by (cases x) simp_all

lemma Invoke_found:
  assumes "full_method method = Ret m"
    and "ApplyPerRPCCreds api (cx_outgoing ctx) (GetCallOptions opts) (''inproc:0'' @ m) True = Inr out"
    and "split_method m = Ret (svc, mth)"
  shows "ic_Invoke api pc c ctx method (Some req) resp opts mem =
    Ret (let mem = SetPeer (GetCallOptions opts) inprocessPeer mem;
             svrCtx = server_context c m (NewOutgoingContext out ctx)
         in case hm_get (handlers c) svc of
              None \<Rightarrow> Inl (no_service_err svc, mem)
            | Some (sd, svr) \<Rightarrow>
                (case FindUnaryMethod mth (Methods sd) of
                   None \<Rightarrow> Inl (no_method_err svc mth, mem)
                 | Some md \<Rightarrow>
                     (let K = \<lparr>ue_cloner = cloner_or pc c, ue_copts = GetCallOptions opts,
                          ue_cstats = clientStatsHandler c, ue_sstats = serverStatsHandler c,
                          ue_impl = md_handler md (svr, svrCtx, \<lambda>x. Copy (cloner_or pc c) x req)
                            (unaryInterceptor c)\<rparr>
                      in Inr (K, start_ucall K req resp mem))))"
proof (cases "hm_get (handlers c) svc")
  case None
  with assms show ?thesis by (simp add: ic_Invoke_def dispatch_def Let_def)
next
  case (Some x)
  with assms show ?thesis
    by (cases x; cases "FindUnaryMethod mth (Methods (fst x))") (simp_all add: ic_Invoke_def dispatch_def Let_def)
qed

lemma full_method_slash: "full_method mth = Ret m \<Longrightarrow> \<exists>s. m = CHR ''/'' # s"
  by (cases mth) (force simp: full_method_def split: if_splits)+

text \<open>C14. How \<open>Invoke\<close> finds its handler. The name of the method gets a leading slash if it has
  none. If there is no further slash in it, the call panics. Otherwise what is before that slash
  names the service and what is after it the method; a service that is not registered and a method
  that its descriptor does not list give \<open>Unimplemented\<close> errors that name them; else the
  registered handler is called, with the registered implementation, the channel's interceptor, a
  copy of the request, and a context that has the client's outgoing metadata as incoming metadata,
  the in-process peer, the client's context for \<open>ClientContext\<close>, and no other value of it; each of
  the two stats handlers, if set, can change the context of its side before it is used. The
  client's peer option is set in every case.\<close>

theorem inproc_dispatch:
  assumes "full_method method = Ret m"
    and "ApplyPerRPCCreds api (cx_outgoing ctx) (GetCallOptions opts) (''inproc:0'' @ m) True = Inr out"
  shows "if callable method then
      \<exists>svc mth. m = ''/'' @ svc @ ''/'' @ mth \<and> CHR ''/'' \<notin> set svc \<and>
        ic_Invoke api pc c ctx method (Some req) resp opts mem =
          Ret (let mem = SetPeer (GetCallOptions opts) inprocessPeer mem;
                   svrCtx = server_context c m (NewOutgoingContext out ctx)
               in case hm_get (handlers c) svc of
                    None \<Rightarrow> Inl (no_service_err svc, mem)
                  | Some (sd, svr) \<Rightarrow>
                      (case FindUnaryMethod mth (Methods sd) of
                         None \<Rightarrow> Inl (no_method_err svc mth, mem)
                       | Some md \<Rightarrow>
                           (let K = \<lparr>ue_cloner = cloner_or pc c, ue_copts = GetCallOptions opts,
                                ue_cstats = clientStatsHandler c, ue_sstats = serverStatsHandler c,
                                ue_impl = md_handler md (svr, svrCtx, \<lambda>x. Copy (cloner_or pc c) x req)
                                  (unaryInterceptor c)\<rparr>
                            in Inr (K, start_ucall K req resp mem)))) \<and>
        (let cctx = tagRPC (clientStatsHandler c) (clientTag c) (NewOutgoingContext out ctx) m;
             sctx = makeServerContext cctx
         in server_context c m (NewOutgoingContext out ctx) =
              tagRPC (serverStatsHandler c) (serverTag c) sctx m \<and>
            cx_incoming sctx = cx_outgoing cctx \<and> cx_peer sctx = Some inprocessPeer \<and>
            ClientContext sctx = Some cctx \<and> cx_value sctx = (\<lambda>_. None))
    else panics (ic_Invoke api pc c ctx method (Some req) resp opts mem)"
proof -
  obtain rest where rest: "m = CHR ''/'' # rest" using full_method_slash [OF assms(1)] by blast
  show ?thesis
  proof (cases "callable method")
    case True
    then have "\<not> panics (split_method m)" using callable_split [OF assms(1)] by simp
    then have "CHR ''/'' \<in> set (tl m)" by (simp add: split_method_panics)
    then obtain svc mth where tl: "tl m = svc @ CHR ''/'' # mth" "CHR ''/'' \<notin> set svc"
      using split_list_first by fastforce
    from tl(1) rest have m: "m = ''/'' @ svc @ ''/'' @ mth" by simp
    have "split_method m = Ret (svc, mth)" using tl by (simp add: split_method_def)
    note call = Invoke_found [OF assms(1,2) this, of pc c req resp mem]
    have ctx: "let cctx = tagRPC (clientStatsHandler c) (clientTag c) (NewOutgoingContext out ctx) m;
        sctx = makeServerContext cctx
      in server_context c m (NewOutgoingContext out ctx) = tagRPC (serverStatsHandler c) (serverTag c) sctx m \<and>
         cx_incoming sctx = cx_outgoing cctx \<and> cx_peer sctx = Some inprocessPeer \<and>
         ClientContext sctx = Some cctx \<and> cx_value sctx = (\<lambda>_. None)"
      by (simp add: server_context_def Let_def)
    show ?thesis
      unfolding if_P [OF True] by (intro conjI exI [of _ svc] exI [of _ mth] m tl(2) call ctx)
  next
    case False
    then show ?thesis
      using dispatch_panics [OF assms(2,1), of "handlers c" "\<lambda>n sd. FindUnaryMethod n (Methods sd)"]
      by (simp add: ic_Invoke_def Let_def panics_go_bind)
  qed
qed

theorem inproc_dispatch_witness:
  "ic_Invoke square_api (CodecCloner nat_env nat_codec) square_ic square_ctx ''svc/Gone''
      (Some 3) 0 [] square_mem = Ret (Inl (no_method_err ''svc'' ''Gone'', SetPeer no_call_options inprocessPeer square_mem)) \<and>
   panics (ic_Invoke square_api (CodecCloner nat_env nat_codec) square_ic square_ctx ''Square''
      (Some (3 :: nat)) 0 [] square_mem)"
proof -
  have creds: "ApplyPerRPCCreds square_api (cx_outgoing square_ctx) (GetCallOptions []) u True =
      Inr (cx_outgoing square_ctx)" for u
    by (simp add: ApplyPerRPCCreds_def GetCallOptions_def no_call_options_def)
  have m: "full_method ''svc/Gone'' = Ret ''/svc/Gone''" "full_method ''Square'' = Ret ''/Square''"
    "callable ''svc/Gone''" "\<not> callable ''Square''" by (simp_all add: full_method_def)
  have split: "svc = ''svc'' \<and> mth = ''Gone''" if "''/svc/Gone'' = ''/'' @ svc @ ''/'' @ mth" "CHR ''/'' \<notin> set svc"
    for svc mth
  proof -
    have "split_method (''/'' @ svc @ ''/'' @ mth) = Ret (svc, mth)" using that(2) by (simp add: split_method_def)
    moreover have "split_method ''/svc/Gone'' = Ret (''svc'', ''Gone'')" by code_simp
    ultimately show ?thesis using that(1) by simp
  qed
  have get: "hm_get (handlers square_ic) ''svc'' = Some (square_sd, ())"
    "FindUnaryMethod ''Gone'' (Methods square_sd) = None"
    by (simp_all add: square_ic_def hm_get_def square_sd_def)
  note found = inproc_dispatch [OF m(1) creds, of "CodecCloner nat_env nat_codec" square_ic 3 0 square_mem]
  note lost = inproc_dispatch [OF m(2) creds, of "CodecCloner nat_env nat_codec" square_ic 3 0 square_mem]
  from found [unfolded if_P [OF m(3)]] obtain svc mth where "''/svc/Gone'' = ''/'' @ svc @ ''/'' @ mth" "CHR ''/'' \<notin> set svc"
    and call: "ic_Invoke square_api (CodecCloner nat_env nat_codec) square_ic square_ctx ''svc/Gone'' (Some 3) 0 [] square_mem =
      Ret (let mem = SetPeer (GetCallOptions []) inprocessPeer square_mem;
               svrCtx = server_context square_ic ''/svc/Gone'' (NewOutgoingContext (cx_outgoing square_ctx) square_ctx)
           in case hm_get (handlers square_ic) svc of
                None \<Rightarrow> Inl (no_service_err svc, mem)
              | Some (sd, svr) \<Rightarrow>
                  (case FindUnaryMethod mth (Methods sd) of
                     None \<Rightarrow> Inl (no_method_err svc mth, mem)
                   | Some md \<Rightarrow>
                       (let K = \<lparr>ue_cloner = cloner_or (CodecCloner nat_env nat_codec) square_ic,
                            ue_copts = GetCallOptions [],
                            ue_cstats = clientStatsHandler square_ic, ue_sstats = serverStatsHandler square_ic,
                            ue_impl = md_handler md (svr, svrCtx, \<lambda>x. Copy (cloner_or (CodecCloner nat_env nat_codec) square_ic) x 3)
                              (unaryInterceptor square_ic)\<rparr>
                        in Inr (K, start_ucall K 3 0 mem))))"
    by blast
  with split [of svc mth] get lost m(4) show ?thesis
    by (simp add: GetCallOptions_def)
qed

subsection \<open>The call\<close>

lemma ic_RegisterService_get:
  "ic_RegisterService implements c desc (Some svr) = Ret c' \<Longrightarrow>
   hm_get (handlers c') (ServiceName desc) = Some (desc, svr)"
  by (auto simp: ic_RegisterService_def RegisterService_def hm_get_def go_bind_Ret_iff Let_def
      split: option.splits if_splits)

text \<open>C11. A unary call over the in-process channel from end to end. Let a service be registered on a
  channel, and call one of its methods by name. In every interleaving of the client's loop with the
  server goroutine, if \<open>Invoke\<close> has returned and the context passed to it is not done, then the
  handler has run once, on an undone context; the result of \<open>Invoke\<close> is its error, or
  an \<open>Internal\<close> error for a nil response, or nil with a copy of its response in the caller's
  variable. If the cloner cannot copy the response, \<open>Invoke\<close> returns the cloner's error, and the
  caller's variable holds whatever the cloner has left there. If there is no response to copy,
  the variable is untouched. And the caller's variables for headers and trailers hold the
  joined metadata that the handler has set, if any.\<close>

theorem inproc_unary_call:
  assumes "ic_RegisterService implements c0 desc (Some svr) = Ret c"
    and "FindUnaryMethod mth (Methods desc) = Some md"
    and "CHR ''/'' \<notin> set (ServiceName desc)" and "ServiceName desc \<noteq> []"
    and "ApplyPerRPCCreds api (cx_outgoing ctx) (GetCallOptions opts)
           (''inproc:0/'' @ ServiceName desc @ ''/'' @ mth) True = Inr md_out"
    and "ic_Invoke api pc c ctx (''/'' @ ServiceName desc @ ''/'' @ mth) (Some req) resp opts mem = Ret (Inr (K, s0))"
    and "ucall_reachable K s0 s" and "u_cl s = UReturned r" and "u_caller s = None"
    and "md_handler md (svr, server_context c (''/'' @ ServiceName desc @ ''/'' @ mth) (NewOutgoingContext md_out ctx), \<lambda>x. Copy (cloner_or pc c) x req)
           (unaryInterceptor c) None = (calls, out)"
    and "h = md_joined (call_headers calls)" and "t = md_joined (call_trailers calls)"
    and "mem1 = (if h \<noteq> [] then SetHeaders (GetCallOptions opts) h (SetPeer (GetCallOptions opts) inprocessPeer mem)
           else SetPeer (GetCallOptions opts) inprocessPeer mem)"
    and "mem2 = (if t \<noteq> [] then SetTrailers (GetCallOptions opts) t mem1 else mem1)"
  shows "(r, u_resp s, u_mem s) =
    (case out of
       Inl e \<Rightarrow> (Some e, resp, mem2)
     | Inr None \<Rightarrow> (Some no_response_err, resp, mem2)
     | Inr (Some v) \<Rightarrow>
         (case copy_to (cloner_or pc c) resp v of
            (Some e, x) \<Rightarrow> (Some e, x, mem1)
          | (None, x) \<Rightarrow> (None, x, mem2)))"
proof -
  let ?m = "''/'' @ ServiceName desc @ ''/'' @ mth"
  have m: "full_method ?m = Ret ?m" "split_method ?m = Ret (ServiceName desc, mth)"
    using full_method_split(2,3) [OF assms(3,4)] by simp_all
  have "hm_get (handlers c) (ServiceName desc) = Some (desc, svr)"
    using ic_RegisterService_get [OF assms(1)] by simp
  with Invoke_found [OF m(1) _ m(2), of api ctx opts md_out pc c req resp mem] assms(2,5,6) have K:
    "K = \<lparr>ue_cloner = cloner_or pc c, ue_copts = GetCallOptions opts,
          ue_cstats = clientStatsHandler c, ue_sstats = serverStatsHandler c,
          ue_impl = md_handler md (svr, server_context c (''/'' @ ServiceName desc @ ''/'' @ mth) (NewOutgoingContext md_out ctx),
            \<lambda>x. Copy (cloner_or pc c) x req) (unaryInterceptor c)\<rparr>"
    "s0 = start_ucall K req resp (SetPeer (GetCallOptions opts) inprocessPeer mem)"
    by (auto simp: Let_def)
  note reach = assms(7) [unfolded K(2)]
  have "ucall_cl_inv K (False, resp, SetPeer (GetCallOptions opts) inprocessPeer mem) s"
    using ucall_inv_reachable [OF reach] by simp
  with assms(8,9) obtain run where run: "u_run s = Some run"
    "u_result K (unary_frames run) (False, resp, SetPeer (GetCallOptions opts) inprocessPeer mem) =
       (r, u_resp s, u_mem s)" by (auto simp: ucall_cl_inv_def)
  have "run = (calls, out)"
    using outcome_reachable [OF reach] run(1) assms(9,10) K(1) by (auto simp: ucall_run_inv_def)
  then have "u_result K (unary_frames (calls, out)) (False, resp, SetPeer (GetCallOptions opts) inprocessPeer mem) =
      (r, u_resp s, u_mem s)" using run(2) by simp
  note res = this
  have sel: "ue_copts K = GetCallOptions opts" "ue_cloner K = cloner_or pc c" using K(1) by simp_all
  have "u_result K (unary_frames (calls, out)) (False, resp, SetPeer (GetCallOptions opts) inprocessPeer mem) =
    (case out of
       Inl e \<Rightarrow> (Some e, resp, mem2)
     | Inr None \<Rightarrow> (Some no_response_err, resp, mem2)
     | Inr (Some v) \<Rightarrow>
         (case copy_to (ue_cloner K) resp v of
            (Some e, x) \<Rightarrow> (Some e, x, mem1)
          | (None, x) \<Rightarrow> (None, x, mem2)))"
    by (rule u_result_frames [OF assms(11,12)]) (simp_all only: sel assms(13,14))
  with res show ?thesis unfolding sel by simp
qed

text \<open>The call of the concrete service, brought to its end.\<close>

lemma square_over:
  obtains s r where "ucall_reachable (fst square_call) (snd square_call) s" "u_cl s = UReturned r" "u_caller s = None"
proof -
  have start: "\<exists>req resp mem. snd square_call = start_ucall (fst square_call) req resp mem" "u_caller (snd square_call) = None"
    by (auto simp: square_call_def ic_Invoke_def dispatch_def full_method_def split_method_def splitn2_def
        square_ic_def zero_channel_def hm_get_def square_sd_def ApplyPerRPCCreds_def GetCallOptions_def
        no_call_options_def Let_def start_ucall_def)
  then obtain req resp mem where s0: "snd square_call = start_ucall (fst square_call) req resp mem" by blast
  have "ucall_reachable (fst square_call) (snd square_call) (snd square_call)" by (simp add: ucall_reachable_def)
  from ucall_inv_reachable [OF this [unfolded s0]] obtain s where
    "ucall_reachable (fst square_call) (start_ucall (fst square_call) req resp mem) s" "ucall_over s"
    "u_caller s = u_caller (start_ucall (fst square_call) req resp mem)"
    using ucall_finishes by blast
  with that s0 start(2) show ?thesis by (auto simp: ucall_over_def)
qed

theorem inproc_unary_call_witness:
  "\<exists>s. ucall_reachable (fst square_call) (snd square_call) s \<and> u_cl s = UReturned None \<and> u_resp s = 9 \<and>
     md_at (u_mem s) 0 = [(''h'', [''1''])] \<and> md_at (u_mem s) 1 = [(''t'', [''2''])]"
proof -
  obtain s r where s: "ucall_reachable (fst square_call) (snd square_call) s" "u_cl s = UReturned r" "u_caller s = None"
    by (rule square_over)
  let ?md = "hd (Methods square_sd)" and ?cl = "CodecCloner nat_env nat_codec"
  have creds: "ApplyPerRPCCreds square_api (cx_outgoing square_ctx) (GetCallOptions [HeaderCallOption 0, TrailerCallOption 1])
      u True = Inr (cx_outgoing square_ctx)" for u
    by (simp add: ApplyPerRPCCreds_def GetCallOptions_def no_call_options_def)
  have cl: "cloner_or ?cl square_ic = ?cl" by (simp add: cloner_or_def square_ic_def zero_channel_def)
  have copy: "Copy ?cl x n = Inr n" if "n < 256" for x n
    using codec_cloner.copy_ok [OF nat_reproduced nat_reproduced [OF that], of 0] that
    by (simp add: CodecCloner_def CopyFunc_def nat_codec_def Copy_def unat_of_nat)
  have copy_to: "copy_to ?cl x n = (None, n)" if "n < 256" for x n
    using copy [OF that, of x] by (simp add: Copy_def copied_eq)
  have ran: "md_handler ?md ((), server_context square_ic (''/'' @ ServiceName square_sd @ ''/'' @ ''Square'') (NewOutgoingContext (cx_outgoing square_ctx) square_ctx),
      \<lambda>x. Copy (cloner_or ?cl square_ic) x 3) (unaryInterceptor square_ic) None =
      ([CSetHeader [(''h'', [''1''])], CSetTrailer [(''t'', [''2''])]], Inr (Some 9))"
    by (simp add: square_sd_def cl copy)
  have found: "FindUnaryMethod ''Square'' (Methods square_sd) = Some ?md" "ServiceName square_sd = ''svc''"
    by (simp_all add: square_sd_def)
  have slash: "CHR ''/'' \<notin> set (ServiceName square_sd)" "ServiceName square_sd \<noteq> []" by (simp_all add: found(2))
  have joined: "md_joined (call_headers [CSetHeader [(''h'', [''1''])], CSetTrailer [(''t'', [''2''])]]) = [(''h'', [''1''])]"
    "md_joined (call_trailers [CSetHeader [(''h'', [''1''])], CSetTrailer [(''t'', [''2''])]]) = [(''t'', [''2''])]"
    by (simp_all add: md_joined_def mappend_def)
  have name: "''/svc/Square'' = ''/'' @ ServiceName square_sd @ ''/'' @ ''Square''" by (simp add: found(2))
  note call = inproc_unary_call [OF square_registered found(1) slash creds square_invoked [unfolded name] s ran
      joined [symmetric] refl refl]
  then have "r = None" "u_resp s = 9" "md_at (u_mem s) 0 = [(''h'', [''1''])]" "md_at (u_mem s) 1 = [(''t'', [''2''])]"
    by (simp_all add: cl copy_to GetCallOptions_def no_call_options_def)
  with s show ?thesis by blast
qed

subsection \<open>Cancellation, panics, progress\<close>

text \<open>C12. What \<open>Invoke\<close> can return, whatever is cancelled and when. Nil only if the handler has
  returned a response, and then the caller's variable holds its copy; the handler's error, or the
  one for a nil response; the error of copying a response that the handler has returned; and only if
  the caller's context was done, the status of that, or a bare \<open>io.EOF\<close>, when the server
  goroutine dropped its last frames and the loop saw the closed channel first. So a failed
  call is never taken for a success.\<close>

theorem inproc_unary_outcomes:
  assumes "ucall_reachable K (start_ucall K req resp mem) s" and "u_cl s = UReturned r"
  shows "(\<exists>e calls out. ue_impl K e = (calls, out) \<and>
      (case r of
         None \<Rightarrow> \<exists>v. out = Inr (Some v) \<and> Copy (ue_cloner K) resp v = Inr (u_resp s)
       | Some err \<Rightarrow> out = Inl err \<or> (out = Inr None \<and> err = no_response_err) \<or>
           (\<exists>v. out = Inr (Some v) \<and> Copy (ue_cloner K) resp v = Inl err))) \<or>
    (u_caller s \<noteq> None \<and>
     r \<in> {Some EOF, Some (TranslateContextError CtxCanceled), Some (TranslateContextError CtxDeadlineExceeded)})"
proof -
  have inv: "ucall_run_inv K s" "ucall_outcome K resp s" using outcome_reachable [OF assms(1)] by simp_all
  from inv(2) assms(2) consider
    (ran) calls out where "u_run s = Some (calls, out)" "unary_returns K resp out r (u_resp s)"
  | (over) "u_caller s \<noteq> None"
      "r \<in> {Some EOF, Some (TranslateContextError CtxCanceled), Some (TranslateContextError CtxDeadlineExceeded)}"
    unfolding ucall_outcome_def by blast
  then show ?thesis
  proof cases
    case ran
    with inv(1) obtain e where "ue_impl K e = (calls, out)" by (auto simp: ucall_run_inv_def)
    with ran(2) show ?thesis
      by (intro disjI1 exI [of _ e] exI [of _ calls] exI [of _ out])
        (auto simp: unary_returns_def unary_err_def split: option.splits sum.splits)
  next
    case over
    then show ?thesis by blast
  qed
qed

text \<open>The bare \<open>io.EOF\<close> is reachable: the context is done before the handler runs, and all frames
  are dropped.\<close>

lemma dropped_frames:
  "u_srv s = USWrite fs err \<Longrightarrow> u_ctx s \<noteq> None \<Longrightarrow>
   ucall_reachable K s (s\<lparr>u_srv := USWrite [] err\<rparr>)"
proof (induction fs arbitrary: s)
  case Nil
  then have "s\<lparr>u_srv := USWrite [] err\<rparr> = s" by simp
  then show ?case by (simp add: ucall_reachable_def)
next
  case (Cons f fs)
  have "(WrDone, u_ch s) \<in> set (write_cases (u_ctx s) None (u_ch s) f)"
    using Cons.prems(2) by (simp add: write_cases_def)
  from write_frame [OF Cons.prems(1) this] have "ucall_step K s (s\<lparr>u_srv := USWrite fs err\<rparr>)" by simp
  moreover from Cons.IH [of "s\<lparr>u_srv := USWrite fs err\<rparr>"] Cons.prems(2)
  have "ucall_reachable K (s\<lparr>u_srv := USWrite fs err\<rparr>) (s\<lparr>u_srv := USWrite [] err\<rparr>)" by simp
  ultimately show ?case unfolding ucall_reachable_def by (rule converse_rtranclp_into_rtranclp)
qed

lemma EOF_reachable:
  "\<exists>s. ucall_reachable K (start_ucall K req resp mem) s \<and> u_cl s = UReturned (Some EOF)"
proof -
  let ?s0 = "start_ucall K req resp mem"
  let ?s1 = "?s0\<lparr>u_ctx := Some CtxCanceled, u_caller := Some CtxCanceled\<rparr>"
  obtain calls out where run: "ue_impl K (Some CtxCanceled) = (calls, out)" by fastforce
  have "ucall_step K ?s0 ?s1" using cancel [of CtxCanceled K ?s0] by (simp add: cancel_ctx_def start_ucall_def)
  moreover obtain s2 where s2: "ucall_step K ?s1 s2" "u_srv s2 = USWrite (unary_frames (calls, out)) (unary_err out)"
    "u_ctx s2 = Some CtxCanceled" "u_ch s2 = new_chan" "u_cl s2 = ULoop False"
    using handle [of ?s1 K calls out] run by (simp add: start_ucall_def)
  moreover let ?s3 = "s2\<lparr>u_srv := USWrite [] (unary_err out)\<rparr>"
  have "ucall_reachable K s2 ?s3" using dropped_frames [OF s2(2)] s2(3) by simp
  moreover obtain s4 where s4: "ucall_step K ?s3 s4" "u_ch s4 = \<lparr>buf = [], closed = True\<rparr>" "u_cl s4 = ULoop False"
    using finish [of ?s3 "unary_err out" "\<lparr>buf = [], closed = True\<rparr>" K] s2(4,5)
    by (simp add: close_chan_def new_chan_def)
  moreover have "ucall_step K s4 (u_return K (Some EOF) s4)"
    using no_more [of s4 False K] s4(2,3) by simp
  ultimately have "ucall_reachable K ?s0 (u_return K (Some EOF) s4)"
    unfolding ucall_reachable_def
    by (meson converse_rtranclp_into_rtranclp rtranclp.rtrancl_into_rtrancl)
  then show ?thesis by (intro exI [of _ "u_return K (Some EOF) s4"]) simp
qed

theorem inproc_unary_outcomes_witness:
  "\<exists>s. u_cl s = UReturned (Some EOF) \<and> u_caller s \<noteq> None \<and>
     ucall_reachable (fst square_call) (start_ucall (fst square_call) 3 0 square_mem) s"
proof -
  obtain s where s: "ucall_reachable (fst square_call) (start_ucall (fst square_call) 3 0 square_mem) s"
    "u_cl s = UReturned (Some EOF)"
    using EOF_reachable [of "fst square_call" 3 0 square_mem] by blast
  have copy: "Copy (ue_cloner (fst square_call)) 0 n \<noteq> Inl EOF" for n
    by (auto simp: square_call_def ic_Invoke_def dispatch_def full_method_def split_method_def splitn2_def
        square_ic_def zero_channel_def hm_get_def square_sd_def ApplyPerRPCCreds_def GetCallOptions_def
        no_call_options_def Let_def cloner_or_def CodecCloner_def CopyFunc_def nat_codec_def Copy_def copied_def
        split: sum.splits if_splits list.splits option.splits prod.splits)
  have "ue_impl (fst square_call) e = (calls, out) \<Longrightarrow> out \<noteq> Inl EOF" for e calls out
    by (auto simp: square_call_def ic_Invoke_def dispatch_def full_method_def split_method_def splitn2_def
        square_ic_def zero_channel_def hm_get_def square_sd_def ApplyPerRPCCreds_def GetCallOptions_def
        no_call_options_def Let_def cloner_or_def CodecCloner_def CopyFunc_def nat_codec_def Copy_def copied_def
        split: sum.splits if_splits list.splits option.splits prod.splits)
  with inproc_unary_outcomes [OF s] copy have "u_caller s \<noteq> None"
    by (force simp: no_response_err_def status_error_def)
  with s show ?thesis by blast
qed

text \<open>C13. A unary call over the in-process channel always comes to its end. No goroutine panics on the
  channel of frames. From every state that the call can reach, whatever has been cancelled,
  \<open>Invoke\<close> can return and the server goroutine can exit without any further help of the caller:
  no goroutine is left blocked, even when \<open>Invoke\<close> has returned first.\<close>

theorem inproc_unary_completes:
  assumes "ucall_reachable K (start_ucall K req resp mem) s"
  shows "\<not> ucall_panics s \<and>
    (\<exists>s' r. ucall_reachable K s s' \<and> u_srv s' = USExited \<and> u_cl s' = UReturned r \<and> u_caller s' = u_caller s)"
proof -
  have inv: "ucall_srv_inv s" "ucall_cl_inv K (False, resp, mem) s" using ucall_inv_reachable [OF assms] by simp_all
  from ucall_finishes [OF inv] srv_inv_no_panic [OF inv(1)] show ?thesis by (auto simp: ucall_over_def)
qed

theorem inproc_unary_completes_witness:
  "\<exists>s' r. ucall_reachable (fst square_call) (start_ucall (fst square_call) 3 0 square_mem) s' \<and>
     u_srv s' = USExited \<and> u_cl s' = UReturned r \<and> u_caller s' = None"
  using inproc_unary_completes [of "fst square_call" 3 0 square_mem "start_ucall (fst square_call) 3 0 square_mem"]
  by (simp add: ucall_reachable_def start_ucall_def)

end
