(* ===== verification/Http_Codes.thy ===== *)
theory Http_Codes
  imports Grpc_Status
begin

text \<open>
  \<open>httpgrpc/codes.go\<close>: the translation of gRPC codes to HTTP statuses, used by the unary
  handler, and back, used by the client when the reply has no \<open>X-GRPC-Status\<close> header.
  HTTP statuses are the numbers behind the \<open>net/http\<close> constants that the source names.
\<close>

fun httpStatusFromCode :: "code \<Rightarrow> int" where
  "httpStatusFromCode OK = 200"
| "httpStatusFromCode Canceled = 502"
| "httpStatusFromCode Unknown = 500"
| "httpStatusFromCode InvalidArgument = 400"
| "httpStatusFromCode DeadlineExceeded = 504"
| "httpStatusFromCode NotFound = 404"
| "httpStatusFromCode AlreadyExists = 409"
| "httpStatusFromCode PermissionDenied = 403"
| "httpStatusFromCode Unauthenticated = 401"
| "httpStatusFromCode ResourceExhausted = 429"
| "httpStatusFromCode FailedPrecondition = 412"
| "httpStatusFromCode Aborted = 409"
| "httpStatusFromCode OutOfRange = 422"
| "httpStatusFromCode Unimplemented = 501"
| "httpStatusFromCode Internal = 500"
| "httpStatusFromCode Unavailable = 503"
| "httpStatusFromCode DataLoss = 500"
| "httpStatusFromCode (OtherCode _) = 500"

definition codeFromHttpStatus :: "int \<Rightarrow> code" where
  "codeFromHttpStatus stat =
     (if 200 \<le> stat \<and> stat < 300 then OK
      else if 400 \<le> stat \<and> stat < 500 then
        (if stat = 400 then InvalidArgument
         else if stat = 401 then Unauthenticated
         else if stat = 403 then PermissionDenied
         else if stat = 404 then NotFound
         else if stat = 405 then InvalidArgument
         else if stat = 408 then DeadlineExceeded
         else if stat = 409 then Aborted
         else if stat = 416 then OutOfRange
         else if stat = 423 then Aborted
         else if stat = 412 \<or> stat = 417 then FailedPrecondition
         else if stat = 429 then ResourceExhausted
         else if stat = 499 then Canceled
         else InvalidArgument)
      else if 500 \<le> stat \<and> stat < 600 then
        (if stat = 500 then Internal
         else if stat = 501 then Unimplemented
         else if stat = 502 then Unknown
         else if stat = 504 then DeadlineExceeded
         else if stat = 503 then Unavailable
         else Internal)
      else Unknown)"

lemma codeFromHttpStatus_OK_iff: "codeFromHttpStatus stat = OK \<longleftrightarrow> 200 \<le> stat \<and> stat < 300"
  by (simp add: codeFromHttpStatus_def)

lemma httpStatusFromCode_success_iff:
  "200 \<le> httpStatusFromCode c \<and> httpStatusFromCode c < 300 \<longleftrightarrow> c = OK"
  by (cases c) auto

text \<open>The codes that the HTTP status alone carries to the client without loss.\<close>

definition http_preserved :: "code \<Rightarrow> bool" where
  "http_preserved c \<longleftrightarrow>
     c \<in> {OK, InvalidArgument, DeadlineExceeded, NotFound, PermissionDenied, Unauthenticated,
          ResourceExhausted, FailedPrecondition, Aborted, Unimplemented, Internal, Unavailable}"

text \<open>The code a client without the \<open>X-GRPC-Status\<close> header sees for each of the others.\<close>

fun http_collapsed :: "code \<Rightarrow> code" where
  "http_collapsed Canceled = Unknown"
| "http_collapsed AlreadyExists = Aborted"
| "http_collapsed OutOfRange = InvalidArgument"
| "http_collapsed c = (if http_preserved c then c else Internal)"

lemma http_code_roundtrip: "codeFromHttpStatus (httpStatusFromCode c) = http_collapsed c"
  by (cases c) (simp_all add: codeFromHttpStatus_def http_preserved_def)

lemma http_collapsed_fixed: "http_collapsed c = c \<longleftrightarrow> http_preserved c"
  by (cases c) (simp_all add: http_preserved_def)

lemma http_collapsed_OK: "http_collapsed c = OK \<longleftrightarrow> c = OK"
  by (cases c) (simp_all add: http_preserved_def)

end
