(* ===== verification/Http_Env.thy ===== *)
theory Http_Env
  imports Http_Metadata Http_Codes
begin

text \<open>
  What the two sides of the HTTP transport use of other packages: \<open>net/http\<close>'s response
  writer, and, as parameters, gRPC's \<open>status\<close>, \<open>codes\<close> and \<open>encoding\<close> packages and
  \<open>mime.ParseMediaType\<close>.

  A codec marshals messages of several Go types; each of those that the program uses has its
  own pair of functions here: request and response messages (\<open>'m\<close>), the details of a status
  (\<open>any_pb\<close>) and the trailer message of a stream.
\<close>

record http_trailer =
  tr_Metadata :: md
  tr_Code :: int
  tr_Message :: string
  tr_Details :: "any_pb list"

text \<open>A trailer is unmarshalled in place, after a reset: one that fails has perhaps been filled in
  part, and comes with the error.\<close>

record 'm wire_codec =
  c_Marshal :: "'m \<Rightarrow> goerr + bytes"
  c_Unmarshal :: "bytes \<Rightarrow> 'm \<Rightarrow> goerr + 'm"
  c_MarshalAny :: "any_pb \<Rightarrow> goerr + bytes"
  c_UnmarshalAny :: "bytes \<Rightarrow> goerr + any_pb"
  c_MarshalTrailer :: "http_trailer \<Rightarrow> goerr + bytes"
  c_UnmarshalTrailer :: "bytes \<Rightarrow> goerr \<times> http_trailer + http_trailer"

record status_api =
  api_codes :: code_table
  FromError :: "goerr \<Rightarrow> status"
  Error_text :: "goerr \<Rightarrow> string"
  code_String :: "code \<Rightarrow> string"

record 'm http_env =
  parse_media :: "string \<Rightarrow> string"
  GetCodecV2 :: "string \<Rightarrow> 'm wire_codec option"
  env_api :: status_api

text \<open>The names that the program looks codecs up by; \<open>grpcproto.Name\<close> is documented to be
  \<open>"proto"\<close>.\<close>

definition protoName :: string where "protoName = ''proto''"
definition jsonCodecName :: string where "jsonCodecName = ''json''"

definition UnaryRpcContentType_V1 :: string where "UnaryRpcContentType_V1 = ''application/x-protobuf''"
definition StreamRpcContentType_V1 :: string where
  "StreamRpcContentType_V1 = ''application/x-httpgrpc-proto+v1''"
definition ApplicationJson :: string where "ApplicationJson = ''application/json''"
definition EventStreamContentType :: string where "EventStreamContentType = ''text/event-stream''"

lemmas content_types =
  UnaryRpcContentType_V1_def StreamRpcContentType_V1_def ApplicationJson_def EventStreamContentType_def

subsection \<open>The response writer\<close>

text \<open>\<open>rw_sent\<close> is the header map as it was when the status line went out. A header set after
  that does not reach the client, and a second \<open>WriteHeader\<close> is ignored.\<close>

record response_writer =
  rw_header :: header
  rw_status :: "int option"
  rw_sent :: header
  rw_body :: bytes

definition new_response :: response_writer where
  "new_response = \<lparr>rw_header = [], rw_status = None, rw_sent = [], rw_body = []\<rparr>"

definition WriteHeader :: "int \<Rightarrow> response_writer \<Rightarrow> response_writer" where
  "WriteHeader code rw =
     (case rw_status rw of
        None \<Rightarrow> rw\<lparr>rw_status := Some code, rw_sent := rw_header rw\<rparr>
      | Some _ \<Rightarrow> rw)"

definition rw_Write :: "bytes \<Rightarrow> response_writer \<Rightarrow> response_writer" where
  "rw_Write b rw = (let rw1 = WriteHeader 200 rw in rw1\<lparr>rw_body := rw_body rw1 @ b\<rparr>)"

definition rw_Set :: "string \<Rightarrow> string \<Rightarrow> response_writer \<Rightarrow> response_writer" where
  "rw_Set k v rw = rw\<lparr>rw_header := h_set (rw_header rw) k v\<rparr>"

definition rw_Add :: "string \<Rightarrow> string \<Rightarrow> response_writer \<Rightarrow> response_writer" where
  "rw_Add k v rw = rw\<lparr>rw_header := h_add (rw_header rw) k v\<rparr>"

definition h_del :: "header \<Rightarrow> string \<Rightarrow> header" where
  "h_del h k = AList.delete (canonical_key k) h"

text \<open>\<open>http.Error\<close>.\<close>

definition http_Error :: "string \<Rightarrow> int \<Rightarrow> response_writer \<Rightarrow> response_writer" where
  "http_Error msg code rw =
     rw_Write (bytes_of msg @ [10])
       (WriteHeader code
         (rw_Set ''X-Content-Type-Options'' ''nosniff''
           (rw_Set ''Content-Type'' ''text/plain; charset=utf-8''
             (rw\<lparr>rw_header := h_del (rw_header rw) ''Content-Length''\<rparr>))))"

text \<open>\<open>http.StatusText\<close> on the codes that the program passes to it.\<close>

definition StatusText :: "int \<Rightarrow> string" where
  "StatusText code =
     (case map_of
        [(200, ''OK''), (400, ''Bad Request''), (401, ''Unauthorized''), (403, ''Forbidden''),
         (404, ''Not Found''), (405, ''Method Not Allowed''), (409, ''Conflict''),
         (412, ''Precondition Failed''), (415, ''Unsupported Media Type''),
         (422, ''Unprocessable Entity''), (429, ''Too Many Requests''),
         (500, ''Internal Server Error''), (501, ''Not Implemented''), (502, ''Bad Gateway''),
         (503, ''Service Unavailable''), (504, ''Gateway Timeout'')] code of
        Some s \<Rightarrow> s | None \<Rightarrow> '''')"

lemma rw_simps [simp]:
  "rw_header (rw_Set k v rw) = h_set (rw_header rw) k v"
  "rw_status (rw_Set k v rw) = rw_status rw" "rw_sent (rw_Set k v rw) = rw_sent rw"
  "rw_body (rw_Set k v rw) = rw_body rw"
  "rw_header (rw_Add k v rw) = h_add (rw_header rw) k v"
  "rw_status (rw_Add k v rw) = rw_status rw" "rw_sent (rw_Add k v rw) = rw_sent rw"
  "rw_body (rw_Add k v rw) = rw_body rw"
  by (simp_all add: rw_Set_def rw_Add_def)

lemma WriteHeader_sel [simp]:
  "rw_header (WriteHeader c rw) = rw_header rw" "rw_body (WriteHeader c rw) = rw_body rw"
  "rw_status rw = None \<Longrightarrow> rw_status (WriteHeader c rw) = Some c"
  "rw_status rw = None \<Longrightarrow> rw_sent (WriteHeader c rw) = rw_header rw"
  by (auto simp: WriteHeader_def split: option.splits)

lemma WriteHeader_done [simp]: "rw_status rw = Some c \<Longrightarrow> WriteHeader c' rw = rw"
  by (simp add: WriteHeader_def)

lemma mget_h_del [go_map]:
  "mget (h_del h k) k' = (if canonical_key k = k' then [] else mget h k')"
  by (simp add: h_del_def mget_def delete_conv)

end
