(* ===== verification/Wire_Io.thy ===== *)
theory Wire_Io
  imports Grpc_Status
begin

unbundle bit_operations_syntax

text \<open>
  What \<open>httpgrpc/io.go\<close> and \<open>internal/sse/sse.go\<close> use of Go's readers and writers, the
  size preface of \<open>io.go\<close> as a 32-bit integer, and the contract of a framing: how messages are
  cut out of a byte stream.

  A reader is what it will still deliver, and the error it ends with (\<open>io.EOF\<close>, or that of a
  broken connection). How the bytes are split over the calls of \<open>Read\<close> does not matter to
  \<open>io.ReadFull\<close>, \<open>io.ReadAtLeast\<close> and \<open>bufio.Reader.ReadBytes\<close>. A writer is what it has
  accepted, and the error it will fail with once its limit is reached, if any.
\<close>

record reader =
  rd_bytes :: bytes
  rd_end :: goerr

definition rd :: "bytes \<Rightarrow> goerr \<Rightarrow> reader" where
  "rd b e = \<lparr>rd_bytes = b, rd_end = e\<rparr>"

lemma rd_sel [simp]: "rd_bytes (rd b e) = b" "rd_end (rd b e) = e"
  by (simp_all add: rd_def)

text \<open>\<open>io.ReadAtLeast(r, buf, len(buf))\<close>, which is \<open>io.ReadFull\<close>: nothing read and \<open>io.EOF\<close> is
  \<open>io.EOF\<close>, a part read and \<open>io.EOF\<close> is \<open>io.ErrUnexpectedEOF\<close>; to read nothing succeeds.\<close>

definition read_full :: "nat \<Rightarrow> reader \<Rightarrow> (goerr + bytes) \<times> reader" where
  "read_full n r =
     (let b = rd_bytes r; e = rd_end r
      in if n \<le> length b then (Inr (take n b), rd (drop n b) e)
         else (Inl (if e = EOF \<and> b \<noteq> [] then UnexpectedEOF else e), rd [] e))"

text \<open>\<open>bufio.Reader.ReadBytes\<close>: up to and including the delimiter, or what is left together with
  the error.\<close>

definition read_bytes :: "byte \<Rightarrow> reader \<Rightarrow> bytes \<times> goerr option \<times> reader" where
  "read_bytes d r =
     (let line = takeWhile (\<lambda>x. x \<noteq> d) (rd_bytes r);
          rest = dropWhile (\<lambda>x. x \<noteq> d) (rd_bytes r)
      in case rest of
           x # rest' \<Rightarrow> (line @ [x], None, rd rest' (rd_end r))
         | [] \<Rightarrow> (line, Some (rd_end r), rd [] (rd_end r)))"

record writer =
  wr_out :: bytes
  wr_room :: "(nat \<times> goerr) option"

definition write_bytes :: "bytes \<Rightarrow> writer \<Rightarrow> goerr option \<times> writer" where
  "write_bytes b w =
     (case wr_room w of
        None \<Rightarrow> (None, w\<lparr>wr_out := wr_out w @ b\<rparr>)
      | Some (n, e) \<Rightarrow>
          if length b \<le> n then (None, w\<lparr>wr_out := wr_out w @ b, wr_room := Some (n - length b, e)\<rparr>)
          else (Some e, w\<lparr>wr_out := wr_out w @ take n b, wr_room := Some (0, e)\<rparr>))"

subsection \<open>The size preface\<close>

text \<open>\<open>binary.Write\<close> and \<open>binary.Read\<close> of an \<open>int32\<close>, big endian.\<close>

definition be32 :: "32 word \<Rightarrow> bytes" where
  "be32 w = [ucast (drop_bit 24 w), ucast (drop_bit 16 w), ucast (drop_bit 8 w), ucast w]"

definition of_be32 :: "bytes \<Rightarrow> 32 word" where
  "of_be32 bs =
     push_bit 24 (ucast (bs ! 0)) OR push_bit 16 (ucast (bs ! 1)) OR push_bit 8 (ucast (bs ! 2)) OR
     ucast (bs ! 3)"

lemma length_be32 [simp]: "length (be32 w) = 4"
  by (simp add: be32_def)

lemma be32_not_Nil [simp]: "be32 w \<noteq> []"
  by (simp add: be32_def)

lemma of_be32_be32 [simp]: "of_be32 (be32 w) = w"
proof (rule bit_word_eqI)
  fix n assume n: "n < LENGTH(32)"
  have "n < 8 \<or> 8 \<le> n \<and> n < 16 \<or> 16 \<le> n \<and> n < 24 \<or> 24 \<le> n \<and> n < 32" using n by auto
  then show "bit (of_be32 (be32 w)) n = bit w n"
    by (elim disjE) (auto simp: of_be32_def be32_def bit_simps)
qed

text \<open>\<open>int32(n)\<close> of a Go \<open>int\<close> and back.\<close>

definition to_int32 :: "int \<Rightarrow> 32 word" where
  "to_int32 n = word_of_int n"

lemma sint_to_int32: "- 2147483648 \<le> n \<Longrightarrow> n < 2147483648 \<Longrightarrow> sint (to_int32 n) = n"
  by (simp add: to_int32_def sint_sbintrunc' signed_take_bit_int_eq_self)

subsection \<open>The contract of a framing\<close>

record stream_msg =
  sm_data :: bytes
  sm_isTrailer :: bool

text \<open>\<open>encode t d\<close> is what the sender writes for the payload \<open>d\<close>; \<open>decode\<close> is the receiver's
  function that gives the next message; \<open>ok\<close> says which payloads the framing can carry.\<close>

locale framing =
  fixes encode :: "bool \<Rightarrow> bytes \<Rightarrow> bytes"
    and decode :: "reader \<Rightarrow> (goerr + stream_msg) \<times> reader"
    and ok :: "bool \<Rightarrow> bytes \<Rightarrow> bool"
  assumes decode_encode: "ok t d \<Longrightarrow>
      decode (rd (encode t d @ rest) e) = (Inr \<lparr>sm_data = d, sm_isTrailer = t\<rparr>, rd rest e)"
    and decode_end: "decode (rd [] e) = (Inl e, rd [] e)"
begin

text \<open>A sequence of messages comes out as it went in, and then the reader's end.\<close>

fun decodes :: "nat \<Rightarrow> reader \<Rightarrow> (goerr + stream_msg) list \<times> reader" where
  "decodes 0 r = ([], r)"
| "decodes (Suc n) r = (let (x, r1) = decode r; (xs, r2) = decodes n r1 in (x # xs, r2))"

definition encodes :: "stream_msg list \<Rightarrow> bytes" where
  "encodes ms = concat (map (\<lambda>m. encode (sm_isTrailer m) (sm_data m)) ms)"

lemma decodes_encodes:
  "(\<forall>m \<in> set ms. ok (sm_isTrailer m) (sm_data m)) \<Longrightarrow>
   decodes (length ms + n) (rd (encodes ms) e) = (map Inr ms @ replicate n (Inl e), rd [] e)"
proof (induction ms)
  case Nil
  have "decodes n (rd [] e) = (replicate n (Inl e), rd [] e)"
    by (induction n) (simp_all add: decode_end)
  then show ?case by (simp add: encodes_def)
next
  case (Cons m ms)
  have "encodes (m # ms) = encode (sm_isTrailer m) (sm_data m) @ encodes ms" by (simp add: encodes_def)
  with Cons show ?case by (simp add: decode_encode)
qed

lemma encode_inj:
  assumes "\<forall>m \<in> set ms \<union> set ns. ok (sm_isTrailer m) (sm_data m)" and "encodes ms = encodes ns"
  shows "ms = ns"
proof -
  have "map Inr ms @ replicate (length ns) (Inl EOF) = map Inr ns @ replicate (length ms) (Inl EOF :: goerr + stream_msg)"
    using decodes_encodes [of ms "length ns" EOF] decodes_encodes [of ns "length ms" EOF] assms
    by (simp add: add.commute)
  then have "takeWhile (Not \<circ> isl) (map Inr ms @ replicate (length ns) (Inl EOF)) =
      takeWhile (Not \<circ> isl) (map Inr ns @ replicate (length ms) (Inl EOF :: goerr + stream_msg))" by simp
  moreover have "takeWhile (Not \<circ> isl) (map Inr xs @ replicate k (Inl EOF :: goerr + stream_msg)) = map Inr xs"
    for xs :: "stream_msg list" and k
    by (subst takeWhile_append2) (auto simp: takeWhile_eq_Nil_iff)
  ultimately show ?thesis by (simp add: inj_map_eq_map inj_def)
qed

end

end
