(* ===== verification/Wire_Framing.thy ===== *)
theory Wire_Framing
  imports Wire_Io Go_Text
begin

text \<open>
  The size-prefixed framing of \<open>httpgrpc/io.go\<close>: \<open>writeProtoMessage\<close>, \<open>readSizePreface\<close>,
  \<open>newSizePrefixedReader\<close> and \<open>newSizePrefixedWriter\<close>. The codec is a parameter, as its
  \<open>Marshal\<close> function; \<open>http.Flusher.Flush\<close> has no effect on the bytes and is left out.
\<close>

definition maxMessageSize :: int where "maxMessageSize = 104857600"

definition maxInt32 :: int where "maxInt32 = 2147483647"

definition writeSizePreface :: "32 word \<Rightarrow> writer \<Rightarrow> goerr option \<times> writer" where
  "writeSizePreface sz w = write_bytes (be32 sz) w"

definition writeProtoMessage ::
    "('m \<Rightarrow> goerr + bytes) \<Rightarrow> 'm \<Rightarrow> bool \<Rightarrow> writer \<Rightarrow> goerr option \<times> writer" where
  "writeProtoMessage marshal m end_msg w =
     (case marshal m of
        Inl err \<Rightarrow> (Some err, w)
      | Inr b \<Rightarrow>
          (let sz = int (length b)
           in if sz > maxInt32
              then (Some (OtherErr (''message too large to send: '' @ show_int sz @ '' bytes'')), w)
              else
                (let sz' = (if end_msg then - sz else sz)
                 in case writeSizePreface (to_int32 sz') w of
                      (Some err, w1) \<Rightarrow> (Some err, w1)
                    | (None, w1) \<Rightarrow> write_bytes b w1)))"

definition newSizePrefixedWriter ::
    "('m \<Rightarrow> goerr + bytes) \<Rightarrow> 'm \<Rightarrow> bool \<Rightarrow> writer \<Rightarrow> goerr option \<times> writer" where
  "newSizePrefixedWriter marshal m isTrailer w = writeProtoMessage marshal m isTrailer w"

definition readSizePreface :: "reader \<Rightarrow> (goerr + 32 word) \<times> reader" where
  "readSizePreface r =
     (case read_full 4 r of
        (Inl err, r1) \<Rightarrow> (Inl err, r1)
      | (Inr b, r1) \<Rightarrow>
          (let sz = of_be32 b
           in if sint sz = - 2147483648 then (Inl (OtherErr ''bad size preface: size overflow''), r1)
              else (Inr sz, r1)))"

definition newSizePrefixedReader :: "reader \<Rightarrow> (goerr + stream_msg) \<times> reader" where
  "newSizePrefixedReader r =
     (case readSizePreface r of
        (Inl err, r1) \<Rightarrow> (Inl err, r1)
      | (Inr sz, r1) \<Rightarrow>
          (let isTrailer = sint sz < 0;
               n = (if isTrailer then - sz else sz)
           in if sint n > maxMessageSize
              then (Inl (OtherErr (''bad size preface: indicated size is too large: '' @
                      show_int (sint n))), r1)
              else
                (case read_full (nat (sint n)) r1 of
                   (Inl err, r2) \<Rightarrow> (Inl (if err = EOF then UnexpectedEOF else err), r2)
                 | (Inr data, r2) \<Rightarrow> (Inr \<lparr>sm_data = data, sm_isTrailer = isTrailer\<rparr>, r2))))"

subsection \<open>Lemmas\<close>

lemma sint_bounds: "- 2147483648 \<le> sint (w :: 32 word)" "sint (w :: 32 word) < 2147483648"
  using sint_ge [of w] sint_lt [of w] by simp_all

lemma sint_neg:
  "sint w \<noteq> - 2147483648 \<Longrightarrow> sint (- w) = - sint w" for w :: "32 word"
proof -
  assume "sint w \<noteq> - 2147483648"
  with sint_bounds [of w] have "- 2147483648 \<le> - sint w" "- sint w < 2147483648" by auto
  moreover have "- w = to_int32 (- sint w)" by (simp add: to_int32_def)
  ultimately show ?thesis by (simp only: sint_to_int32)
qed

text \<open>The bytes that \<open>writeProtoMessage\<close> produces for a payload.\<close>

definition sp_encode :: "bool \<Rightarrow> bytes \<Rightarrow> bytes" where
  "sp_encode t d = be32 (to_int32 (if t then - int (length d) else int (length d))) @ d"

lemma writeProtoMessage_out:
  assumes "marshal m = Inr b" and "int (length b) \<le> maxInt32" and "wr_room w = None"
  shows "writeProtoMessage marshal m t w = (None, w\<lparr>wr_out := wr_out w @ sp_encode t b\<rparr>)"
  using assms by (simp add: writeProtoMessage_def writeSizePreface_def write_bytes_def sp_encode_def Let_def)

lemma read_full_app [simp]: "n = length b \<Longrightarrow> read_full n (rd (b @ rest) e) = (Inr b, rd rest e)"
  by (simp add: read_full_def)

lemma readSizePreface_encode:
  assumes "int (length d) \<le> maxInt32"
  shows "readSizePreface (rd (sp_encode t d @ rest) e) =
    (Inr (to_int32 (if t then - int (length d) else int (length d))), rd (d @ rest) e)"
proof -
  let ?n = "if t then - int (length d) else int (length d)"
  have n: "- 2147483648 < ?n" "?n < 2147483648" using assms by (auto simp: maxInt32_def)
  then have "sint (to_int32 ?n) = ?n" by (intro sint_to_int32) simp_all
  with n have "sint (to_int32 ?n) \<noteq> - 2147483648" by simp
  then show ?thesis by (simp add: readSizePreface_def sp_encode_def Let_def)
qed

lemma newSizePrefixedReader_encode:
  assumes "int (length d) \<le> maxInt32"
  shows "newSizePrefixedReader (rd (sp_encode t d @ rest) e) =
    (if int (length d) > maxMessageSize
     then (Inl (OtherErr (''bad size preface: indicated size is too large: '' @
             show_int (int (length d)))), rd (d @ rest) e)
     else (Inr \<lparr>sm_data = d, sm_isTrailer = (t \<and> d \<noteq> [])\<rparr>, rd rest e))"
proof -
  let ?n = "if t then - int (length d) else int (length d)"
  have n: "- 2147483648 < ?n" "?n < 2147483648" using assms by (auto simp: maxInt32_def)
  then have sz: "sint (to_int32 ?n) = ?n" by (intro sint_to_int32) simp_all
  with n have neg: "sint (- to_int32 ?n) = - ?n" by (subst sint_neg) simp_all
  show ?thesis
  proof (cases "t \<and> d \<noteq> []")
    case True
    then have "sint (to_int32 (- int (length d))) < 0" "sint (- to_int32 (- int (length d))) = int (length d)"
      using sz neg by simp_all
    with True show ?thesis
      unfolding newSizePrefixedReader_def readSizePreface_encode [OF assms] by (simp add: Let_def)
  next
    case False
    then have "to_int32 ?n = to_int32 (int (length d))" "sint (to_int32 (int (length d))) = int (length d)"
      using sz by (auto simp: to_int32_def)
    with False show ?thesis
      unfolding newSizePrefixedReader_def readSizePreface_encode [OF assms] by (simp add: Let_def)
  qed
qed

definition sp_ok :: "bool \<Rightarrow> bytes \<Rightarrow> bool" where
  "sp_ok t d \<longleftrightarrow> int (length d) \<le> maxMessageSize \<and> (t \<longrightarrow> d \<noteq> [])"

interpretation size_prefixed: framing sp_encode newSizePrefixedReader sp_ok
proof unfold_locales
  fix t d rest e
  assume "sp_ok t d"
  then show "newSizePrefixedReader (rd (sp_encode t d @ rest) e) =
      (Inr \<lparr>sm_data = d, sm_isTrailer = t\<rparr>, rd rest e)"
    using newSizePrefixedReader_encode [of d t rest e]
    by (auto simp: sp_ok_def maxMessageSize_def maxInt32_def)
next
  show "newSizePrefixedReader (rd [] e) = (Inl e, rd [] e)" for e
    by (simp add: newSizePrefixedReader_def readSizePreface_def read_full_def)
qed

text \<open>A message that is cut off is never taken for a message.\<close>

lemma newSizePrefixedReader_truncated:
  assumes "sp_ok t d" and "0 < k" and "k < length (sp_encode t d)"
  shows "fst (newSizePrefixedReader (rd (take k (sp_encode t d)) EOF)) = Inl UnexpectedEOF"
proof (cases "k < 4")
  case True
  with assms show ?thesis
    by (simp add: newSizePrefixedReader_def readSizePreface_def read_full_def sp_encode_def Let_def min_def)
next
  case False
  let ?n = "if t then - int (length d) else int (length d)"
  have len: "int (length d) \<le> maxInt32" using assms(1) by (simp add: sp_ok_def maxMessageSize_def maxInt32_def)
  have n: "- 2147483648 < ?n" "?n < 2147483648" using len by (auto simp: maxInt32_def)
  then have sz: "sint (to_int32 ?n) = ?n" by (intro sint_to_int32) simp_all
  with n have neg: "sint (- to_int32 ?n) = - ?n" by (subst sint_neg) simp_all
  have take: "take k (sp_encode t d) = be32 (to_int32 ?n) @ take (k - 4) d"
    using False by (simp add: sp_encode_def)
  have "readSizePreface (rd (take k (sp_encode t d)) EOF) = (Inr (to_int32 ?n), rd (take (k - 4) d) EOF)"
    unfolding take using sz n by (simp add: readSizePreface_def Let_def)
  moreover have "k - 4 < length d" using assms(3) False by (simp add: sp_encode_def)
  ultimately show ?thesis
    using sz neg assms(1) n
    by (cases t) (auto simp: newSizePrefixedReader_def read_full_def sp_ok_def Let_def)
qed

text \<open>Whatever the bytes are, what is returned is no longer than the limit, and is what follows
  the preface.\<close>

lemma read_full_Inr:
  "read_full n r = (Inr b, r1) \<Longrightarrow>
   rd_bytes r = b @ rd_bytes r1 \<and> length b = n \<and> rd_end r1 = rd_end r"
  by (auto simp: read_full_def Let_def split: if_splits)

lemma newSizePrefixedReader_sound:
  assumes "newSizePrefixedReader r = (Inr m, r1)"
  shows "int (length (sm_data m)) \<le> maxMessageSize \<and>
    (\<exists>p. length p = 4 \<and> rd_bytes r = p @ sm_data m @ rd_bytes r1 \<and> (sm_isTrailer m \<longleftrightarrow> sint (of_be32 p) < 0) \<and>
       \<bar>sint (of_be32 p)\<bar> = int (length (sm_data m)))"
proof -
  from assms obtain sz r0 where pre: "readSizePreface r = (Inr sz, r0)"
    by (auto simp: newSizePrefixedReader_def split: sum.splits prod.splits)
  then obtain p where p: "read_full 4 r = (Inr p, r0)" "sz = of_be32 p" "sint sz \<noteq> - 2147483648"
    by (auto simp: readSizePreface_def Let_def split: sum.splits prod.splits if_splits)
  let ?n = "if sint sz < 0 then - sz else sz"
  have abs: "sint ?n = \<bar>sint sz\<bar>" using sint_neg [OF p(3)] by simp
  from assms pre obtain d where d: "read_full (nat (sint ?n)) r0 = (Inr d, r1)"
    "m = \<lparr>sm_data = d, sm_isTrailer = sint sz < 0\<rparr>" "sint ?n \<le> maxMessageSize"
    by (auto simp: newSizePrefixedReader_def Let_def split: sum.splits prod.splits if_splits)
  from read_full_Inr [OF p(1)] read_full_Inr [OF d(1)] d(2,3) p(2) abs show ?thesis
    by (intro conjI exI [of _ p]) auto
qed

end
