(* ===== verification/Sse.thy ===== *)
theory Sse
  imports Wire_Io Go_Text
begin

text \<open>
  Server-sent events: \<open>internal/sse/sse.go\<close>, and the reader and writer of \<open>httpgrpc/io.go\<close>
  that carry the responses of the JSON protocol in them. The codec is a parameter, as its
  \<open>Marshal\<close> function; flushing does not change the bytes and is a parameter too, because its
  error is returned.
\<close>

record event =
  ev_Type :: string
  ev_Data :: bytes

definition LF :: byte where "LF = 10"
definition CR :: byte where "CR = 13"

text \<open>\<open>bytes.TrimRight(line, "\r\n")\<close>.\<close>

definition trim_right :: "bytes \<Rightarrow> bytes" where
  "trim_right line = rev (dropWhile (\<lambda>x. x = CR \<or> x = LF) (rev line))"

definition data_prefix :: bytes where "data_prefix = bytes_of ''data: ''"
definition event_prefix :: bytes where "event_prefix = bytes_of ''event: ''"

definition with_type :: "event \<Rightarrow> event" where
  "with_type ev = (if ev_Type ev = '''' then ev\<lparr>ev_Type := ''message''\<rparr> else ev)"

definition add_data :: "event option \<Rightarrow> bytes \<Rightarrow> event" where
  "add_data current payload =
     (case current of
        None \<Rightarrow> \<lparr>ev_Type = '''', ev_Data = payload\<rparr>
      | Some ev \<Rightarrow> ev\<lparr>ev_Data := ev_Data ev @ payload\<rparr>)"

definition set_type :: "event option \<Rightarrow> string \<Rightarrow> event" where
  "set_type current ty =
     (case current of None \<Rightarrow> \<lparr>ev_Type = ty, ev_Data = []\<rparr> | Some ev \<Rightarrow> ev\<lparr>ev_Type := ty\<rparr>)"

lemma read_bytes_shorter:
  "read_bytes d r = (line, None, r1) \<Longrightarrow> length (rd_bytes r1) < length (rd_bytes r)"
proof -
  assume "read_bytes d r = (line, None, r1)"
  then obtain x rest where "dropWhile (\<lambda>x. x \<noteq> d) (rd_bytes r) = x # rest" "rd_bytes r1 = rest"
    by (auto simp: read_bytes_def Let_def split: list.splits)
  moreover from this(1) have "length (x # rest) \<le> length (rd_bytes r)"
    by (metis length_dropWhile_le)
  ultimately show ?thesis by simp
qed

function sse_loop :: "event option \<Rightarrow> reader \<Rightarrow> (goerr + event) \<times> reader" where
  "sse_loop current r =
     (case read_bytes LF r of
        (line0, Some err, r1) \<Rightarrow>
          if err = EOF then
            (if trim_right line0 \<noteq> [] then (Inl UnexpectedEOF, r1)
             else case current of
                    Some ev \<Rightarrow> (Inr (with_type ev), r1)
                  | None \<Rightarrow> (Inl EOF, r1))
          else (Inl err, r1)
      | (line0, None, r1) \<Rightarrow>
          (let line = trim_right line0
           in if has_prefix line data_prefix then sse_loop (Some (add_data current (drop 6 line))) r1
              else if has_prefix line event_prefix
              then sse_loop (Some (set_type current (string_of (drop 7 line)))) r1
              else if line = [] then
                (case current of Some ev \<Rightarrow> (Inr (with_type ev), r1) | None \<Rightarrow> sse_loop None r1)
              else (Inl (OtherErr ''malformed event''), r1)))"
  by pat_completeness auto
termination
  by (relation "measure (\<lambda>(current, r). length (rd_bytes r))") (auto dest: read_bytes_shorter [OF sym])

declare sse_loop.simps [simp del]

definition sse_Decode :: "reader \<Rightarrow> (goerr + event) \<times> reader" where
  "sse_Decode r = sse_loop None r"

definition sse_Encode :: "event \<Rightarrow> writer \<Rightarrow> goerr option \<times> writer" where
  "sse_Encode ev w =
     (if ev_Type ev = '''' \<or> ev_Type ev = ''message''
      then write_bytes (data_prefix @ ev_Data ev @ [LF, LF]) w
      else write_bytes (event_prefix @ bytes_of (ev_Type ev) @ [LF] @ data_prefix @ ev_Data ev @ [LF, LF]) w)"

subsection \<open>Responses as events\<close>

definition newSSEWriter ::
    "('m \<Rightarrow> goerr + bytes) \<Rightarrow> goerr option \<Rightarrow> 'm \<Rightarrow> bool \<Rightarrow> writer \<Rightarrow> goerr option \<times> writer" where
  "newSSEWriter marshal flush m isTrailer w =
     (case marshal m of
        Inl err \<Rightarrow> (Some err, w)
      | Inr b \<Rightarrow>
          (case sse_Encode (if isTrailer then \<lparr>ev_Type = ''trailer'', ev_Data = b\<rparr>
                            else \<lparr>ev_Type = '''', ev_Data = b\<rparr>) w of
             (Some err, w1) \<Rightarrow> (Some err, w1)
           | (None, w1) \<Rightarrow> (flush, w1)))"

definition newSSEReader :: "reader \<Rightarrow> (goerr + stream_msg) \<times> reader" where
  "newSSEReader r =
     (case sse_Decode r of
        (Inl err, r1) \<Rightarrow> (Inl err, r1)
      | (Inr ev, r1) \<Rightarrow> (Inr \<lparr>sm_data = ev_Data ev, sm_isTrailer = (ev_Type ev = ''trailer'')\<rparr>, r1))"

subsection \<open>Lemmas\<close>

text \<open>What a line can hold: no line feed, and no carriage return at its end, which the decoder
  takes for a part of the line's end.\<close>

definition line_safe :: "bytes \<Rightarrow> bool" where
  "line_safe b \<longleftrightarrow> LF \<notin> set b \<and> (b = [] \<or> last b \<noteq> CR)"

lemma trim_right_safe: "line_safe b \<Longrightarrow> trim_right (b @ [LF]) = b"
  by (cases b rule: rev_cases) (auto simp: trim_right_def line_safe_def)

lemma trim_right_prefixed: "line_safe b \<Longrightarrow> line_safe p \<Longrightarrow> p \<noteq> [] \<Longrightarrow> trim_right (p @ b @ [LF]) = p @ b"
  using trim_right_safe [of "p @ b"] by (cases "b = []") (auto simp: line_safe_def)

lemma read_bytes_line: "LF \<notin> set b \<Longrightarrow> read_bytes LF (rd (b @ LF # rest) e) = (b @ [LF], None, rd rest e)"
proof -
  assume "LF \<notin> set b"
  then have "takeWhile (\<lambda>x. x \<noteq> LF) (b @ LF # rest) = b" "dropWhile (\<lambda>x. x \<noteq> LF) (b @ LF # rest) = LF # rest"
    by (induction b) auto
  then show ?thesis by (simp add: read_bytes_def)
qed

lemma prefixes [simp]:
  "LF \<notin> set data_prefix" "LF \<notin> set event_prefix" "line_safe data_prefix" "line_safe event_prefix"
  "data_prefix \<noteq> []" "event_prefix \<noteq> []" "length data_prefix = 6" "length event_prefix = 7"
  "\<not> has_prefix (event_prefix @ b) data_prefix" "\<not> has_prefix [] data_prefix" "\<not> has_prefix [] event_prefix"
  by (simp_all add: data_prefix_def event_prefix_def bytes_of_def LF_def CR_def line_safe_def has_prefix_def)

lemma sse_loop_data:
  assumes "line_safe b"
  shows "sse_loop current (rd (data_prefix @ b @ LF # rest) e) =
    sse_loop (Some (add_data current b)) (rd rest e)"
proof -
  have "read_bytes LF (rd ((data_prefix @ b) @ LF # rest) e) = ((data_prefix @ b) @ [LF], None, rd rest e)"
    using assms by (intro read_bytes_line) (simp add: line_safe_def)
  moreover have "trim_right (data_prefix @ b @ [LF]) = data_prefix @ b"
    using assms by (intro trim_right_prefixed) simp_all
  moreover have "drop 6 (data_prefix @ b) = b" by simp
  ultimately show ?thesis by (simp add: sse_loop.simps [of current "rd _ _"] Let_def)
qed

lemma sse_loop_event:
  assumes "line_safe (bytes_of ty)"
  shows "sse_loop current (rd (event_prefix @ bytes_of ty @ LF # rest) e) =
    sse_loop (Some (set_type current ty)) (rd rest e)"
proof -
  have "read_bytes LF (rd ((event_prefix @ bytes_of ty) @ LF # rest) e) =
      ((event_prefix @ bytes_of ty) @ [LF], None, rd rest e)"
    using assms by (intro read_bytes_line) (simp add: line_safe_def)
  moreover have "trim_right (event_prefix @ bytes_of ty @ [LF]) = event_prefix @ bytes_of ty"
    using assms by (intro trim_right_prefixed) simp_all
  moreover have "drop 7 (event_prefix @ bytes_of ty) = bytes_of ty" by simp
  ultimately show ?thesis by (simp add: sse_loop.simps [of current "rd _ _"] Let_def)
qed

lemma sse_loop_blank: "sse_loop (Some ev) (rd (LF # rest) e) = (Inr (with_type ev), rd rest e)"
proof -
  have "read_bytes LF (rd (LF # rest) e) = ([LF], None, rd rest e)"
    using read_bytes_line [of "[]" rest e] by simp
  then show ?thesis by (simp add: sse_loop.simps [of "Some ev"] trim_right_def Let_def)
qed

lemma sse_loop_end: "sse_loop None (rd [] e) = (Inl e, rd [] e)"
  by (simp add: sse_loop.simps [of None] read_bytes_def trim_right_def)

text \<open>What the encoder writes for an event.\<close>

definition sse_bytes :: "event \<Rightarrow> bytes" where
  "sse_bytes ev =
     (if ev_Type ev = '''' \<or> ev_Type ev = ''message'' then []
      else event_prefix @ bytes_of (ev_Type ev) @ [LF]) @ data_prefix @ ev_Data ev @ [LF, LF]"

lemma sse_Encode_out: "wr_room w = None \<Longrightarrow> sse_Encode ev w = (None, w\<lparr>wr_out := wr_out w @ sse_bytes ev\<rparr>)"
  by (simp add: sse_Encode_def write_bytes_def sse_bytes_def)

lemma sse_Decode_bytes:
  assumes "line_safe (ev_Data ev)" and "line_safe (bytes_of (ev_Type ev))"
  shows "sse_Decode (rd (sse_bytes ev @ rest) e) = (Inr (with_type ev), rd rest e)"
proof (cases "ev_Type ev = '''' \<or> ev_Type ev = ''message''")
  case True
  with assms show ?thesis
    by (auto simp: sse_Decode_def sse_bytes_def sse_loop_data sse_loop_blank add_data_def with_type_def)
next
  case False
  with assms show ?thesis
    by (simp add: sse_Decode_def sse_bytes_def sse_loop_event sse_loop_data sse_loop_blank
        add_data_def set_type_def with_type_def)
qed

definition sse_encode :: "bool \<Rightarrow> bytes \<Rightarrow> bytes" where
  "sse_encode t d = sse_bytes \<lparr>ev_Type = (if t then ''trailer'' else ''''), ev_Data = d\<rparr>"

definition sse_ok :: "bool \<Rightarrow> bytes \<Rightarrow> bool" where
  "sse_ok t d \<longleftrightarrow> line_safe d"

lemma line_safe_trailer [simp]: "line_safe (bytes_of ''trailer'')" "line_safe (bytes_of '''')"
  by (simp_all add: line_safe_def bytes_of_def LF_def CR_def)

interpretation sse: framing sse_encode newSSEReader sse_ok
proof unfold_locales
  fix t d rest e
  assume "sse_ok t d"
  then show "newSSEReader (rd (sse_encode t d @ rest) e) = (Inr \<lparr>sm_data = d, sm_isTrailer = t\<rparr>, rd rest e)"
    by (simp add: newSSEReader_def sse_encode_def sse_Decode_bytes sse_ok_def with_type_def)
next
  show "newSSEReader (rd [] e) = (Inl e, rd [] e)" for e
    by (simp add: newSSEReader_def sse_Decode_def sse_loop_end)
qed

lemma newSSEWriter_out:
  "marshal m = Inr b \<Longrightarrow> wr_room w = None \<Longrightarrow>
   newSSEWriter marshal flush m t w = (flush, w\<lparr>wr_out := wr_out w @ sse_encode t b\<rparr>)"
  by (simp add: newSSEWriter_def sse_Encode_out sse_encode_def)

end
