(* ===== verification/Http_Server.thy ===== *)
theory Http_Server
  imports Http_Env Transport_Stream Wire_Framing Sse
begin

text \<open>
  The server of the HTTP transport, \<open>httpgrpc/server.go\<close>, for unary methods, together with the
  selection of the codec in \<open>httpgrpc/protocol_versions.go\<close>.

  A request is its method, headers and body; \<open>rq_ctx_err\<close> is the error of the request's context
  when the error renderer looks at it. The implementation of a method, with its interceptors,
  is a function of the context it gets and of the decoding function; it returns the calls it
  makes on the transport stream, and its outcome.
\<close>

record http_request =
  rq_Method :: string
  rq_Header :: header
  rq_Body :: reader
  rq_ctx_err :: "goerr option"

definition read_all :: "reader \<Rightarrow> goerr + bytes" where
  "read_all r = (if rd_end r = EOF then Inr (rd_bytes r) else Inl (rd_end r))"

subsection \<open>The context\<close>

text \<open>\<open>time.Duration\<close> is a 64-bit count of nanoseconds.\<close>

definition timeout_unit :: "char \<Rightarrow> 64 word option" where
  "timeout_unit c =
     map_of [(CHR ''H'', 3600000000000), (CHR ''M'', 60000000000), (CHR ''S'', 1000000000),
             (CHR ''m'', 1000000), (CHR ''u'', 1000), (CHR ''n'', 1)] c"

text \<open>The duration that is handed to \<open>context.WithTimeout\<close>, if any.\<close>

definition header_timeout :: "string \<Rightarrow> 64 word option" where
  "header_timeout timeout =
     (if timeout = '''' then None
      else (case parse_int (butlast timeout) 64 of
              None \<Rightarrow> None
            | Some timeoutVal \<Rightarrow>
                (case timeout_unit (last timeout) of
                   None \<Rightarrow> None
                 | Some unit \<Rightarrow> Some (word_of_int timeoutVal * unit))))"

record server_ctx =
  sc_md :: md
  sc_timeout :: "64 word option"

definition contextFromHeaders :: "header \<Rightarrow> goerr + server_ctx" where
  "contextFromHeaders h =
     (case asMetadata h of
        Inl err \<Rightarrow> Inl err
      | Inr md \<Rightarrow> Inr \<lparr>sc_md = md, sc_timeout = header_timeout (h_get h ''GRPC-Timeout'')\<rparr>)"

subsection \<open>Errors\<close>

definition writeError :: "int \<Rightarrow> response_writer \<Rightarrow> response_writer" where
  "writeError code rw =
     (let msg = StatusText code;
          msg' = (if msg = '''' then (if code = 499 then ''Client Closed Request'' else ''Unknown'') else msg)
      in http_Error msg' code rw)"

definition DefaultErrorRenderer ::
    "status_api \<Rightarrow> goerr option \<Rightarrow> status \<Rightarrow> response_writer \<Rightarrow> response_writer" where
  "DefaultErrorRenderer api ctx_err st rw =
     (if (st_code st = Canceled \<or> st_code st = DeadlineExceeded) \<and> ctx_err \<noteq> None
      then http_Error ''Client Closed Request'' 499 rw
      else let code = httpStatusFromCode (st_code st);
               msg = StatusText code
           in http_Error (if msg = '''' then code_String api (st_code st) else msg) code rw)"

definition grpcDetailsHeader :: string where
  "grpcDetailsHeader = canonical_key ''X-GRPC-Details''"

text \<open>An error is never sent as OK.\<close>

definition error_status :: "status_api \<Rightarrow> goerr \<Rightarrow> status" where
  "error_status api err =
     (let st = FromError api err in if st_code st = OK then st\<lparr>st_code := Internal\<rparr> else st)"

text \<open>The headers that carry a status.\<close>

definition add_details :: "'m wire_codec \<Rightarrow> any_pb list \<Rightarrow> response_writer \<Rightarrow> response_writer" where
  "add_details codec ds rw =
     foldl (\<lambda>rw d. case c_MarshalAny codec d of
                     Inl err \<Rightarrow> rw
                   | Inr b \<Rightarrow> rw_Add grpcDetailsHeader (RawURLEncode b) rw) rw ds"

definition write_status :: "status_api \<Rightarrow> 'm wire_codec \<Rightarrow> status \<Rightarrow> response_writer \<Rightarrow> response_writer" where
  "write_status api codec st rw =
     add_details codec (st_details st)
       (rw_Set ''X-GRPC-Status'' (show_int (code_num (api_codes api) (st_code st)) @ '':'' @ st_message st) rw)"

subsection \<open>Unary methods\<close>

definition getCodecForServerUnaryResponse :: "'m http_env \<Rightarrow> string \<Rightarrow> 'm wire_codec option" where
  "getCodecForServerUnaryResponse env contentType =
     (let mediaType = parse_media env contentType
      in if mediaType = UnaryRpcContentType_V1 then GetCodecV2 env protoName
         else if mediaType = ApplicationJson then GetCodecV2 env jsonCodecName
         else None)"

type_synonym 'm unary_impl =
  "server_ctx \<Rightarrow> ('m \<Rightarrow> goerr + 'm) \<Rightarrow> sts_call list \<times> (goerr + 'm)"

type_synonym error_renderer = "goerr option \<Rightarrow> status \<Rightarrow> response_writer \<Rightarrow> response_writer"

text \<open>The prefix of the headers that carry the trailers.\<close>

definition trailer_header :: string where "trailer_header = ''X-GRPC-Trailer-''"

definition rw_toHeaders :: "md \<Rightarrow> string \<Rightarrow> response_writer \<Rightarrow> response_writer" where
  "rw_toHeaders md pfx rw = rw\<lparr>rw_header := toHeaders md (rw_header rw) pfx\<rparr>"

definition unary_dec :: "'m http_env \<Rightarrow> 'm wire_codec \<Rightarrow> bytes \<Rightarrow> 'm \<Rightarrow> goerr + 'm" where
  "unary_dec env codec req msg =
     (case c_Unmarshal codec req msg of
        Inl err \<Rightarrow> Inl (status_error InvalidArgument (Error_text (env_api env) err))
      | Inr m \<Rightarrow> Inr m)"

definition handleMethod ::
    "'m http_env \<Rightarrow> string \<Rightarrow> string \<Rightarrow> 'm unary_impl \<Rightarrow> error_renderer option \<Rightarrow> http_request \<Rightarrow> response_writer" where
  "handleMethod env serviceName methodName impl errFunc r =
     (let errHandler = (case errFunc of None \<Rightarrow> DefaultErrorRenderer (env_api env) | Some f \<Rightarrow> f);
          w = new_response
      in if rq_Method r \<noteq> ''POST'' then writeError 405 (rw_Set ''Allow'' ''POST'' w)
         else
           let contentType = h_get (rq_Header r) ''Content-Type''
           in case getCodecForServerUnaryResponse env contentType of
                None \<Rightarrow> writeError 415 w
              | Some codec \<Rightarrow>
                  (case contextFromHeaders (rq_Header r) of
                     Inl err \<Rightarrow> writeError 400 w
                   | Inr ctx \<Rightarrow>
                       (case read_all (rq_Body r) of
                          Inl err \<Rightarrow> writeError 499 w
                        | Inr req \<Rightarrow>
                            let (calls, outcome) = impl ctx (unary_dec env codec req);
                                sts = snd (sts_run calls
                                  (new_unary_sts (''/'' @ serviceName @ ''/'' @ methodName)));
                                w1 = rw_toHeaders (md_list (sts_GetHeaders sts)) '''' w;
                                w2 = rw_toHeaders (md_list (sts_GetTrailers sts)) trailer_header w1
                            in case outcome of
                                 Inl err \<Rightarrow>
                                   (let st = error_status (env_api env) err
                                    in errHandler (rq_ctx_err r) st (write_status (env_api env) codec st w2))
                               | Inr resp \<Rightarrow>
                                   (case c_Marshal codec resp of
                                      Inl err \<Rightarrow> writeError 500 w2
                                    | Inr b \<Rightarrow>
                                        rw_Write b
                                          (rw_Set ''Content-Length'' (show_nat (length b))
                                            (rw_Set ''Content-Type'' contentType w2))))))"

subsection \<open>Lemmas\<close>

lemma http_Error_sel:
  "rw_status rw = None \<Longrightarrow> rw_status (http_Error msg code rw) = Some code"
  "rw_status rw = None \<Longrightarrow> rw_body (http_Error msg code rw) = rw_body rw @ bytes_of msg @ [10]"
  "rw_status rw = None \<Longrightarrow> rw_sent (http_Error msg code rw) =
     h_set (h_set (h_del (rw_header rw) ''Content-Length'') ''Content-Type'' ''text/plain; charset=utf-8'')
       ''X-Content-Type-Options'' ''nosniff''"
  by (simp_all add: http_Error_def rw_Write_def Let_def)

lemma writeError_status: "rw_status rw = None \<Longrightarrow> rw_status (writeError code rw) = Some code"
  by (simp add: writeError_def http_Error_sel Let_def)

lemma rw_toHeaders_sel [simp]:
  "rw_status (rw_toHeaders md pfx rw) = rw_status rw" "rw_body (rw_toHeaders md pfx rw) = rw_body rw"
  "rw_header (rw_toHeaders md pfx rw) = toHeaders md (rw_header rw) pfx"
  by (simp_all add: rw_toHeaders_def)

lemma add_details_sel [simp]:
  "rw_status (add_details codec ds rw) = rw_status rw" "rw_body (add_details codec ds rw) = rw_body rw"
  unfolding add_details_def by (induction ds arbitrary: rw) (auto split: sum.splits)

lemma mget_add_details:
  "mget (rw_header (add_details codec ds rw)) k =
     mget (rw_header rw) k @
     (if k = grpcDetailsHeader
      then map RawURLEncode (concat (map (\<lambda>d. case c_MarshalAny codec d of Inl _ \<Rightarrow> [] | Inr b \<Rightarrow> [b]) ds))
      else [])"
proof -
  have fixed: "canonical_key grpcDetailsHeader = grpcDetailsHeader" by (simp add: grpcDetailsHeader_def)
  show ?thesis
    unfolding add_details_def
    by (induction ds arbitrary: rw) (auto simp: mget_h_add fixed split: sum.splits)
qed

lemma write_status_sel [simp]:
  "rw_status (write_status api codec st rw) = rw_status rw"
  "rw_body (write_status api codec st rw) = rw_body rw"
  by (simp_all add: write_status_def)

text \<open>Every way out of the handler writes a status line, and so answers the request.\<close>

lemma DefaultErrorRenderer_status:
  "rw_status rw = None \<Longrightarrow>
   rw_status (DefaultErrorRenderer api ctx_err st rw) =
     Some (if (st_code st = Canceled \<or> st_code st = DeadlineExceeded) \<and> ctx_err \<noteq> None then 499
           else httpStatusFromCode (st_code st))"
  by (simp add: DefaultErrorRenderer_def http_Error_sel Let_def)

lemma new_response_sel [simp]:
  "rw_status new_response = None" "rw_header new_response = []" "rw_body new_response = []"
  by (simp_all add: new_response_def)

lemma error_status_not_OK: "st_code (error_status api err) \<noteq> OK"
  by (simp add: error_status_def Let_def)

end
