(* ===== verification/Json_Stream.thy ===== *)
theory Json_Stream
  imports Wire_Io Go_Text
begin

text \<open>
  The JSON request streams of \<open>httpgrpc/io.go\<close>: \<open>newJSONReader\<close> and \<open>newJSONWriter\<close>. What
  the reader uses of \<open>encoding/json\<close> is \<open>Decoder.Decode\<close> into a \<open>json.RawMessage\<close>: the
  decoder's scanner, an automaton over bytes with a stack of open objects and arrays, and its
  loop \<open>readValue\<close>. A syntax error is sticky, and its text, which nothing depends on, is not
  the library's.
\<close>

subsection \<open>The scanner of encoding/json\<close>

datatype json_open = ObjectKey | ObjectValue | ArrayValue

datatype json_state =
    BeginValueOrEmpty | BeginValue | BeginStringOrEmpty | BeginString | EndValue
  | InString | InStringEsc | InStringEscU nat
  | Neg | Int1 | Int0 | Dot | Dot0 | Exp | ExpSign | Exp0 | Literal bytes

datatype json_op = ScanContinue | ScanEndContainer | ScanEnd | ScanError

type_synonym json_scanner = "json_state \<times> json_open list"

definition json_space :: "byte \<Rightarrow> bool" where
  "json_space c \<longleftrightarrow> c = 32 \<or> c = 9 \<or> c = 13 \<or> c = 10"

definition json_digit :: "byte \<Rightarrow> bool" where
  "json_digit c \<longleftrightarrow> 48 \<le> c \<and> c \<le> 57"

definition json_hex :: "byte \<Rightarrow> bool" where
  "json_hex c \<longleftrightarrow> json_digit c \<or> (97 \<le> c \<and> c \<le> 102) \<or> (65 \<le> c \<and> c \<le> 70)"

definition max_depth :: nat where "max_depth = 10000"

text \<open>The byte after a value: it ends a top-level value and is not part of it.\<close>

definition json_end_value :: "json_open list \<Rightarrow> byte \<Rightarrow> json_op \<times> json_scanner" where
  "json_end_value stk c =
     (case stk of
        [] \<Rightarrow> (ScanEnd, EndValue, [])
      | ps # stk' \<Rightarrow>
          if json_space c then (ScanContinue, EndValue, stk)
          else (case ps of
                  ObjectKey \<Rightarrow>
                    if c = 58 then (ScanContinue, BeginValue, ObjectValue # stk') else (ScanError, EndValue, stk)
                | ObjectValue \<Rightarrow>
                    if c = 44 then (ScanContinue, BeginString, ObjectKey # stk')
                    else if c = 125 then (ScanEndContainer, EndValue, stk')
                    else (ScanError, EndValue, stk)
                | ArrayValue \<Rightarrow>
                    if c = 44 then (ScanContinue, BeginValue, stk)
                    else if c = 93 then (ScanEndContainer, EndValue, stk')
                    else (ScanError, EndValue, stk)))"

definition json_push :: "json_state \<Rightarrow> json_open \<Rightarrow> json_open list \<Rightarrow> json_op \<times> json_scanner" where
  "json_push st ps stk =
     (if Suc (length stk) \<le> max_depth then (ScanContinue, st, ps # stk) else (ScanError, st, stk))"

definition json_begin_value :: "json_open list \<Rightarrow> byte \<Rightarrow> json_op \<times> json_scanner" where
  "json_begin_value stk c =
     (if json_space c then (ScanContinue, BeginValue, stk)
      else if c = 123 then json_push BeginStringOrEmpty ObjectKey stk
      else if c = 91 then json_push BeginValueOrEmpty ArrayValue stk
      else if c = 34 then (ScanContinue, InString, stk)
      else if c = 45 then (ScanContinue, Neg, stk)
      else if c = 48 then (ScanContinue, Int0, stk)
      else if c = 116 then (ScanContinue, Literal (bytes_of ''rue''), stk)
      else if c = 102 then (ScanContinue, Literal (bytes_of ''alse''), stk)
      else if c = 110 then (ScanContinue, Literal (bytes_of ''ull''), stk)
      else if json_digit c then (ScanContinue, Int1, stk)
      else (ScanError, BeginValue, stk))"

definition json_begin_string :: "json_open list \<Rightarrow> byte \<Rightarrow> json_op \<times> json_scanner" where
  "json_begin_string stk c =
     (if json_space c then (ScanContinue, BeginString, stk)
      else if c = 34 then (ScanContinue, InString, stk)
      else (ScanError, BeginString, stk))"

definition json_int0 :: "json_open list \<Rightarrow> byte \<Rightarrow> json_op \<times> json_scanner" where
  "json_int0 stk c =
     (if c = 46 then (ScanContinue, Dot, stk)
      else if c = 101 \<or> c = 69 then (ScanContinue, Exp, stk)
      else json_end_value stk c)"

fun json_step :: "json_scanner \<Rightarrow> byte \<Rightarrow> json_op \<times> json_scanner" where
  "json_step (BeginValueOrEmpty, stk) c =
     (if json_space c then (ScanContinue, BeginValueOrEmpty, stk)
      else if c = 93 then json_end_value stk c else json_begin_value stk c)"
| "json_step (BeginValue, stk) c = json_begin_value stk c"
| "json_step (BeginStringOrEmpty, stk) c =
     (if json_space c then (ScanContinue, BeginStringOrEmpty, stk)
      else if c = 125 then json_end_value (ObjectValue # tl stk) c else json_begin_string stk c)"
| "json_step (BeginString, stk) c = json_begin_string stk c"
| "json_step (EndValue, stk) c = json_end_value stk c"
| "json_step (InString, stk) c =
     (if c = 34 then (ScanContinue, EndValue, stk)
      else if c = 92 then (ScanContinue, InStringEsc, stk)
      else if c < 32 then (ScanError, InString, stk)
      else (ScanContinue, InString, stk))"
| "json_step (InStringEsc, stk) c =
     (if c \<in> set (bytes_of [CHR ''b'', CHR ''f'', CHR ''n'', CHR ''r'', CHR ''t'', CHR 0x5C, CHR ''/'', CHR 0x22])
      then (ScanContinue, InString, stk)
      else if c = 117 then (ScanContinue, InStringEscU 3, stk)
      else (ScanError, InStringEsc, stk))"
| "json_step (InStringEscU n, stk) c =
     (if json_hex c then (ScanContinue, (case n of 0 \<Rightarrow> InString | Suc k \<Rightarrow> InStringEscU k), stk)
      else (ScanError, InStringEscU n, stk))"
| "json_step (Neg, stk) c =
     (if c = 48 then (ScanContinue, Int0, stk)
      else if json_digit c then (ScanContinue, Int1, stk)
      else (ScanError, Neg, stk))"
| "json_step (Int1, stk) c = (if json_digit c then (ScanContinue, Int1, stk) else json_int0 stk c)"
| "json_step (Int0, stk) c = json_int0 stk c"
| "json_step (Dot, stk) c = (if json_digit c then (ScanContinue, Dot0, stk) else (ScanError, Dot, stk))"
| "json_step (Dot0, stk) c =
     (if json_digit c then (ScanContinue, Dot0, stk)
      else if c = 101 \<or> c = 69 then (ScanContinue, Exp, stk)
      else json_end_value stk c)"
| "json_step (Exp, stk) c =
     (if c = 43 \<or> c = 45 then (ScanContinue, ExpSign, stk)
      else if json_digit c then (ScanContinue, Exp0, stk) else (ScanError, Exp, stk))"
| "json_step (ExpSign, stk) c =
     (if json_digit c then (ScanContinue, Exp0, stk) else (ScanError, ExpSign, stk))"
| "json_step (Exp0, stk) c = (if json_digit c then (ScanContinue, Exp0, stk) else json_end_value stk c)"
| "json_step (Literal [], stk) c = json_end_value stk c"
| "json_step (Literal (x # xs), stk) c =
     (if c = x then (ScanContinue, (if xs = [] then EndValue else Literal xs), stk)
      else (ScanError, Literal (x # xs), stk))"

definition json_start :: json_scanner where "json_start = (BeginValue, [])"

subsection \<open>Decoder.Decode\<close>

text \<open>\<open>readValue\<close> on the bytes at hand: the length of the value, a syntax error, or the scanner's
  state when they run out. An object or array ends with its bracket; a string, number or literal
  ends before the byte that follows it.\<close>

datatype json_found = JDone nat | JSyntax | JMore json_scanner

fun json_longer :: "json_found \<Rightarrow> json_found" where
  "json_longer (JDone n) = JDone (Suc n)"
| "json_longer f = f"

fun json_scan :: "json_scanner \<Rightarrow> bytes \<Rightarrow> json_found" where
  "json_scan sc [] = JMore sc"
| "json_scan sc (c # cs) =
     (case json_step sc c of
        (ScanEnd, _) \<Rightarrow> JDone 0
      | (ScanError, _) \<Rightarrow> JSyntax
      | (ScanEndContainer, sc1) \<Rightarrow> if snd sc1 = [] then JDone 1 else json_longer (json_scan sc1 cs)
      | (ScanContinue, sc1) \<Rightarrow> json_longer (json_scan sc1 cs))"

definition json_syntax_error :: goerr where
  "json_syntax_error = OtherErr ''invalid character in JSON input''"

text \<open>The decoder's error is sticky: what is left of the reader is then that error. The raw value
  has no blanks around it.\<close>

definition json_Decode :: "reader \<Rightarrow> (goerr + bytes) \<times> reader" where
  "json_Decode r =
     (let b = rd_bytes r; e = rd_end r
      in case json_scan json_start b of
           JDone n \<Rightarrow> (Inr (dropWhile json_space (take n b)), rd (drop n b) e)
         | JSyntax \<Rightarrow> (Inl json_syntax_error, rd [] json_syntax_error)
         | JMore sc \<Rightarrow>
             if e = EOF then
               (if fst (json_step sc 32) = ScanEnd then (Inr (dropWhile json_space b), rd [] EOF)
                else let err = (if list_all json_space b then EOF else UnexpectedEOF)
                     in (Inl err, rd [] err))
             else (Inl e, rd [] e))"

subsection \<open>The reader and the writer\<close>

definition newJSONReader :: "reader \<Rightarrow> (goerr + stream_msg) \<times> reader" where
  "newJSONReader r =
     (case json_Decode r of
        (Inl err, r1) \<Rightarrow> (Inl err, r1)
      | (Inr msg, r1) \<Rightarrow> (Inr \<lparr>sm_data = msg, sm_isTrailer = False\<rparr>, r1))"

definition newJSONWriter ::
    "('m \<Rightarrow> goerr + bytes) \<Rightarrow> 'm \<Rightarrow> bool \<Rightarrow> writer \<Rightarrow> (goerr option \<times> writer) go" where
  "newJSONWriter marshal m isTrailer w =
     (if isTrailer then Panic ''trailers are not supported for JSON''
      else (case marshal m of
              Inl err \<Rightarrow> Ret (Some err, w)
            | Inr data \<Rightarrow> Ret (write_bytes data w)))"

subsection \<open>Lemmas\<close>

text \<open>A value that shows its own end: an object or an array.\<close>

definition json_closed :: "bytes \<Rightarrow> bool" where
  "json_closed b \<longleftrightarrow> b \<noteq> [] \<and> \<not> json_space (hd b) \<and> json_scan json_start b = JDone (length b)"

lemma json_longer_eq_JDone: "json_longer f = JDone n \<longleftrightarrow> (\<exists>k. n = Suc k \<and> f = JDone k)"
  by (cases f) auto

lemma json_scan_append: "json_scan sc b = JDone n \<Longrightarrow> json_scan sc (b @ rest) = JDone n"
  by (induction sc b arbitrary: n rule: json_scan.induct)
    (auto simp: json_longer_eq_JDone split: prod.splits json_op.splits if_splits)

lemma json_scan_bound: "json_scan sc b = JDone n \<Longrightarrow> n \<le> length b"
  by (induction sc b arbitrary: n rule: json_scan.induct)
    (auto simp: json_longer_eq_JDone split: prod.splits json_op.splits if_splits)

definition json_encode :: "bool \<Rightarrow> bytes \<Rightarrow> bytes" where "json_encode t d = d"

definition json_ok :: "bool \<Rightarrow> bytes \<Rightarrow> bool" where "json_ok t d \<longleftrightarrow> \<not> t \<and> json_closed d"

lemma dropWhile_closed: "json_closed d \<Longrightarrow> dropWhile json_space d = d"
  by (cases d) (auto simp: json_closed_def)

lemma newJSONReader_closed:
  assumes "json_closed d"
  shows "newJSONReader (rd (d @ rest) e) = (Inr \<lparr>sm_data = d, sm_isTrailer = False\<rparr>, rd rest e)"
  using assms json_scan_append [of json_start d "length d" rest] dropWhile_closed [OF assms]
  by (simp add: newJSONReader_def json_Decode_def json_closed_def)

interpretation json: framing json_encode newJSONReader json_ok
proof unfold_locales
  fix t d rest e
  assume "json_ok t d"
  then show "newJSONReader (rd (json_encode t d @ rest) e) =
      (Inr \<lparr>sm_data = d, sm_isTrailer = t\<rparr>, rd rest e)"
    by (simp add: json_ok_def json_encode_def newJSONReader_closed)
next
  show "newJSONReader (rd [] e) = (Inl e, rd [] e)" for e
    by (simp add: newJSONReader_def json_Decode_def json_start_def json_begin_value_def json_space_def)
qed

lemma newJSONWriter_out:
  "marshal m = Inr b \<Longrightarrow> wr_room w = None \<Longrightarrow>
   newJSONWriter marshal m False w = Ret (None, w\<lparr>wr_out := wr_out w @ json_encode False b\<rparr>)"
  by (simp add: newJSONWriter_def write_bytes_def json_encode_def)

text \<open>Digits never end a number.\<close>

lemma json_scan_digits: "list_all json_digit b \<Longrightarrow> json_scan (Int1, []) b = JMore (Int1, [])"
  by (induction b) auto

lemma json_digit_not: "json_digit c \<Longrightarrow> \<not> json_space c \<and> c \<noteq> 123 \<and> c \<noteq> 91 \<and> c \<noteq> 34 \<and> c \<noteq> 45 \<and>
    c \<noteq> 116 \<and> c \<noteq> 102 \<and> c \<noteq> 110"
  by (auto simp: json_digit_def json_space_def)

lemma json_Decode_number:
  assumes "list_all json_digit b" and "b \<noteq> []" and "hd b \<noteq> 48"
  shows "json_Decode (rd b EOF) = (Inr b, rd [] EOF)"
proof -
  obtain c cs where b: "b = c # cs" using assms(2) by (cases b) auto
  with assms have c: "json_digit c" "c \<noteq> 48" "list_all json_digit cs" by auto
  from c have "json_step json_start c = (ScanContinue, Int1, [])"
    using json_digit_not [OF c(1)] by (simp add: json_start_def json_begin_value_def)
  with json_scan_digits [OF c(3)] b have "json_scan json_start b = JMore (Int1, [])" by simp
  moreover have "fst (json_step (Int1, []) 32) = ScanEnd"
    by (simp add: json_digit_def json_int0_def json_end_value_def)
  moreover have "dropWhile json_space b = b" using b json_digit_not [OF c(1)] by simp
  ultimately show ?thesis by (simp add: json_Decode_def del: json_step.simps)
qed

end
