(* ===== verification/Http_Stream_Server.thy ===== *)
theory Http_Stream_Server
  imports Http_Server Call_Options Inproc_Server Json_Stream Intercept_Server
begin

text \<open>
  Streaming methods of the HTTP server: \<open>handleStream\<close> and \<open>serverStream\<close> of
  \<open>httpgrpc/server.go\<close>, and \<open>getServerStreamReaderAndWriter\<close> of
  \<open>httpgrpc/protocol_versions.go\<close>.

  A handler is a tree of calls on its stream (\<open>'m handler\<close> of \<open>Inproc_Server\<close>), the same as for
  the in-process channel; here each call is a function of the stream's fields, since it holds
  \<open>wmu\<close> or \<open>rmu\<close> from start to end. The request's body is what the client sends in the end; the
  connection may fail after some number of bytes of the response (\<open>hs_room\<close>).

  \<open>net/http\<close> does not promise that a request's body can still be read once the response has been
  begun: over HTTP 1.1 the server closes the body then, so that full-duplex streams do not work
  (see the caveats in \<open>httpgrpc/doc.go\<close>); over HTTP 2 it stays open. So what a write leaves of the
  body is a parameter (\<open>se_after\<close>, \<open>hs_after\<close>) that every write of the response is subject to.
\<close>

subsection \<open>Messages of a stream\<close>

text \<open>What goes over the wire: messages (\<open>None\<close> for a nil message) and the final trailer.\<close>

datatype 'm wire_msg = WMsg "'m option" | WTrailer http_trailer

text \<open>\<open>se_nil\<close> is the codec's error for a nil message, \<open>se_flush\<close> that of
  \<open>http.ResponseController.Flush\<close>.\<close>

record 'm stream_env =
  se_http :: "'m http_env"
  se_nil :: goerr
  se_flush :: "goerr option"
  se_md :: md_api
  se_after :: "reader \<Rightarrow> reader"

text \<open>\<open>net/http\<close> over HTTP 1.1 and over HTTP 2.\<close>

definition closed_body :: "reader \<Rightarrow> reader" where
  "closed_body r = rd [] (OtherErr ''http: invalid Read on closed Body'')"

definition open_body :: "reader \<Rightarrow> reader" where
  "open_body r = r"

fun marshal_msg :: "goerr \<Rightarrow> 'm wire_codec \<Rightarrow> 'm wire_msg \<Rightarrow> goerr + bytes" where
  "marshal_msg nil_err cdc (WMsg (Some m)) = c_Marshal cdc m"
| "marshal_msg nil_err cdc (WMsg None) = Inl nil_err"
| "marshal_msg nil_err cdc (WTrailer t) = c_MarshalTrailer cdc t"

definition decode_msg :: "'m wire_codec \<Rightarrow> stream_msg \<Rightarrow> 'm \<Rightarrow> goerr + 'm" where
  "decode_msg cdc msg m = c_Unmarshal cdc (sm_data msg) m"

text \<open>The reader and the writer that a content type selects.\<close>

record 'm stream_io =
  io_read :: "reader \<Rightarrow> (goerr + stream_msg) \<times> reader"
  io_write :: "'m wire_msg \<Rightarrow> bool \<Rightarrow> writer \<Rightarrow> goerr option \<times> writer"
  io_type :: string
  io_codec :: "'m wire_codec"
  io_after :: "reader \<Rightarrow> reader"

text \<open>A codec that is not registered is nil; the code panics when it first uses it, at the latest
  for the trailer, the model does at once.\<close>

definition registered :: "'m http_env \<Rightarrow> string \<Rightarrow> 'm wire_codec go" where
  "registered env name =
     (case GetCodecV2 env name of
        None \<Rightarrow> Panic ''invalid memory address or nil pointer dereference''
      | Some cdc \<Rightarrow> Ret cdc)"

definition getServerStreamReaderAndWriter :: "'m stream_env \<Rightarrow> string \<Rightarrow> 'm stream_io option go" where
  "getServerStreamReaderAndWriter se contentType =
     (let mediaType = parse_media (se_http se) contentType
      in if mediaType = StreamRpcContentType_V1 then
           go_bind (registered (se_http se) protoName) (\<lambda>cdc.
             Ret (Some \<lparr>io_read = newSizePrefixedReader,
                        io_write = newSizePrefixedWriter (marshal_msg (se_nil se) cdc),
                        io_type = StreamRpcContentType_V1, io_codec = cdc,
                        io_after = se_after se\<rparr>))
         else if mediaType = ApplicationJson then
           go_bind (registered (se_http se) jsonCodecName) (\<lambda>cdc.
             Ret (Some \<lparr>io_read = newJSONReader,
                        io_write = newSSEWriter (marshal_msg (se_nil se) cdc) (se_flush se),
                        io_type = EventStreamContentType, io_codec = cdc,
                        io_after = se_after se\<rparr>))
         else Ret None)"

subsection \<open>The stream\<close>

record http_sstream =
  hs_respStream :: bool
  hs_r :: reader
  hs_recvd :: nat
  hs_w :: response_writer
  hs_room :: "(nat \<times> goerr) option"
  hs_after :: "reader \<Rightarrow> reader"
  hs_headersSent :: bool
  hs_writeFailed :: bool
  hs_tr :: "md list"

definition hs_setHeader :: "md \<Rightarrow> bool \<Rightarrow> http_sstream \<Rightarrow> goerr option \<times> http_sstream" where
  "hs_setHeader md send s =
     (if hs_headersSent s then (Some (OtherErr ''headers already sent''), s)
      else (let s1 = s\<lparr>hs_w := rw_toHeaders md '''' (hs_w s)\<rparr>
            in (None, if send
                      then s1\<lparr>hs_w := WriteHeader 200 (hs_w s1), hs_headersSent := True,
                               hs_r := hs_after s1 (hs_r s1)\<rparr>
                      else s1)))"

definition hs_SetHeader :: "md \<Rightarrow> http_sstream \<Rightarrow> goerr option \<times> http_sstream" where
  "hs_SetHeader md s = hs_setHeader md False s"

definition hs_SendHeader :: "md \<Rightarrow> http_sstream \<Rightarrow> goerr option \<times> http_sstream" where
  "hs_SendHeader md s = hs_setHeader md True s"

definition hs_SetTrailer :: "md \<Rightarrow> http_sstream \<Rightarrow> http_sstream" where
  "hs_SetTrailer md s = s\<lparr>hs_tr := hs_tr s @ [md]\<rparr>"

text \<open>The stream writer on top of the response writer: what it writes is the body, and sends the
  headers first. After that the request's body is what the connection leaves of it.\<close>

definition stream_write ::
    "'m stream_io \<Rightarrow> 'm wire_msg \<Rightarrow> bool \<Rightarrow> http_sstream \<Rightarrow> goerr option \<times> http_sstream" where
  "stream_write sio m isTrailer s =
     (let (err, w) = io_write sio m isTrailer \<lparr>wr_out = [], wr_room = hs_room s\<rparr>
      in (err, if wr_out w = [] then s\<lparr>hs_room := wr_room w\<rparr>
               else s\<lparr>hs_w := rw_Write (wr_out w) (hs_w s), hs_room := wr_room w,
                      hs_r := hs_after s (hs_r s)\<rparr>))"

definition hs_SendMsg :: "'m stream_io \<Rightarrow> 'm option \<Rightarrow> http_sstream \<Rightarrow> goerr option \<times> http_sstream" where
  "hs_SendMsg sio m s =
     (if hs_writeFailed s then (Some EOF, s)
      else (let (err, s1) = stream_write sio (WMsg m) False (s\<lparr>hs_headersSent := True\<rparr>)
            in (err, if err \<noteq> None then s1\<lparr>hs_writeFailed := True\<rparr> else s1)))"

definition too_many_requests_err :: goerr where
  "too_many_requests_err =
     status_error InvalidArgument ''method accepts 1 request message but client sent >1''"

definition hs_RecvMsg :: "'m stream_io \<Rightarrow> 'm \<Rightarrow> http_sstream \<Rightarrow> (goerr + 'm) \<times> http_sstream" where
  "hs_RecvMsg sio m s =
     (if \<not> hs_respStream s \<and> hs_recvd s > 0 then (Inl EOF, s)
      else (let s1 = s\<lparr>hs_recvd := hs_recvd s + 1\<rparr>
            in case io_read sio (hs_r s1) of
                 (Inl err, r1) \<Rightarrow> (Inl err, s1\<lparr>hs_r := r1\<rparr>)
               | (Inr msg, r1) \<Rightarrow>
                   (case decode_msg (io_codec sio) msg m of
                      Inl err \<Rightarrow> (Inl err, s1\<lparr>hs_r := r1\<rparr>)
                    | Inr v \<Rightarrow>
                        if \<not> hs_respStream s then
                          (case io_read sio r1 of
                             (x, r2) \<Rightarrow>
                               ((if x = Inl EOF then Inr v else Inl too_many_requests_err), s1\<lparr>hs_r := r2\<rparr>))
                        else (Inr v, s1\<lparr>hs_r := r1\<rparr>))))"

subsection \<open>The handler's run\<close>

text \<open>\<open>ServerTransportStream\<close> over this stream: there is no \<open>TrySetTrailer\<close>, so \<open>SetTrailer\<close> is
  called, and never fails.\<close>

fun http_op :: "'m stream_io \<Rightarrow> 'm srv_op \<Rightarrow> http_sstream \<Rightarrow> goerr option \<times> http_sstream" where
  "http_op sio (OpSetHeader md) s = hs_SetHeader md s"
| "http_op sio (OpSendHeader md) s = hs_SendHeader md s"
| "http_op sio (OpSetTrailer md) s = (None, hs_SetTrailer md s)"
| "http_op sio (OpTrySetTrailer md) s = (None, hs_SetTrailer md s)"
| "http_op sio (OpSendMsg m) s = hs_SendMsg sio m s"

primrec http_run :: "'m stream_io \<Rightarrow> 'm handler \<Rightarrow> http_sstream \<Rightarrow> goerr option \<times> http_sstream" where
  "http_run sio (HReturn err) = (\<lambda>s. (err, s))"
| "http_run sio (HCall a k) = (\<lambda>s. case http_op sio a s of (e, s1) \<Rightarrow> http_run sio (k e) s1)"
| "http_run sio (HRecv m k) = (\<lambda>s. case hs_RecvMsg sio m s of (x, s1) \<Rightarrow> http_run sio (k x) s1)"

definition stream_trailer :: "'m stream_env \<Rightarrow> md list \<Rightarrow> goerr option \<Rightarrow> http_trailer" where
  "stream_trailer se mds err =
     (let api = env_api (se_http se);
          tr = \<lparr>tr_Metadata = asTrailerProto (md_Join (se_md se) mds), tr_Code = code_num (api_codes api) OK,
                tr_Message = code_String api OK, tr_Details = []\<rparr>
      in case err of
           None \<Rightarrow> tr
         | Some e \<Rightarrow>
             (let st = error_status api e
              in tr\<lparr>tr_Code := code_num (api_codes api) (st_code st), tr_Message := st_message st,
                    tr_Details := st_details st\<rparr>))"

text \<open>\<open>handleStream\<close>; \<open>svr\<close> is the service implementation, \<open>room\<close> the failure of the connection
  that the response will meet, if any.\<close>

definition handleStream ::
    "'m stream_env \<Rightarrow> 'h \<Rightarrow> string \<Rightarrow> ('h, server_ctx, 'm handler) stream_handler stream_desc \<Rightarrow>
     ('h, server_ctx, stream_info, 'm handler) stream_server_int option \<Rightarrow>
     (nat \<times> goerr) option \<Rightarrow> http_request \<Rightarrow> response_writer go" where
  "handleStream se svr serviceName desc streamInt room r =
     (let info = \<lparr>FullMethod = ''/'' @ serviceName @ ''/'' @ StreamName desc,
                  IsClientStream = ClientStreams desc, IsServerStream = ServerStreams desc\<rparr>;
          w = new_response
      in if rq_Method r \<noteq> ''POST'' then Ret (writeError 405 (rw_Set ''Allow'' ''POST'' w))
         else
           go_bind (getServerStreamReaderAndWriter se (h_get (rq_Header r) ''Content-Type''))
             (\<lambda>rwt. case rwt of
                None \<Rightarrow> Ret (writeError 415 w)
              | Some sio \<Rightarrow>
                  (case contextFromHeaders (rq_Header r) of
                     Inl err \<Rightarrow> Ret (writeError 400 w)
                   | Inr ctx \<Rightarrow>
                       (let str = \<lparr>hs_respStream = ClientStreams desc, hs_r = rq_Body r, hs_recvd = 0,
                                   hs_w = rw_Set ''Content-Type'' (io_type sio) w, hs_room = room,
                                   hs_after = io_after sio,
                                   hs_headersSent = False, hs_writeFailed = False, hs_tr = []\<rparr>;
                            body = (case streamInt of
                                      Some i \<Rightarrow> i svr ctx info (sd_handler desc)
                                    | None \<Rightarrow> sd_handler desc svr ctx);
                            (err, s) = http_run sio body str
                        in if hs_writeFailed s then Ret (hs_w s)
                           else Ret (hs_w (snd (stream_write sio
                                  (WTrailer (stream_trailer se (hs_tr s) err)) True s)))))))"

text \<open>The contract for headers, for this stream.\<close>

interpretation http_sink: header_sink "\<lambda>s h. hs_SetHeader h s" "\<lambda>s h. hs_SendHeader h s"
    "\<lambda>s. \<not> hs_headersSent s" hs_headersSent
  by unfold_locales (auto simp: hs_SetHeader_def hs_SendHeader_def hs_setHeader_def Let_def)

end
