(* ===== verification/Http_Client.thy ===== *)
theory Http_Client
  imports Http_Env Call_Options Wire_Io
begin

text \<open>
  The client of the HTTP transport for unary methods: \<open>Channel.Invoke\<close> of
  \<open>httpgrpc/client.go\<close> and what it calls, and the channel's options.

  A transport (\<open>http.RoundTripper\<close>) is a function of the request. The URL package and
  \<open>http.NewRequest\<close> are the parameters \<open>iv_url\<close> (the URL of a method, as a string) and
  \<open>new_request_err\<close>. The context enters with its outgoing metadata and the time left until its
  deadline. \<open>ctx_branch\<close> is the error of the context when the final \<open>select\<close> takes that branch,
  which Go may do whenever the context is done, also when the body has been read.
\<close>

record http_reply =
  rp_StatusCode :: int
  rp_Status :: string
  rp_Header :: header
  rp_Body :: reader

subsection \<open>Options\<close>

record 'm channel_opts =
  codecName :: string
  codec :: "'m wire_codec"

definition codecByName :: "'m http_env \<Rightarrow> string \<Rightarrow> goerr + 'm wire_codec" where
  "codecByName env name =
     (case GetCodecV2 env name of
        None \<Rightarrow> Inl (OtherErr (''no codec registered for '' @ name))
      | Some c \<Rightarrow> Inr c)"

definition setCodec :: "'m http_env \<Rightarrow> string \<Rightarrow> goerr + 'm channel_opts" where
  "setCodec env name =
     (case codecByName env name of
        Inl err \<Rightarrow> Inl err
      | Inr c \<Rightarrow> Inr \<lparr>codecName = name, codec = c\<rparr>)"

definition defaultChannelOptions :: "'m http_env \<Rightarrow> goerr + 'm channel_opts" where
  "defaultChannelOptions env = setCodec env protoName"

definition WithJSONEncoding :: "'m http_env \<Rightarrow> bool \<Rightarrow> 'm channel_opts \<Rightarrow> goerr + 'm channel_opts" where
  "WithJSONEncoding env useJSON old = setCodec env (if useJSON then jsonCodecName else protoName)"

record 'm http_channel =
  ch_BaseURL :: "string option"
  ch_Transport :: bool
  ch_opts :: "'m channel_opts option"

definition checkChannelParams :: "string option \<Rightarrow> bool \<Rightarrow> goerr option" where
  "checkChannelParams baseURL transport =
     (if baseURL = None then Some (OtherErr ''channel base URL is required'')
      else if \<not> transport then Some (OtherErr ''channel transport is required'')
      else None)"

fun apply_channel_options ::
    "('m channel_opts \<Rightarrow> goerr + 'm channel_opts) list \<Rightarrow> 'm channel_opts \<Rightarrow> goerr + 'm channel_opts" where
  "apply_channel_options [] o1 = Inr o1"
| "apply_channel_options (opt # opts) o1 =
     (case opt o1 of Inl err \<Rightarrow> Inl err | Inr o2 \<Rightarrow> apply_channel_options opts o2)"

definition NewChannel ::
    "'m http_env \<Rightarrow> string option \<Rightarrow> bool \<Rightarrow> ('m channel_opts \<Rightarrow> goerr + 'm channel_opts) list \<Rightarrow>
     goerr + 'm http_channel" where
  "NewChannel env baseURL transport opts =
     (case checkChannelParams baseURL transport of
        Some err \<Rightarrow> Inl err
      | None \<Rightarrow>
          (case defaultChannelOptions env of
             Inl err \<Rightarrow> Inl err
           | Inr o1 \<Rightarrow>
               (case apply_channel_options opts o1 of
                  Inl err \<Rightarrow> Inl err
                | Inr o2 \<Rightarrow> Inr \<lparr>ch_BaseURL = baseURL, ch_Transport = transport, ch_opts = Some o2\<rparr>)))"

definition channelOptions :: "'m http_env \<Rightarrow> 'm http_channel \<Rightarrow> goerr + 'm channel_opts" where
  "channelOptions env ch =
     (case checkChannelParams (ch_BaseURL ch) (ch_Transport ch) of
        Some err \<Rightarrow> Inl err
      | None \<Rightarrow> (case ch_opts ch of Some opts \<Rightarrow> Inr opts | None \<Rightarrow> defaultChannelOptions env))"

subsection \<open>Request headers\<close>

text \<open>\<open>timeout / time.Millisecond\<close> truncates towards zero.\<close>

definition timeout_millis :: "64 word \<Rightarrow> int" where
  "timeout_millis timeout =
     (let millis = (if sint timeout < 0 then - ((- sint timeout) div 1000000) else sint timeout div 1000000)
      in if millis \<le> 0 then 1 else millis)"

definition headersFromContext :: "md option \<Rightarrow> 64 word option \<Rightarrow> header" where
  "headersFromContext out_md time_left =
     (let h = (case out_md of None \<Rightarrow> [] | Some md \<Rightarrow> toHeaders md [] '''')
      in case time_left of
           None \<Rightarrow> h
         | Some d \<Rightarrow> h_set h ''GRPC-Timeout'' (show_int (timeout_millis d) @ ''m''))"

definition getHeadersForClientUnaryRequest ::
    "md option \<Rightarrow> 64 word option \<Rightarrow> 'm channel_opts \<Rightarrow> header" where
  "getHeadersForClientUnaryRequest out_md time_left opts =
     (let h = headersFromContext out_md time_left
      in if codecName opts = jsonCodecName then h_set h ''Content-Type'' ApplicationJson
         else h_set h ''Content-Type'' UnaryRpcContentType_V1)"

subsection \<open>The reply\<close>

definition details_header :: string where
  "details_header = canonical_key ''X-GRPC-Details''"

definition decode_details :: "'m wire_codec \<Rightarrow> string list \<Rightarrow> any_pb list" where
  "decode_details cdc vs =
     concat (map (\<lambda>d. case RawURLDecode d of
                        None \<Rightarrow> []
                      | Some b \<Rightarrow> (case c_UnmarshalAny cdc b of Inl _ \<Rightarrow> [] | Inr a \<Rightarrow> [a])) vs)"

definition statFromResponse :: "status_api \<Rightarrow> 'm wire_codec \<Rightarrow> http_reply \<Rightarrow> status option" where
  "statFromResponse api cdc reply =
     (let codeStrs = splitn2 CHR '':'' (h_get (rp_Header reply) ''X-GRPC-Status'');
          code = codeFromHttpStatus (rp_StatusCode reply);
          msg = rp_Status reply;
          (code, msg) =
            (if codeStrs \<noteq> [] \<and> hd codeStrs \<noteq> '''' then
               ((case parse_int (hd codeStrs) 32 of Some c \<Rightarrow> code_of_num (api_codes api) c | None \<Rightarrow> code),
                (if length codeStrs > 1 then codeStrs ! 1 else msg))
             else (code, msg))
      in if code \<noteq> OK then
           Some \<lparr>st_code = code, st_message = msg,
                 st_details = decode_details cdc (mget (rp_Header reply) details_header)\<rparr>
         else None)"

definition trailerPrefix :: string where "trailerPrefix = ''x-grpc-trailer-''"

text \<open>The loop over the header metadata: entries with the prefix and something after it move to
  the trailers.\<close>

definition is_trailer_key :: "string \<Rightarrow> bool" where
  "is_trailer_key k \<longleftrightarrow> has_prefix (to_lower k) trailerPrefix \<and> drop (length trailerPrefix) k \<noteq> ''''"

definition split_trailers :: "md \<Rightarrow> md \<times> md" where
  "split_trailers hdr =
     (filter (\<lambda>(k, v). \<not> is_trailer_key k) hdr,
      foldl (\<lambda>tlr (k, v). if is_trailer_key k then AList.update (drop (length trailerPrefix) k) v tlr else tlr)
        [] hdr)"

definition setMetadata :: "header \<Rightarrow> call_options \<Rightarrow> 'p call_mem \<Rightarrow> goerr + 'p call_mem" where
  "setMetadata h copts mem =
     (case asMetadata h of
        Inl err \<Rightarrow> Inl err
      | Inr md \<Rightarrow>
          (let (hdr, tlr) = split_trailers md
           in Inr (SetTrailers copts tlr (SetHeaders copts hdr mem))))"

text \<open>\<open>getPeer\<close>, for the base URL's host and scheme and the TLS state.\<close>

record 't http_peer =
  p_Addr :: string
  p_AuthInfo :: "'t option"

definition getPeer :: "string \<Rightarrow> string \<Rightarrow> 't option \<Rightarrow> 't http_peer" where
  "getPeer host scheme tls =
     (let hostPort =
        (if CHR '':'' \<notin> set host then
           (if scheme = ''https'' then host @ '':443''
            else if scheme = ''http'' then host @ '':80'' else host)
         else host)
      in \<lparr>p_Addr = hostPort, p_AuthInfo = tls\<rparr>)"

subsection \<open>Unary calls\<close>

record 'm invoke_env =
  iv_url :: "string \<Rightarrow> string \<Rightarrow> string"
  iv_secure :: bool
  new_request_err :: "string \<Rightarrow> goerr option"
  iv_md :: md_api

record out_request =
  oq_URL :: string
  oq_Header :: header
  oq_Body :: bytes

definition Invoke ::
    "'m http_env \<Rightarrow> 'm invoke_env \<Rightarrow> (out_request \<Rightarrow> goerr + http_reply) \<Rightarrow> (unit \<Rightarrow> 'p) \<Rightarrow> 'm http_channel \<Rightarrow>
     md option \<Rightarrow> 64 word option \<Rightarrow> goerr option \<Rightarrow> string \<Rightarrow> 'm \<Rightarrow> 'm \<Rightarrow> call_option list \<Rightarrow> 'p call_mem \<Rightarrow>
     (goerr + 'm) \<times> 'p call_mem" where
  "Invoke env iv transport peer ch out_md time_left ctx_branch methodName req resp opts mem =
     (case channelOptions env ch of
        Inl err \<Rightarrow> (Inl err, mem)
      | Inr chOpts \<Rightarrow>
          (let copts = GetCallOptions opts;
               url = iv_url iv (the (ch_BaseURL ch)) methodName
           in case ApplyPerRPCCreds (iv_md iv) out_md copts url (iv_secure iv) of
                Inl err \<Rightarrow> (Inl err, mem)
              | Inr out_md \<Rightarrow>
                  (let h = getHeadersForClientUnaryRequest out_md time_left chOpts
                   in case c_Marshal (codec chOpts) req of
                        Inl err \<Rightarrow> (Inl err, mem)
                      | Inr b \<Rightarrow>
                          (case new_request_err iv url of
                             Some err \<Rightarrow> (Inl err, mem)
                           | None \<Rightarrow>
                               (case transport \<lparr>oq_URL = url, oq_Header = h, oq_Body = b\<rparr> of
                                  Inl err \<Rightarrow> (Inl (statusFromContextError err), mem)
                                | Inr reply \<Rightarrow>
                                    (let mem1 = (if Peer copts \<noteq> [] then SetPeer copts (peer ()) mem else mem);
                                         meta = (if Headers copts \<noteq> [] \<or> Trailers copts \<noteq> []
                                                 then setMetadata (rp_Header reply) copts mem1 else Inr mem1)
                                     in case meta of
                                          Inl err \<Rightarrow> (Inl err, mem1)
                                        | Inr mem2 \<Rightarrow>
                                            (case statFromResponse (env_api env) (codec chOpts) reply of
                                               Some st \<Rightarrow> (Inl (StatusErr st), mem2)
                                             | None \<Rightarrow>
                                                 (case ctx_branch of
                                                    Some e \<Rightarrow> (Inl (statusFromContextError e), mem2)
                                                  | None \<Rightarrow>
                                                      (if rd_end (rp_Body reply) \<noteq> EOF
                                                       then (Inl (rd_end (rp_Body reply)), mem2)
                                                       else (c_Unmarshal (codec chOpts) (rd_bytes (rp_Body reply)) resp,
                                                             mem2))))))))))"

subsection \<open>Lemmas\<close>

lemma map_of_split_headers:
  "map_of (fst (split_trailers hdr)) k = (if is_trailer_key k then None else map_of hdr k)"
  unfolding split_trailers_def by (induction hdr) auto

lemma mget_split_headers: "\<not> is_trailer_key k \<Longrightarrow> mget (fst (split_trailers hdr)) k = mget hdr k"
  by (simp add: mget_def map_of_split_headers)

lemma foldl_split_trailers:
  assumes "distinct (map fst hdr)" and "\<forall>k \<in> fst ` set hdr. to_lower k = k"
  shows "map_of (foldl (\<lambda>tlr (k, v). if is_trailer_key k then AList.update (drop (length trailerPrefix) k) v tlr
      else tlr) tlr hdr) t =
    (case map_of hdr (trailerPrefix @ t) of
       Some v \<Rightarrow> if t \<noteq> '''' then Some v else map_of tlr t
     | None \<Rightarrow> map_of tlr t)"
  using assms
proof (induction hdr arbitrary: tlr)
  case Nil
  then show ?case by simp
next
  case (Cons kv hdr)
  obtain k v where kv: "kv = (k, v)" by (cases kv)
  show ?case
  proof (cases "is_trailer_key k")
    case True
    have "to_lower k = k" using Cons.prems(2) kv by auto
    with True have k: "k = trailerPrefix @ drop (length trailerPrefix) k" "drop (length trailerPrefix) k \<noteq> ''''"
      by (auto simp: is_trailer_key_def dest: has_prefixE)
    have new: "map_of hdr k = None" using Cons.prems(1) kv by (simp add: map_of_eq_None_iff)
    show ?thesis
    proof (cases "k = trailerPrefix @ t")
      case eq: True
      with True new k Cons.IH Cons.prems kv show ?thesis by (simp add: update_conv')
    next
      case False
      with k(1) have "drop (length trailerPrefix) k \<noteq> t" by metis
      then have "map_of (AList.update (drop (length trailerPrefix) k) v tlr) t = map_of tlr t"
        by (simp add: update_conv')
      with False True Cons.IH Cons.prems kv show ?thesis by (auto split: option.splits)
    qed
  next
    case False
    then have "k = trailerPrefix @ t \<Longrightarrow> t = ''''"
      using Cons.prems(2) kv by (auto simp: is_trailer_key_def)
    with False Cons.IH Cons.prems kv show ?thesis by (auto split: option.splits)
  qed
qed

lemma mget_split_trailers:
  assumes "distinct (map fst hdr)" and "\<forall>k \<in> fst ` set hdr. to_lower k = k" and "t \<noteq> ''''"
  shows "mget (snd (split_trailers hdr)) t = mget hdr (trailerPrefix @ t)"
  using foldl_split_trailers [OF assms(1,2), of "[]" t] assms(3)
  by (simp add: split_trailers_def mget_def split: option.splits)

end
