(* ===== verification/Http_Transport.thy ===== *)
theory Http_Transport
  imports Http_Metadata
begin

text \<open>
  What the program relies on when headers go over HTTP: a header whose names are canonical
  tokens and whose values are field values without surrounding blanks arrives with the same
  values, and the peer's HTTP library may add headers of its own (\<open>carried\<close>). The other lemmas
  show that the headers the program builds from metadata are of that kind and can be turned
  back into the same metadata.
\<close>

subsection \<open>Fields\<close>

definition field_char :: "char \<Rightarrow> bool" where
  "field_char c = (let n = of_char c :: nat in c = CHR 0x09 \<or> (32 \<le> n \<and> n \<noteq> 127))"

definition field_value :: "string \<Rightarrow> bool" where
  "field_value v \<longleftrightarrow> list_all field_char v \<and>
     (v \<noteq> [] \<longrightarrow> hd v \<notin> {CHR '' '', CHR 0x09} \<and> last v \<notin> {CHR '' '', CHR 0x09})"

definition field_name :: "string \<Rightarrow> bool" where
  "field_name k \<longleftrightarrow> k \<noteq> [] \<and> list_all token_char k"

definition sendable :: "header \<Rightarrow> bool" where
  "sendable h \<longleftrightarrow> distinct (map fst h) \<and>
     (\<forall>(k, vs) \<in> set h. field_name k \<and> canonical_key k = k \<and> list_all field_value vs)"

text \<open>A header of the HTTP library's own: \<open>Date\<close>, \<open>User-Agent\<close>, \<open>Accept-Encoding\<close> and so
  on.\<close>

definition foreign :: "string \<Rightarrow> bool" where
  "foreign k \<longleftrightarrow> \<not> has_suffix (to_lower k) bin_suffix \<and> \<not> has_prefix (to_lower k) ''x-grpc-'' \<and>
     \<not> has_prefix (to_lower k) ''grpc-''"

definition carried :: "header \<Rightarrow> header \<Rightarrow> bool" where
  "carried sent recv \<longleftrightarrow> distinct (map fst recv) \<and>
     (\<forall>k \<in> fst ` set recv. field_name k \<and> canonical_key k = k) \<and>
     (\<forall>k \<in> fst ` set sent. mget recv k = mget sent k) \<and>
     (\<forall>k \<in> fst ` set recv - fst ` set sent. foreign k)"

lemma carried_refl: "sendable h \<Longrightarrow> carried h h"
  by (auto simp: sendable_def carried_def)

text \<open>A lookup by the header's name sees what was sent.\<close>

lemma carried_mget:
  assumes "carried sent recv" and "\<not> foreign k \<or> k \<in> fst ` set sent"
  shows "mget recv k = mget sent k"
proof (cases "k \<in> fst ` set sent")
  case True
  with assms show ?thesis unfolding carried_def by blast
next
  case False
  with assms have "k \<notin> fst ` set recv" unfolding carried_def by blast
  with False show ?thesis by (simp add: mget_notin)
qed

subsection \<open>Headers that the program builds\<close>

lemma sendable_Nil [simp, intro]: "sendable []"
  by (simp add: sendable_def)

lemma field_name_canonical [simp]: "field_name (canonical_key k) = field_name k"
proof -
  have "canon_scan True k \<noteq> [] \<longleftrightarrow> k \<noteq> []" by (cases k) (auto simp: Let_def)
  then show ?thesis by (auto simp: field_name_def canonical_key_def)
qed

lemma set_update_subset: "set (AList.update k v m) \<subseteq> insert (k, v) (set m)"
  by (induction m) auto

lemma sendable_update:
  assumes "sendable h" and "field_name k" and "canonical_key k = k" and "list_all field_value vs"
  shows "sendable (AList.update k vs h)"
proof -
  have "distinct (map fst (AList.update k vs h))"
    using assms(1) by (simp add: sendable_def distinct_update)
  with assms set_update_subset [of k vs h] show ?thesis unfolding sendable_def by blast
qed

lemma sendable_set [intro]:
  "sendable h \<Longrightarrow> field_name k \<Longrightarrow> field_value v \<Longrightarrow> sendable (h_set h k v)"
  by (simp add: h_set_def sendable_update)

lemma sendable_mget: "sendable h \<Longrightarrow> list_all field_value (mget h k)"
  by (auto simp: sendable_def mget_def dest!: map_of_SomeD split: option.splits)

lemma sendable_add [intro]:
  "sendable h \<Longrightarrow> field_name k \<Longrightarrow> field_value v \<Longrightarrow> sendable (h_add h k v)"
  by (simp add: h_add_def mappend_def sendable_update sendable_mget)

lemma sendable_foldl_add:
  "sendable h \<Longrightarrow> field_name k \<Longrightarrow> list_all (\<lambda>v. field_value (f v)) vs \<Longrightarrow>
   sendable (foldl (\<lambda>h v. h_add h k (f v)) h vs)"
  by (induction vs arbitrary: h) auto

text \<open>Values in base64 are field values.\<close>

definition plain_char :: "char \<Rightarrow> bool" where
  "plain_char c = (let n = of_char c :: nat in 32 < n \<and> n < 127)"

lemma plain_b64_char: "n < 64 \<Longrightarrow> plain_char (b64_char n)"
  by (auto simp: plain_char_def b64_char_def of_char_of Let_def)

lemma plain_b64: "list_all plain_char (b64_encode pad bs)"
proof -
  have "plain_char (CHR ''='')" by (simp add: plain_char_def)
  then show ?thesis by (induction pad bs rule: b64_encode.induct) (simp_all add: plain_b64_char)
qed

lemma plain_char_field: "plain_char c \<Longrightarrow> field_char c \<and> c \<noteq> CHR '' '' \<and> c \<noteq> CHR 0x09"
  by (auto simp: plain_char_def field_char_def Let_def)

lemma field_value_plain:
  assumes "list_all plain_char v"
  shows "field_value v"
proof -
  have "\<forall>c \<in> set v. field_char c \<and> c \<noteq> CHR '' '' \<and> c \<noteq> CHR 0x09"
    using assms plain_char_field by (simp add: list_all_iff)
  then show ?thesis
    using hd_in_set [of v] last_in_set [of v] by (simp add: field_value_def list_all_iff)
qed

lemma field_value_b64: "field_value (b64_encode pad bs)"
  using plain_b64 by (rule field_value_plain)

subsection \<open>Metadata\<close>

text \<open>Metadata that HTTP can carry: lower-case token keys that are not reserved, and text values
  that are field values (binary values may be anything).\<close>

definition valid_md :: "md \<Rightarrow> bool" where
  "valid_md md \<longleftrightarrow> distinct (map fst md) \<and>
     (\<forall>(k, vs) \<in> set md. field_name k \<and> to_lower k = k \<and> k \<notin> set reservedHeaders \<and>
        (has_suffix k bin_suffix \<or> list_all field_value vs))"

lemma valid_md_Nil [simp, intro]: "valid_md []"
  by (simp add: valid_md_def)

lemma valid_md_Cons: "valid_md (kv # md) \<Longrightarrow> valid_md md"
  by (simp add: valid_md_def)

lemma valid_md_key:
  assumes "valid_md md" and "k \<in> fst ` set md"
  shows "field_name k" and "to_lower k = k" and "k \<notin> set reservedHeaders"
  using assms by (auto simp: valid_md_def)

lemma field_value_wire:
  "has_suffix (to_lower k) bin_suffix \<or> field_value v \<Longrightarrow> field_value (wire_value k v)"
  by (auto simp: wire_value_def URLEncode_def field_value_b64)

lemma field_name_append: "list_all token_char p \<Longrightarrow> field_name k \<Longrightarrow> field_name (p @ k)"
  by (simp add: field_name_def)

lemma sendable_toHeaders:
  "valid_md md \<Longrightarrow> list_all token_char pfx \<Longrightarrow> sendable h \<Longrightarrow> sendable (toHeaders md h pfx)"
proof (induction md h pfx rule: toHeaders.induct)
  case (1 h pfx)
  then show ?case by simp
next
  case (2 k vs md h pfx)
  have "list_all (\<lambda>v. field_value (wire_value k v)) vs"
    using "2.prems"(1) by (auto simp: valid_md_def list_all_iff intro: field_value_wire)
  moreover have "field_name (pfx @ k)"
    using "2.prems" by (auto simp: valid_md_def intro: field_name_append)
  ultimately have "sendable (foldl (\<lambda>h v. h_add h (pfx @ k) (wire_value k v)) h vs)"
    using sendable_foldl_add [OF "2.prems"(3)] by blast
  with 2 show ?case by (auto dest: valid_md_Cons)
qed

lemma canonical_key_inj:
  assumes "field_name a" and "field_name b" and "canonical_key (p @ a) = canonical_key (p @ b)"
    and "list_all token_char p" and "to_lower a = a" and "to_lower b = b"
  shows "a = b"
proof -
  from assms have "to_lower (p @ a) = to_lower (p @ b)"
    by (simp add: canonical_key_eq_iff field_name_def)
  with assms(5,6) show ?thesis by (simp add: to_lower_append)
qed

lemma valid_md_not_reserved: "valid_md md \<Longrightarrow> k \<in> fst ` set md \<Longrightarrow> to_lower k \<notin> set reservedHeaders"
  by (auto simp: valid_md_def)

text \<open>What \<open>toHeaders\<close> adds under one name.\<close>

lemma mget_toHeaders_valid:
  assumes md: "valid_md md" and pfx: "list_all token_char pfx"
    and k: "field_name k" "to_lower k = k"
  shows "mget (toHeaders md h pfx) (canonical_key (pfx @ k)) =
    mget h (canonical_key (pfx @ k)) @ map (wire_value k) (mget md k)"
proof -
  have keys: "field_name j \<and> to_lower j = j" if "j \<in> fst ` set md" for j
    using md that by (auto simp: valid_md_def)
  have inj: "canonical_key (pfx @ j) = canonical_key (pfx @ k) \<Longrightarrow> j = k"
    if "j \<in> fst ` set md" for j
    using canonical_key_inj [OF _ k(1) _ pfx _ k(2)] keys [OF that] by blast
  show ?thesis
  proof (cases "k \<in> fst ` set md")
    case True
    then obtain vs where kvs: "(k, vs) \<in> set md" by auto
    have "inj_on (\<lambda>kv. canonical_key (pfx @ fst kv)) (set md)"
    proof (rule inj_onI)
      fix x y assume xy: "x \<in> set md" "y \<in> set md"
        "canonical_key (pfx @ fst x) = canonical_key (pfx @ fst y)"
      then have "fst x = fst y"
        using canonical_key_inj [OF _ _ xy(3) pfx] keys by auto
      moreover have "distinct (map fst md)" using md by (simp add: valid_md_def)
      ultimately have "snd x = snd y"
        using xy eq_key_imp_eq_value [of md "fst x" "snd x" "snd y"] by (metis prod.collapse)
      with \<open>fst x = fst y\<close> show "x = y" by (rule prod_eqI)
    qed
    moreover have "distinct md" using md by (auto simp: valid_md_def distinct_map)
    ultimately have "distinct (map (\<lambda>kv. canonical_key (pfx @ fst kv)) md)"
      by (simp add: distinct_map)
    from mget_toHeaders [OF this kvs valid_md_not_reserved [OF md True]]
    show ?thesis using md kvs by (simp add: valid_md_def mget_def)
  next
    case False
    then have "\<forall>j \<in> fst ` set md. canonical_key (pfx @ j) \<noteq> canonical_key (pfx @ k)"
      using inj by metis
    with False show ?thesis by (simp add: mget_toHeaders_other mget_notin)
  qed
qed

subsection \<open>Values that decode\<close>

definition decodable :: "header \<Rightarrow> bool" where
  "decodable h \<longleftrightarrow> (\<forall>(k, vs) \<in> set h. read_values (to_lower k) vs \<noteq> None)"

lemma decodable_Nil [simp, intro]: "decodable []"
  by (simp add: decodable_def)

lemma read_values_append:
  "read_values k (vs @ ws) =
     (case (read_values k vs, read_values k ws) of (Some a, Some b) \<Rightarrow> Some (a @ b) | _ \<Rightarrow> None)"
  by (induction vs) (auto split: option.splits)

lemma read_values_text [simp]: "\<not> has_suffix k bin_suffix \<Longrightarrow> read_values k vs = Some vs"
  by (induction vs) auto

lemma decodable_update:
  "decodable h \<Longrightarrow> read_values (to_lower k) vs \<noteq> None \<Longrightarrow> decodable (AList.update k vs h)"
  using set_update_subset [of k vs h] unfolding decodable_def by blast

lemma decodable_mget: "decodable h \<Longrightarrow> read_values (to_lower k) (mget h k) \<noteq> None"
  by (auto simp: decodable_def mget_def dest!: map_of_SomeD split: option.splits)

lemma decodable_set [intro]:
  "decodable h \<Longrightarrow> \<not> has_suffix (to_lower k) bin_suffix \<Longrightarrow> decodable (h_set h k v)"
  unfolding h_set_def by (rule decodable_update) auto

lemma decodable_add:
  assumes "decodable h" and "read_values (to_lower k) [v] \<noteq> None"
  shows "decodable (h_add h k v)"
proof -
  have "read_values (to_lower k) (mget h (canonical_key k)) \<noteq> None"
    using decodable_mget [OF assms(1), of "canonical_key k"] by simp
  with assms show ?thesis unfolding h_add_def mappend_def
    by (intro decodable_update) (auto simp: read_values_append split: option.splits)
qed

lemma decodable_foldl_add:
  "decodable h \<Longrightarrow> list_all (\<lambda>v. read_values (to_lower k) [f v] \<noteq> None) vs \<Longrightarrow>
   decodable (foldl (\<lambda>h v. h_add h k (f v)) h vs)"
  by (induction vs arbitrary: h) (auto intro: decodable_add simp del: read_values.simps)

lemma decodable_toHeaders:
  assumes "\<forall>k \<in> fst ` set md. has_suffix (to_lower (pfx @ k)) bin_suffix = has_suffix (to_lower k) bin_suffix"
    and "decodable h"
  shows "decodable (toHeaders md h pfx)"
  using assms
proof (induction md h pfx rule: toHeaders.induct)
  case (1 h pfx)
  then show ?case by simp
next
  case (2 k vs md h pfx)
  have "list_all (\<lambda>v. read_values (to_lower (pfx @ k)) [wire_value k v] \<noteq> None) vs"
    using 2(3) read_values_wire [of "to_lower (pfx @ k)" k "[v]" for v] by (simp add: list_all_iff)
  from decodable_foldl_add [OF 2(4) this] 2 show ?case by auto
qed

subsection \<open>Back to metadata\<close>

lemma carried_decodable:
  assumes "carried sent recv" and "decodable sent"
  shows "decodable recv"
proof -
  have "read_values (to_lower k) vs \<noteq> None" if "(k, vs) \<in> set recv" for k vs
  proof (cases "k \<in> fst ` set sent")
    case True
    with assms(1) that have "vs = mget sent k" by (auto simp: carried_def mget_def)
    with decodable_mget [OF assms(2)] show ?thesis by simp
  next
    case False
    with assms(1) that have "foreign k" by (force simp: carried_def)
    then show ?thesis by (simp add: foreign_def)
  qed
  then show ?thesis by (auto simp: decodable_def)
qed

lemma carried_case_distinct:
  assumes "carried sent recv"
  shows "case_distinct recv"
proof -
  have "inj_on to_lower (fst ` set recv)"
  proof (rule inj_onI)
    fix x y assume xy: "x \<in> fst ` set recv" "y \<in> fst ` set recv" "to_lower x = to_lower y"
    with assms have "field_name x" "field_name y" "canonical_key x = x" "canonical_key y = y"
      by (auto simp: carried_def)
    with xy(3) canonical_key_eq_iff [of x y] show "x = y" by (simp add: field_name_def)
  qed
  moreover have "distinct (map fst recv)" using assms by (simp add: carried_def)
  ultimately have "distinct (map to_lower (map fst recv))"
    by (simp only: distinct_map [of to_lower] set_map simp_thms)
  then show ?thesis by (simp only: case_distinct_def map_map)
qed

text \<open>The metadata that the receiver makes of a header: under each name the values that were
  sent, decoded.\<close>

lemma carried_asMetadata:
  assumes c: "carried sent recv" and d: "decodable sent"
  obtains md where "asMetadata recv = Inr md" "distinct (map fst md)"
    "\<forall>k \<in> fst ` set md. to_lower k = k"
    "\<And>k. field_name k \<Longrightarrow> \<not> foreign k \<or> canonical_key k \<in> fst ` set sent \<Longrightarrow>
      read_values (to_lower k) (mget sent (canonical_key k)) = Some (mget md (to_lower k))"
proof -
  have "\<forall>(k, vs) \<in> set recv. read_values (to_lower k) vs \<noteq> None"
    using carried_decodable [OF c d] by (simp add: decodable_def)
  from asMetadata_eq [OF carried_case_distinct [OF c] this] obtain md where md:
    "asMetadata recv = Inr md" "distinct (map fst md)" "fst ` set md \<subseteq> to_lower ` fst ` set recv"
    "\<And>k vs. (k, vs) \<in> set recv \<Longrightarrow> read_values (to_lower k) vs = Some (mget md (to_lower k))"
    by metis
  show ?thesis
  proof (rule that [OF md(1,2)])
    show "\<forall>k \<in> fst ` set md. to_lower k = k" using md(3) by force
    fix k assume k: "field_name k" "\<not> foreign k \<or> canonical_key k \<in> fst ` set sent"
    have foreign: "foreign (canonical_key k) = foreign k" by (simp add: foreign_def)
    have get: "mget recv (canonical_key k) = mget sent (canonical_key k)"
      using carried_mget [OF c] k(2) foreign by blast
    show "read_values (to_lower k) (mget sent (canonical_key k)) = Some (mget md (to_lower k))"
    proof (cases "canonical_key k \<in> fst ` set recv")
      case True
      then obtain vs where "(canonical_key k, vs) \<in> set recv" by auto
      moreover from this c have "mget recv (canonical_key k) = vs"
        by (simp add: carried_def mget_def)
      ultimately show ?thesis using md(4) [of "canonical_key k" vs] get by simp
    next
      case False
      have "to_lower k \<notin> fst ` set md"
      proof
        assume "to_lower k \<in> fst ` set md"
        with md(3) have "to_lower k \<in> to_lower ` fst ` set recv" by (rule subsetD)
        then obtain j where j: "to_lower k = to_lower j" "j \<in> fst ` set recv" by (rule imageE)
        have "\<forall>k \<in> fst ` set recv. field_name k \<and> canonical_key k = k"
          using c unfolding carried_def by (elim conjE)
        from bspec [OF this j(2)] have name: "field_name j" "canonical_key j = j" by simp_all
        have "canonical_key j = canonical_key k"
          using canonical_key_eq_iff [of j k] name(1) k(1) j(1) unfolding field_name_def by simp
        with False j(2) name(2) show False by metis
      qed
      with False get show ?thesis by (simp add: mget_notin)
    qed
  qed
qed

end
