(* ===== verification/Http_Exchange.thy ===== *)
theory Http_Exchange
  imports Http_Client Http_Server Http_Transport
begin

text \<open>
  The two sides of a unary call over HTTP put together: what the server makes of the headers
  that the client sends, and what the client makes of the headers and the status that the
  server sends.
\<close>

subsection \<open>Names and values that the program writes itself\<close>

lemma canonical_key_neq: "to_lower a \<noteq> to_lower b \<Longrightarrow> canonical_key a \<noteq> canonical_key b"
  by (metis to_lower_canonical_key)

lemma own_names [simp]:
  "to_lower ''GRPC-Timeout'' = ''grpc-timeout''" "to_lower ''Content-Type'' = ''content-type''"
  "to_lower ''Content-Length'' = ''content-length''" "to_lower ''X-GRPC-Status'' = ''x-grpc-status''"
  "to_lower ''X-GRPC-Details'' = ''x-grpc-details''"
  "to_lower ''X-Content-Type-Options'' = ''x-content-type-options''"
  "to_lower trailer_header = trailerPrefix" "to_lower trailerPrefix = trailerPrefix"
  by (code_simp)+

lemma own_field_names [simp]:
  "field_name ''GRPC-Timeout''" "field_name ''Content-Type''" "field_name ''Content-Length''"
  "field_name ''X-GRPC-Status''" "field_name ''X-GRPC-Details''" "field_name ''X-Content-Type-Options''"
  "list_all token_char trailer_header" "list_all token_char trailerPrefix"
  by (code_simp)+

lemma own_text_names [simp]:
  "\<not> has_suffix ''grpc-timeout'' bin_suffix" "\<not> has_suffix ''content-type'' bin_suffix"
  "\<not> has_suffix ''content-length'' bin_suffix" "\<not> has_suffix ''x-grpc-status'' bin_suffix"
  "\<not> has_suffix ''x-grpc-details'' bin_suffix" "\<not> has_suffix ''x-content-type-options'' bin_suffix"
  by (code_simp)+

lemma plain_show_int: "list_all plain_char (show_int n)"
proof -
  have digit: "is_digit c \<Longrightarrow> plain_char c" for c by (auto simp: is_digit_def plain_char_def Let_def)
  have "list_all is_digit (show_nat m)" for m using show_nat_digits by blast
  then have "list_all plain_char (show_nat m)" for m by (rule list.pred_mono_strong) (rule digit)
  then show ?thesis by (simp add: show_int_def plain_char_def)
qed

lemma mget_h_set_other:
  "to_lower k \<noteq> to_lower k' \<Longrightarrow> mget (h_set h k v) (canonical_key k') = mget h (canonical_key k')"
  by (simp add: mget_h_set canonical_key_neq)

lemma mget_h_del_other:
  "to_lower k \<noteq> to_lower k' \<Longrightarrow> mget (h_del h k) (canonical_key k') = mget h (canonical_key k')"
  by (simp add: mget_h_del canonical_key_neq)

subsection \<open>The request\<close>

lemma headersFromContext_eq:
  "headersFromContext out_md t =
     (let h = toHeaders (case out_md of None \<Rightarrow> [] | Some md \<Rightarrow> md) [] ''''
      in case t of None \<Rightarrow> h | Some d \<Rightarrow> h_set h ''GRPC-Timeout'' (show_int (timeout_millis d) @ ''m''))"
  by (simp add: headersFromContext_def split: option.splits)

text \<open>The headers of a request: those of the context, and then the program's own.\<close>

definition with_own :: "header \<Rightarrow> (string \<times> string) list \<Rightarrow> header" where
  "with_own h kvs = foldl (\<lambda>h (k, v). h_set h k v) h kvs"

definition own_fields :: "(string \<times> string) list \<Rightarrow> bool" where
  "own_fields kvs \<longleftrightarrow>
     (\<forall>(k, v) \<in> set kvs. field_name k \<and> field_value v \<and> \<not> has_suffix (to_lower k) bin_suffix \<and>
        to_lower k \<noteq> ''grpc-timeout'')"

lemma with_own_kept:
  assumes "own_fields kvs"
  shows "sendable h \<Longrightarrow> sendable (with_own h kvs)" and "decodable h \<Longrightarrow> decodable (with_own h kvs)"
    and "to_lower k \<notin> set (map (to_lower \<circ> fst) kvs) \<Longrightarrow>
      mget (with_own h kvs) (canonical_key k) = mget h (canonical_key k)"
  using assms unfolding with_own_def own_fields_def
  by (induction kvs arbitrary: h) (auto simp: mget_h_set_other)

lemma request_headers:
  fixes t :: "64 word option"
  assumes "valid_md (case out_md of None \<Rightarrow> [] | Some md \<Rightarrow> md)" and own: "own_fields kvs"
  defines "md \<equiv> (case out_md of None \<Rightarrow> [] | Some md \<Rightarrow> md)"
  defines "h \<equiv> with_own (headersFromContext out_md t) kvs"
  shows "sendable h" and "decodable h"
    and "field_name k \<Longrightarrow> to_lower k = k \<Longrightarrow> k \<noteq> ''grpc-timeout'' \<Longrightarrow> k \<notin> set (map (to_lower \<circ> fst) kvs) \<Longrightarrow>
      mget h (canonical_key k) = map (wire_value k) (mget md k)"
    and "mget h (canonical_key ''GRPC-Timeout'') =
      (case t of None \<Rightarrow> map (wire_value ''grpc-timeout'') (mget md ''grpc-timeout'')
       | Some d \<Rightarrow> [show_int (timeout_millis d) @ ''m''])"
proof -
  let ?h = "headersFromContext out_md t"
  have md: "valid_md md" using assms(1) by (simp only: md_def)
  have get: "mget (toHeaders md [] '''') (canonical_key k) = map (wire_value k) (mget md k)"
    if "field_name k" "to_lower k = k" for k
    using mget_toHeaders_valid [OF md _ that, of "''''" "[]"] by simp
  have timeout: "field_value (show_int n @ ''m'')" for n
    using plain_show_int by (intro field_value_plain) (simp add: plain_char_def)
  have lower: "canonical_key ''GRPC-Timeout'' = canonical_key ''grpc-timeout''" by code_simp
  have get_timeout: "mget (toHeaders md [] '''') (canonical_key ''GRPC-Timeout'') =
      map (wire_value ''grpc-timeout'') (mget md ''grpc-timeout'')"
    unfolding lower by (rule get) code_simp+
  have "sendable (toHeaders md [] '''')"
    using md by (rule sendable_toHeaders) simp_all
  then have "sendable ?h"
    unfolding headersFromContext_eq Let_def md_def
    by (auto intro!: sendable_set timeout split: option.splits)
  then show "sendable h" unfolding h_def by (rule with_own_kept(1) [OF own])
  have "decodable (toHeaders md [] '''')" by (rule decodable_toHeaders) simp_all
  then have "decodable ?h"
    unfolding headersFromContext_eq Let_def md_def by (auto intro!: decodable_set split: option.splits)
  then show "decodable h" unfolding h_def by (rule with_own_kept(2) [OF own])
  show "mget h (canonical_key k) = map (wire_value k) (mget md k)"
    if "field_name k" "to_lower k = k" "k \<noteq> ''grpc-timeout''" "k \<notin> set (map (to_lower \<circ> fst) kvs)"
  proof -
    have "mget h (canonical_key k) = mget ?h (canonical_key k)"
      unfolding h_def using that by (intro with_own_kept(3) [OF own]) simp
    with get [OF that(1,2)] that(2,3) show ?thesis
      unfolding headersFromContext_eq Let_def md_def
      by (auto simp: mget_h_set_other split: option.splits)
  qed
  have "''grpc-timeout'' \<notin> set (map (to_lower \<circ> fst) kvs)" using own by (auto simp: own_fields_def)
  then have "mget h (canonical_key ''GRPC-Timeout'') = mget ?h (canonical_key ''GRPC-Timeout'')"
    unfolding h_def by (intro with_own_kept(3) [OF own]) simp
  with get_timeout show "mget h (canonical_key ''GRPC-Timeout'') =
      (case t of None \<Rightarrow> map (wire_value ''grpc-timeout'') (mget md ''grpc-timeout'')
       | Some d \<Rightarrow> [show_int (timeout_millis d) @ ''m''])"
    unfolding headersFromContext_eq Let_def md_def by (auto simp: mget_h_set split: option.splits)
qed

text \<open>Those of a unary request.\<close>

definition unary_type :: "'m channel_opts \<Rightarrow> string" where
  "unary_type opts = (if codecName opts = jsonCodecName then ApplicationJson else UnaryRpcContentType_V1)"

lemma unary_headers_eq:
  "getHeadersForClientUnaryRequest out_md t opts =
     with_own (headersFromContext out_md t) [(''Content-Type'', unary_type opts)]"
  by (simp add: getHeadersForClientUnaryRequest_def unary_type_def with_own_def)

lemma content_type_values [simp]:
  "field_value ApplicationJson" "field_value UnaryRpcContentType_V1" "field_value StreamRpcContentType_V1"
  "field_value EventStreamContentType"
  by (code_simp)+

lemma own_fields_unary: "own_fields [(''Content-Type'', unary_type opts)]"
  by (simp add: own_fields_def unary_type_def)

lemma unary_request_sendable:
  "valid_md (case out_md of None \<Rightarrow> [] | Some md \<Rightarrow> md) \<Longrightarrow>
   sendable (getHeadersForClientUnaryRequest out_md t opts)"
  unfolding unary_headers_eq by (rule request_headers(1) [OF _ own_fields_unary])

text \<open>The deadline that goes with a request: whole milliseconds, at least one.\<close>

lemma timeout_millis_eq: "timeout_millis d = max 1 (sint d div 1000000)"
proof (cases "sint d < 0")
  case True
  then have "- ((- sint d) div 1000000) \<le> 0" "sint d div 1000000 < 0"
    by (simp_all add: pos_imp_zdiv_nonneg_iff neg_imp_zdiv_neg_iff)
  with True show ?thesis by (simp add: timeout_millis_def Let_def)
next
  case False
  then show ?thesis by (simp add: timeout_millis_def Let_def)
qed

lemma header_timeout_sent:
  "header_timeout (show_int (timeout_millis d) @ ''m'') = Some (word_of_int (timeout_millis d) * 1000000)"
  "sint (word_of_int (timeout_millis d) * 1000000 :: 64 word) = 1000000 * timeout_millis d"
proof -
  have range: "sint d < 2 ^ 63" using sint_lt [of d] by simp
  then have millis: "1 \<le> timeout_millis d" "timeout_millis d \<le> 9223372036854"
    unfolding timeout_millis_eq by auto
  then have "parse_int (show_int (timeout_millis d)) 64 = Some (timeout_millis d)"
    by (intro parse_int_show_int) simp_all
  then show "header_timeout (show_int (timeout_millis d) @ ''m'') =
      Some (word_of_int (timeout_millis d) * 1000000)"
    by (simp add: header_timeout_def timeout_unit_def)
  have "sint (word_of_int (timeout_millis d * 1000000) :: 64 word) = timeout_millis d * 1000000"
    using millis by (simp only: sint_sbintrunc') (simp add: signed_take_bit_int_eq_self)
  then show "sint (word_of_int (timeout_millis d) * 1000000 :: 64 word) = 1000000 * timeout_millis d"
    by (simp add: mult.commute)
qed

subsection \<open>The server's view of the request\<close>

text \<open>What one side reads under a name under which the other has written the values of a
  metadata key.\<close>

lemma received_values:
  assumes "\<And>k. field_name k \<Longrightarrow> \<not> foreign k \<or> canonical_key k \<in> fst ` set sent \<Longrightarrow>
      read_values (to_lower k) (mget sent (canonical_key k)) = Some (mget rmd (to_lower k))"
    and "field_name (p @ k)" and "to_lower k = k"
    and "has_suffix (to_lower (p @ k)) bin_suffix = has_suffix k bin_suffix"
    and "mget sent (canonical_key (p @ k)) = map (wire_value k) vs"
    and "vs \<noteq> [] \<or> \<not> foreign (p @ k)"
  shows "mget rmd (to_lower (p @ k)) = vs"
proof -
  have "\<not> foreign (p @ k) \<or> canonical_key (p @ k) \<in> fst ` set sent"
    using assms(5,6) mget_notin [of "canonical_key (p @ k)" sent] by auto
  from assms(1) [OF assms(2) this] have
    "read_values (to_lower (p @ k)) (map (wire_value k) vs) = Some (mget rmd (to_lower (p @ k)))"
    unfolding assms(5) .
  moreover have "read_values (to_lower (p @ k)) (map (wire_value k) vs) = Some vs"
    using assms(3,4) by (intro read_values_wire) simp
  ultimately show ?thesis by simp
qed

lemma request_context:
  assumes "valid_md md" and "''grpc-timeout'' \<notin> fst ` set md"
    and own: "own_fields kvs" and "set (map (to_lower \<circ> fst) kvs) \<inter> fst ` set md = {}"
    and ct: "\<And>h. h_get (with_own h kvs) ''Content-Type'' = ct" "ct \<noteq> []"
    and recv: "carried (with_own (headersFromContext (Some md) t) kvs) recv"
  obtains ctx where "contextFromHeaders recv = Inr ctx"
    "\<And>k. mget md k \<noteq> [] \<Longrightarrow> mget (sc_md ctx) k = mget md k"
    "sc_timeout ctx = map_option (\<lambda>d. word_of_int (timeout_millis d) * 1000000) t"
    "h_get recv ''Content-Type'' = ct"
proof -
  let ?h = "with_own (headersFromContext (Some md) t) kvs"
  note req = request_headers [of "Some md", simplified option.case, OF assms(1) own, where t = t]
  obtain rmd where rmd: "asMetadata recv = Inr rmd"
    "\<And>k. field_name k \<Longrightarrow> \<not> foreign k \<or> canonical_key k \<in> fst ` set ?h \<Longrightarrow>
      read_values (to_lower k) (mget ?h (canonical_key k)) = Some (mget rmd (to_lower k))"
    using carried_asMetadata [OF recv req(2)] by metis
  have vals: "mget rmd k = mget md k" if k: "mget md k \<noteq> []" for k
  proof -
    have mem: "k \<in> fst ` set md" using k mget_notin by metis
    with assms(1,2) have valid: "field_name k" "to_lower k = k" "k \<notin> set reservedHeaders"
      "k \<noteq> ''grpc-timeout''"
      using valid_md_key [OF assms(1)] by metis+
    have "k \<notin> set (map (to_lower \<circ> fst) kvs)" using assms(4) mem by blast
    from req(3) [OF valid(1,2,4) this]
    have get: "mget ?h (canonical_key k) = map (wire_value k) (mget md k)" .
    show ?thesis
      using received_values [where p = "''''" and k = k, OF rmd(2)] valid get k by simp
  qed
  have "canonical_key ''Content-Type'' \<in> fst ` set ?h"
  proof (rule ccontr)
    assume "canonical_key ''Content-Type'' \<notin> fst ` set ?h"
    then have "h_get ?h ''Content-Type'' = []" by (simp add: h_get_def mget_notin)
    with ct show False by simp
  qed
  moreover have "\<not> foreign ''GRPC-Timeout''" by code_simp
  ultimately have names: "\<not> foreign ''GRPC-Timeout''" "canonical_key ''Content-Type'' \<in> fst ` set ?h"
    by simp_all
  have timeout: "header_timeout (h_get recv ''GRPC-Timeout'') =
      map_option (\<lambda>d. word_of_int (timeout_millis d) * 1000000) t"
  proof -
    have "foreign (canonical_key ''GRPC-Timeout'') = foreign ''GRPC-Timeout''" by (simp add: foreign_def)
    with names(1) have
      "mget recv (canonical_key ''GRPC-Timeout'') = mget ?h (canonical_key ''GRPC-Timeout'')"
      by (intro carried_mget [OF recv]) simp
    then have "h_get recv ''GRPC-Timeout'' =
        (case t of None \<Rightarrow> '''' | Some d \<Rightarrow> show_int (timeout_millis d) @ ''m'')"
      using req(4) assms(2) by (simp add: h_get_def mget_notin split: option.splits)
    then show ?thesis
      by (cases t) (simp_all add: header_timeout_sent, simp add: header_timeout_def)
  qed
  have "h_get recv ''Content-Type'' = h_get ?h ''Content-Type''"
    using names(2) by (simp add: h_get_def carried_mget [OF recv])
  with that vals timeout rmd(1) ct(1) show ?thesis by (simp add: contextFromHeaders_def)
qed

lemma unary_request_context:
  assumes "valid_md md" and "''grpc-timeout'' \<notin> fst ` set md"
    and "carried (getHeadersForClientUnaryRequest (Some md) t opts) recv"
  obtains ctx where "contextFromHeaders recv = Inr ctx"
    "\<And>k. mget md k \<noteq> [] \<Longrightarrow> mget (sc_md ctx) k = mget md k"
    "sc_timeout ctx = map_option (\<lambda>d. word_of_int (timeout_millis d) * 1000000) t"
    "h_get recv ''Content-Type'' = unary_type opts"
proof (rule request_context [where kvs = "[(''Content-Type'', unary_type opts)]" and ct = "unary_type opts",
        OF assms(1,2) own_fields_unary])
  have "\<forall>k \<in> fst ` set md. k \<notin> set reservedHeaders" using valid_md_key(3) [OF assms(1)] by blast
  then show "set (map (to_lower \<circ> fst) [(''Content-Type'', unary_type opts)]) \<inter> fst ` set md = {}"
    by (auto simp: reservedHeaders_def)
  show "unary_type opts \<noteq> []" by (simp add: unary_type_def content_types)
qed (use assms(3) in \<open>auto simp: unary_headers_eq with_own_def h_get_def mget_h_set intro: that\<close>)

subsection \<open>The client's view of the response\<close>

text \<open>The headers after both calls of \<open>toHeaders\<close>, and the metadata for which they are
  unambiguous. The key \<open>bin\<close> is left out of the trailers: with the prefix it looks like the key
  of a binary value to the client, but the server has written its values as they are.\<close>

definition response_headers :: "md \<Rightarrow> md \<Rightarrow> header" where
  "response_headers hdrs tlrs = toHeaders tlrs (toHeaders hdrs [] '''') trailer_header"

definition own_header :: "string \<Rightarrow> bool" where
  "own_header k \<longleftrightarrow> k \<in> {''x-grpc-status'', ''x-grpc-details'', ''x-content-type-options''}"

definition valid_response :: "md \<Rightarrow> md \<Rightarrow> bool" where
  "valid_response hdrs tlrs \<longleftrightarrow> valid_md hdrs \<and> valid_md tlrs \<and>
     (\<forall>k \<in> fst ` set hdrs. \<not> has_prefix k trailerPrefix \<and> \<not> own_header k) \<and>
     ''bin'' \<notin> fst ` set tlrs"

lemma to_lower_prefixed: "to_lower k = k \<Longrightarrow> to_lower (trailer_header @ k) = trailerPrefix @ k"
  by (simp add: to_lower_append)

lemma prefixed_bin_suffix:
  assumes "k \<noteq> []" and "k \<noteq> ''bin''"
  shows "has_suffix (trailerPrefix @ k) bin_suffix = has_suffix k bin_suffix"
proof (cases "length k < 4")
  case False
  then show ?thesis by (intro has_suffix_append_iff) (simp add: bin_suffix_def)
next
  case True
  with assms(1) obtain a b c where "k = [a] \<or> k = [a, b] \<or> k = [a, b, c]"
    by (cases k; cases "tl k"; cases "tl (tl k)"; cases "tl (tl (tl k))") auto
  with assms(2) show ?thesis by (auto simp: has_suffix_def bin_suffix_def trailerPrefix_def)
qed

lemma prefixed_not_own:
  "trailerPrefix @ k \<noteq> ''content-type''" "trailerPrefix @ k \<noteq> ''content-length''"
  "\<not> own_header (trailerPrefix @ k)"
  by (simp_all add: trailerPrefix_def own_header_def)

lemma response_headers_get:
  assumes "valid_response hdrs tlrs" and "field_name k" and "to_lower k = k"
  shows "\<not> has_prefix k trailerPrefix \<Longrightarrow>
      mget (response_headers hdrs tlrs) (canonical_key k) = map (wire_value k) (mget hdrs k)"
    and "mget (response_headers hdrs tlrs) (canonical_key (trailer_header @ k)) =
      map (wire_value k) (mget tlrs k)"
proof -
  have md: "valid_md hdrs" "valid_md tlrs" using assms(1) by (simp_all add: valid_response_def)
  have get: "mget (toHeaders hdrs [] '''') (canonical_key j) = map (wire_value j) (mget hdrs j)"
    if "field_name j" "to_lower j = j" for j
    using mget_toHeaders_valid [OF md(1) _ that, of "''''" "[]"] by simp
  show "mget (response_headers hdrs tlrs) (canonical_key k) = map (wire_value k) (mget hdrs k)"
    if no: "\<not> has_prefix k trailerPrefix"
  proof -
    have "canonical_key (trailer_header @ j) \<noteq> canonical_key k" if "j \<in> fst ` set tlrs" for j
    proof (rule canonical_key_neq)
      have "to_lower j = j" using valid_md_key [OF md(2) that] by simp
      with no assms(3) show "to_lower (trailer_header @ j) \<noteq> to_lower k"
        by (metis to_lower_prefixed has_prefix_append)
    qed
    then show ?thesis
      unfolding response_headers_def
      using get [OF assms(2,3)] by (subst mget_toHeaders_other) blast+
  qed
  have "canonical_key (trailer_header @ k) = canonical_key (trailerPrefix @ k)"
    using assms(2,3) by (subst canonical_key_eq_iff)
      (simp_all add: to_lower_append field_name_def)
  moreover have "field_name (trailerPrefix @ k)" "to_lower (trailerPrefix @ k) = trailerPrefix @ k"
    using assms(2,3) by (auto simp: field_name_def to_lower_append)
  moreover have "mget hdrs (trailerPrefix @ k) = []"
  proof (rule mget_notin, rule notI)
    assume "trailerPrefix @ k \<in> fst ` set hdrs"
    then have "\<not> has_prefix (trailerPrefix @ k) trailerPrefix"
      using assms(1) unfolding valid_response_def by blast
    then show False by simp
  qed
  ultimately have "mget (toHeaders hdrs [] '''') (canonical_key (trailer_header @ k)) = []"
    using get [of "trailerPrefix @ k"] by simp
  then show "mget (response_headers hdrs tlrs) (canonical_key (trailer_header @ k)) =
      map (wire_value k) (mget tlrs k)"
    unfolding response_headers_def
    using mget_toHeaders_valid [OF md(2) _ assms(2,3), of "trailer_header" "toHeaders hdrs [] ''''"]
    by simp
qed

text \<open>The headers that the server has written when it sends the status line: those of the
  metadata, and its own.\<close>

definition response_of :: "md \<Rightarrow> md \<Rightarrow> header \<Rightarrow> bool" where
  "response_of hdrs tlrs sent \<longleftrightarrow> sendable sent \<and> decodable sent \<and>
     (\<forall>k. field_name k \<and> \<not> own_header (to_lower k) \<and> to_lower k \<notin> set reservedHeaders \<longrightarrow>
        mget sent (canonical_key k) = mget (response_headers hdrs tlrs) (canonical_key k))"

lemma response_of_headers:
  assumes "valid_response hdrs tlrs"
  shows "response_of hdrs tlrs (response_headers hdrs tlrs)"
proof -
  have md: "valid_md hdrs" "valid_md tlrs" "''bin'' \<notin> fst ` set tlrs"
    using assms by (simp_all add: valid_response_def)
  have "sendable (response_headers hdrs tlrs)"
    unfolding response_headers_def using md by (auto intro!: sendable_toHeaders)
  moreover have "has_suffix (to_lower (trailer_header @ k)) bin_suffix = has_suffix (to_lower k) bin_suffix"
    if "k \<in> fst ` set tlrs" for k
  proof -
    have "k \<noteq> []" "to_lower k = k"
      using valid_md_key [OF md(2) that] by (simp_all add: field_name_def)
    moreover have "k \<noteq> ''bin''" using md(3) that by metis
    ultimately show ?thesis by (simp add: to_lower_prefixed prefixed_bin_suffix)
  qed
  then have "decodable (response_headers hdrs tlrs)"
    unfolding response_headers_def by (intro decodable_toHeaders) auto
  ultimately show ?thesis by (simp add: response_of_def)
qed

lemma response_of_set:
  assumes "response_of hdrs tlrs h" and "field_name k" and "field_value v"
    and "own_header (to_lower k) \<or> to_lower k \<in> set reservedHeaders"
    and "\<not> has_suffix (to_lower k) bin_suffix"
  shows "response_of hdrs tlrs (h_set h k v)"
proof -
  have "mget (h_set h k v) (canonical_key j) = mget h (canonical_key j)"
    if "\<not> own_header (to_lower j) \<and> to_lower j \<notin> set reservedHeaders" for j
    using that assms(4) by (intro mget_h_set_other) auto
  with assms show ?thesis by (auto simp: response_of_def)
qed

lemma response_of_add:
  assumes "response_of hdrs tlrs h" and "field_name k" and "field_value v"
    and "own_header (to_lower k)" and "\<not> has_suffix (to_lower k) bin_suffix"
  shows "response_of hdrs tlrs (h_add h k v)"
proof -
  have "mget (h_add h k v) (canonical_key j) = mget h (canonical_key j)"
    if "\<not> own_header (to_lower j)" for j
  proof -
    have "to_lower k \<noteq> to_lower j" using that assms(4) by metis
    then show ?thesis by (simp add: mget_h_add canonical_key_neq)
  qed
  moreover have "decodable (h_add h k v)" "sendable (h_add h k v)"
    using assms by (auto simp: response_of_def intro!: decodable_add sendable_add)
  ultimately show ?thesis using assms(1) by (auto simp: response_of_def)
qed

lemma response_of_del:
  assumes "response_of hdrs tlrs h" and "to_lower k \<in> set reservedHeaders"
  shows "response_of hdrs tlrs (h_del h k)"
proof -
  have sub: "set (h_del h k) \<subseteq> set h" by (auto simp: h_del_def AList.delete_eq)
  have "sendable (h_del h k)" "decodable (h_del h k)"
    using assms(1) sub distinct_delete [of h "canonical_key k"]
    by (auto simp: response_of_def sendable_def decodable_def h_del_def)
  moreover have "mget (h_del h k) (canonical_key j) = mget h (canonical_key j)"
    if "to_lower j \<notin> set reservedHeaders" for j
    using that assms(2) by (intro mget_h_del_other) auto
  ultimately show ?thesis using assms(1) by (auto simp: response_of_def)
qed

text \<open>What the client's call options receive.\<close>

lemma response_setMetadata:
  assumes valid: "valid_response hdrs tlrs" and sent: "response_of hdrs tlrs sent"
    and recv: "carried sent recv"
  obtains h t where "\<And>copts mem. setMetadata recv copts mem = Inr (SetTrailers copts t (SetHeaders copts h mem))"
    "\<And>k. mget hdrs k \<noteq> [] \<Longrightarrow> mget h k = mget hdrs k"
    "\<And>k. field_name k \<Longrightarrow> to_lower k = k \<Longrightarrow> k \<noteq> ''bin'' \<Longrightarrow> mget t k = mget tlrs k"
proof -
  obtain rmd where rmd: "asMetadata recv = Inr rmd" "distinct (map fst rmd)"
    "\<forall>k \<in> fst ` set rmd. to_lower k = k"
    "\<And>k. field_name k \<Longrightarrow> \<not> foreign k \<or> canonical_key k \<in> fst ` set sent \<Longrightarrow>
      read_values (to_lower k) (mget sent (canonical_key k)) = Some (mget rmd (to_lower k))"
    using carried_asMetadata [OF recv] sent by (metis response_of_def)
  have get: "mget sent (canonical_key k) = mget (response_headers hdrs tlrs) (canonical_key k)"
    if "field_name k" "\<not> own_header (to_lower k)" "to_lower k \<notin> set reservedHeaders" for k
    using sent that by (simp add: response_of_def)
  show ?thesis
  proof (rule that)
    fix copts :: call_options and mem :: "'a call_mem"
    show "setMetadata recv copts mem =
        Inr (SetTrailers copts (snd (split_trailers rmd)) (SetHeaders copts (fst (split_trailers rmd)) mem))"
      using rmd(1) by (simp add: setMetadata_def split_beta)
  next
    fix k assume k: "mget hdrs k \<noteq> []"
    then have mem: "k \<in> fst ` set hdrs" using mget_notin by metis
    have md: "valid_md hdrs" using valid by (simp add: valid_response_def)
    note key = valid_md_key [OF md mem]
    have own: "\<not> has_prefix k trailerPrefix" "\<not> own_header k"
      using valid mem unfolding valid_response_def by blast+
    have "mget sent (canonical_key k) = map (wire_value k) (mget hdrs k)"
      using get [of k] response_headers_get(1) [OF valid key(1,2) own(1)] key own by simp
    then have "mget rmd k = mget hdrs k"
      using received_values [where p = "''''" and k = k, OF rmd(4)] key k by simp
    moreover have "\<not> is_trailer_key k" using own(1) key(2) by (simp add: is_trailer_key_def)
    ultimately show "mget (fst (split_trailers rmd)) k = mget hdrs k"
      by (simp add: mget_split_headers)
  next
    fix k assume k: "field_name k" "to_lower k = k" "k \<noteq> ''bin''"
    have "k \<noteq> ''''" using k(1) by (simp add: field_name_def)
    have names: "field_name (trailer_header @ k)" using k(1) by (simp add: field_name_def)
    have low: "to_lower (trailer_header @ k) = trailerPrefix @ k" using k(2) by (rule to_lower_prefixed)
    have foreign: "\<not> foreign (trailer_header @ k)"
      unfolding foreign_def low by (simp add: trailerPrefix_def has_prefix_def)
    have "trailerPrefix @ k \<notin> set reservedHeaders"
      by (simp add: reservedHeaders_def trailerPrefix_def)
    then have "mget sent (canonical_key (trailer_header @ k)) = map (wire_value k) (mget tlrs k)"
      using get [OF names] response_headers_get(2) [OF valid k(1,2)] prefixed_not_own(3)
      unfolding low by simp
    from received_values [OF rmd(4) names k(2) _ this] foreign
    have "mget rmd (trailerPrefix @ k) = mget tlrs k"
      unfolding low using prefixed_bin_suffix [OF \<open>k \<noteq> ''''\<close> k(3)] by simp
    then show "mget (snd (split_trailers rmd)) k = mget tlrs k"
      using mget_split_trailers [OF rmd(2,3) \<open>k \<noteq> ''''\<close>] by simp
  qed
qed

subsection \<open>The status\<close>

text \<open>A message that is a field value after the code and the colon.\<close>

definition status_text :: "string \<Rightarrow> bool" where
  "status_text msg \<longleftrightarrow> list_all field_char msg \<and> (msg \<noteq> [] \<longrightarrow> last msg \<notin> {CHR '' '', CHR 0x09})"

lemma field_value_status: "status_text msg \<Longrightarrow> field_value (show_int n @ CHR '':'' # msg)"
proof -
  assume msg: "status_text msg"
  have plain: "list_all plain_char (show_int n @ [CHR '':''])"
    using plain_show_int by (simp add: plain_char_def)
  then have all: "field_char c \<and> c \<notin> {CHR '' '', CHR 0x09}"
    if "c \<in> set (show_int n @ [CHR '':''])" for c
    using plain_char_field that by (auto simp: list_all_iff)
  have "show_int n @ [CHR '':''] \<noteq> []" by simp
  from all [OF hd_in_set [OF this]] have first: "hd (show_int n @ [CHR '':'']) \<notin> {CHR '' '', CHR 0x09}"
    by (rule conjunct2)
  from all have chars: "\<forall>c \<in> set (show_int n @ [CHR '':'']). field_char c" by blast
  from first chars show ?thesis
    using msg by (auto simp: field_value_def status_text_def list_all_iff)
qed

lemma status_header_value [simp]:
  "mget h (canonical_key ''X-GRPC-Status'') = [show_int n @ CHR '':'' # msg] \<Longrightarrow>
   splitn2 CHR '':'' (h_get h ''X-GRPC-Status'') = [show_int n, msg]"
  by (simp add: h_get_def)

text \<open>The client takes the code, the message and the details from the headers, whatever the
  HTTP status is.\<close>

lemma statFromResponse_headers:
  assumes "mget (rp_Header reply) (canonical_key ''X-GRPC-Status'') =
      [show_int (code_num (api_codes api) c) @ CHR '':'' # msg]"
    and "mget (rp_Header reply) grpcDetailsHeader = map RawURLEncode bs"
    and "wire_code (api_codes api) c" and "c \<noteq> OK"
  shows "statFromResponse api cdc reply =
    Some \<lparr>st_code = c, st_message = msg,
          st_details = concat (map (\<lambda>b. case c_UnmarshalAny cdc b of Inl _ \<Rightarrow> [] | Inr a \<Rightarrow> [a]) bs)\<rparr>"
proof -
  have code: "parse_int (show_int (code_num (api_codes api) c)) 32 = Some (code_num (api_codes api) c)"
    "code_of_num (api_codes api) (code_num (api_codes api) c) = c"
    using assms(3) by (auto simp: wire_code_def intro!: parse_int_show_int)
  have "decode_details cdc (map RawURLEncode bs) =
      concat (map (\<lambda>b. case c_UnmarshalAny cdc b of Inl _ \<Rightarrow> [] | Inr a \<Rightarrow> [a]) bs)"
    by (simp add: decode_details_def comp_def)
  moreover have "details_header = grpcDetailsHeader"
    by (simp add: details_header_def grpcDetailsHeader_def)
  ultimately show ?thesis
    using assms(2,4) code status_header_value [OF assms(1)]
    by (simp add: statFromResponse_def)
qed

definition sent_details :: "'m wire_codec \<Rightarrow> any_pb list \<Rightarrow> bytes list" where
  "sent_details cdc ds = concat (map (\<lambda>d. case c_MarshalAny cdc d of Inl _ \<Rightarrow> [] | Inr b \<Rightarrow> [b]) ds)"

lemma grpcDetailsHeader_name: "grpcDetailsHeader = canonical_key ''X-GRPC-Details''"
  by (simp add: grpcDetailsHeader_def)

lemma mget_add_details': "mget (rw_header (add_details cdc ds rw)) k = mget (rw_header rw) k @
    (if k = grpcDetailsHeader then map RawURLEncode (sent_details cdc ds) else [])"
  by (simp add: mget_add_details sent_details_def)

lemma response_headers_own:
  assumes "valid_response hdrs tlrs" and "own_header k" and "field_name k" and "to_lower k = k"
  shows "mget (response_headers hdrs tlrs) (canonical_key k) = []"
proof -
  have "k \<notin> fst ` set hdrs" using assms(1,2) unfolding valid_response_def by blast
  moreover have "\<not> has_prefix k trailerPrefix"
    using assms(2) by (auto simp: own_header_def has_prefix_def trailerPrefix_def)
  ultimately show ?thesis
    using response_headers_get(1) [OF assms(1,3,4)] by (simp add: mget_notin)
qed

lemma own_canonical:
  "canonical_key ''X-GRPC-Details'' = canonical_key ''x-grpc-details''"
  "canonical_key ''X-GRPC-Status'' \<noteq> canonical_key ''X-GRPC-Details''"
  by (code_simp)+

lemma write_status_headers:
  assumes "valid_response hdrs tlrs" and "rw_header rw = response_headers hdrs tlrs"
  shows "mget (rw_header (write_status api cdc st rw)) (canonical_key ''X-GRPC-Status'') =
      [show_int (code_num (api_codes api) (st_code st)) @ CHR '':'' # st_message st]"
    and "mget (rw_header (write_status api cdc st rw)) grpcDetailsHeader =
      map RawURLEncode (sent_details cdc (st_details st))"
proof -
  have "mget (response_headers hdrs tlrs) grpcDetailsHeader = []"
    unfolding grpcDetailsHeader_name own_canonical(1)
    by (rule response_headers_own [OF assms(1)]) (simp add: own_header_def, code_simp, code_simp)
  then show "mget (rw_header (write_status api cdc st rw)) grpcDetailsHeader =
      map RawURLEncode (sent_details cdc (st_details st))"
    using own_canonical(2)
    by (simp add: write_status_def mget_add_details' mget_h_set assms(2) grpcDetailsHeader_name)
  show "mget (rw_header (write_status api cdc st rw)) (canonical_key ''X-GRPC-Status'') =
      [show_int (code_num (api_codes api) (st_code st)) @ CHR '':'' # st_message st]"
    using own_canonical(2)
    by (simp add: write_status_def mget_add_details' mget_h_set grpcDetailsHeader_name)
qed

lemma response_of_add_details:
  "response_of hdrs tlrs (rw_header rw) \<Longrightarrow> response_of hdrs tlrs (rw_header (add_details cdc ds rw))"
proof (induction ds arbitrary: rw)
  case Nil
  then show ?case by (simp add: add_details_def)
next
  case (Cons d ds)
  have low: "to_lower grpcDetailsHeader = ''x-grpc-details''" by (simp add: grpcDetailsHeader_def)
  have "response_of hdrs tlrs (h_add (rw_header rw) grpcDetailsHeader (RawURLEncode b))" for b
    by (rule response_of_add [OF Cons.prems])
      (simp_all add: low own_header_def RawURLEncode_def field_value_b64, simp add: grpcDetailsHeader_def)
  then have "response_of hdrs tlrs (rw_header (rw_Add grpcDetailsHeader (RawURLEncode b) rw))" for b
    by simp
  with Cons show ?case by (auto simp: add_details_def split: sum.splits)
qed

lemma response_of_write_status:
  assumes "response_of hdrs tlrs (rw_header rw)" and "status_text (st_message st)"
  shows "response_of hdrs tlrs (rw_header (write_status api cdc st rw))"
  unfolding write_status_def using assms
  by (auto intro!: response_of_add_details response_of_set field_value_status simp: own_header_def)

subsection \<open>The response\<close>

text \<open>When a handler returns without having written anything, \<open>net/http\<close> sends the headers with
  the status 200.\<close>

definition final_response :: "response_writer \<Rightarrow> response_writer" where
  "final_response rw = WriteHeader 200 rw"

definition reply_carried :: "response_writer \<Rightarrow> http_reply \<Rightarrow> bool" where
  "reply_carried rw reply \<longleftrightarrow>
     rp_StatusCode reply = the (rw_status (final_response rw)) \<and>
     carried (rw_sent (final_response rw)) (rp_Header reply) \<and>
     rp_Body reply = rd (rw_body rw) EOF"

definition request_carried :: "out_request \<Rightarrow> http_request \<Rightarrow> bool" where
  "request_carried oq r \<longleftrightarrow>
     rq_Method r = ''POST'' \<and> carried (oq_Header oq) (rq_Header r) \<and> rq_Body r = rd (oq_Body oq) EOF"

text \<open>A transport that delivers requests to a handler and its responses back: what the program
  relies on. Only headers that HTTP can carry are promised to arrive.\<close>

definition serves :: "(out_request \<Rightarrow> goerr + http_reply) \<Rightarrow> (http_request \<Rightarrow> response_writer) \<Rightarrow> bool" where
  "serves transport srv \<longleftrightarrow>
     (\<forall>oq. sendable (oq_Header oq) \<longrightarrow>
        (\<exists>r reply. request_carried oq r \<and> transport oq = Inr reply \<and>
           (sendable (rw_sent (final_response (srv r))) \<longrightarrow> reply_carried (srv r) reply)))"

text \<open>An example: both ends in one process.\<close>

definition loopback_request :: "out_request \<Rightarrow> http_request" where
  "loopback_request oq =
     \<lparr>rq_Method = ''POST'', rq_Header = oq_Header oq, rq_Body = rd (oq_Body oq) EOF, rq_ctx_err = None\<rparr>"

definition loopback_reply :: "response_writer \<Rightarrow> http_reply" where
  "loopback_reply rw =
     (let w = final_response rw
      in \<lparr>rp_StatusCode = the (rw_status w), rp_Status = StatusText (the (rw_status w)),
          rp_Header = rw_sent w, rp_Body = rd (rw_body rw) EOF\<rparr>)"

definition loopback :: "(http_request \<Rightarrow> response_writer) \<Rightarrow> out_request \<Rightarrow> goerr + http_reply" where
  "loopback srv oq = Inr (loopback_reply (srv (loopback_request oq)))"

lemma serves_loopback: "serves (loopback srv) srv"
  unfolding serves_def
proof (intro allI impI)
  fix oq :: out_request
  assume "sendable (oq_Header oq)"
  then have "request_carried oq (loopback_request oq)"
    by (simp add: request_carried_def loopback_request_def carried_refl)
  moreover have "sendable (rw_sent (final_response rw)) \<longrightarrow> reply_carried rw (loopback_reply rw)" for rw
    by (simp add: reply_carried_def loopback_reply_def Let_def carried_refl)
  ultimately show "\<exists>r reply. request_carried oq r \<and> loopback srv oq = Inr reply \<and>
      (sendable (rw_sent (final_response (srv r))) \<longrightarrow> reply_carried (srv r) reply)"
    unfolding loopback_def by blast
qed

text \<open>The default renderer changes none of the headers that carry the status.\<close>

lemma DefaultErrorRenderer_headers:
  fixes api :: status_api and cerr :: "goerr option" and st :: status
  assumes "rw_status rw = None" and "response_of hdrs tlrs (rw_header rw)"
  defines "w \<equiv> final_response (DefaultErrorRenderer api cerr st rw)"
  shows "response_of hdrs tlrs (rw_sent w)" "rw_status w \<noteq> None"
    and "mget (rw_sent w) (canonical_key ''X-GRPC-Status'') = mget (rw_header rw) (canonical_key ''X-GRPC-Status'')"
    and "mget (rw_sent w) grpcDetailsHeader = mget (rw_header rw) grpcDetailsHeader"
proof -
  have "\<exists>msg code. DefaultErrorRenderer api cerr st rw = http_Error msg code rw"
    unfolding DefaultErrorRenderer_def Let_def by (split if_split) blast
  then obtain msg code where err: "DefaultErrorRenderer api cerr st rw = http_Error msg code rw" by blast
  have w: "rw_sent w = h_set (h_set (h_del (rw_header rw) ''Content-Length'') ''Content-Type''
      ''text/plain; charset=utf-8'') ''X-Content-Type-Options'' ''nosniff''" "rw_status w = Some code"
    unfolding w_def err final_response_def using assms(1) by (simp_all add: http_Error_sel)
  have "field_value ''text/plain; charset=utf-8''" "field_value ''nosniff''" by code_simp+
  then show "response_of hdrs tlrs (rw_sent w)"
    unfolding w using assms(2)
    by (intro response_of_set response_of_del) (simp_all add: own_header_def reservedHeaders_def)
  show "rw_status w \<noteq> None" using w by simp
  show "mget (rw_sent w) (canonical_key ''X-GRPC-Status'') = mget (rw_header rw) (canonical_key ''X-GRPC-Status'')"
    unfolding w by (simp add: mget_h_set_other mget_h_del_other)
  show "mget (rw_sent w) grpcDetailsHeader = mget (rw_header rw) grpcDetailsHeader"
    unfolding w grpcDetailsHeader_name by (simp add: mget_h_set_other mget_h_del_other)
qed

lemma DefaultErrorRenderer_kept:
  assumes "rw_status rw = None"
  shows "mget (rw_sent (final_response (DefaultErrorRenderer api cerr st rw))) (canonical_key ''X-GRPC-Status'') =
      mget (rw_header rw) (canonical_key ''X-GRPC-Status'')"
    and "mget (rw_sent (final_response (DefaultErrorRenderer api cerr st rw))) grpcDetailsHeader =
      mget (rw_header rw) grpcDetailsHeader"
  using assms
  by (simp_all add: DefaultErrorRenderer_def Let_def final_response_def http_Error_sel grpcDetailsHeader_name
      mget_h_set_other mget_h_del_other)

subsection \<open>What a unary handler leaves behind\<close>

definition metadata_headers :: "sts_call list \<Rightarrow> header" where
  "metadata_headers calls =
     response_headers (md_joined (call_headers calls)) (md_joined (call_trailers calls))"

lemma handleMethod_runs:
  assumes "rq_Method r = ''POST''" and "getCodecForServerUnaryResponse env (h_get (rq_Header r) ''Content-Type'') = Some cdc"
    and "contextFromHeaders (rq_Header r) = Inr ctx" and "read_all (rq_Body r) = Inr req"
    and "impl ctx (unary_dec env cdc req) = (calls, outcome)"
  shows "handleMethod env svc mth impl errFunc r =
    (let w = new_response\<lparr>rw_header := metadata_headers calls\<rparr> in
     case outcome of
       Inl err \<Rightarrow>
         (let st = error_status (env_api env) err
          in (case errFunc of None \<Rightarrow> DefaultErrorRenderer (env_api env) | Some f \<Rightarrow> f) (rq_ctx_err r) st
               (write_status (env_api env) cdc st w))
     | Inr resp \<Rightarrow>
         (case c_Marshal cdc resp of
            Inl err \<Rightarrow> writeError 500 w
          | Inr b \<Rightarrow>
              rw_Write b (rw_Set ''Content-Length'' (show_nat (length b))
                (rw_Set ''Content-Type'' (h_get (rq_Header r) ''Content-Type'') w))))"
proof -
  have "rw_toHeaders (md_list (sts_GetTrailers (snd (sts_run calls (new_unary_sts n))))) trailer_header
      (rw_toHeaders (md_list (sts_GetHeaders (snd (sts_run calls (new_unary_sts n))))) '''' new_response) =
    new_response\<lparr>rw_header := metadata_headers calls\<rparr>" for n
    by (simp add: rw_toHeaders_def unary_collected metadata_headers_def response_headers_def new_response_def)
  with assms show ?thesis
    by (cases outcome) (auto simp: handleMethod_def Let_def split: sum.splits)
qed

subsection \<open>The client's view of the two kinds of response\<close>

definition valid_calls :: "sts_call list \<Rightarrow> bool" where
  "valid_calls calls \<longleftrightarrow> valid_response (md_joined (call_headers calls)) (md_joined (call_trailers calls))"

text \<open>The status as it arrives: a detail that the codec cannot marshal is left out.\<close>

definition delivered_status :: "'m wire_codec \<Rightarrow> status \<Rightarrow> status" where
  "delivered_status cdc st =
     st\<lparr>st_details := filter (\<lambda>d. case c_MarshalAny cdc d of Inl _ \<Rightarrow> False | Inr _ \<Rightarrow> True) (st_details st)\<rparr>"

definition details_codec :: "'m wire_codec \<Rightarrow> bool" where
  "details_codec cdc \<longleftrightarrow> (\<forall>d b. c_MarshalAny cdc d = Inr b \<longrightarrow> c_UnmarshalAny cdc b = Inr d)"

lemma sent_details_received:
  "details_codec cdc \<Longrightarrow>
   concat (map (\<lambda>b. case c_UnmarshalAny cdc b of Inl _ \<Rightarrow> [] | Inr a \<Rightarrow> [a]) (sent_details cdc ds)) =
   filter (\<lambda>d. case c_MarshalAny cdc d of Inl _ \<Rightarrow> False | Inr _ \<Rightarrow> True) ds"
  unfolding sent_details_def by (induction ds) (auto simp: details_codec_def split: sum.splits)

text \<open>An error, with any renderer that keeps the two headers of the status.\<close>

lemma error_received:
  assumes "valid_calls calls" and "details_codec cdc"
    and "wire_code (api_codes api) (st_code st)" and "st_code st \<noteq> OK"
    and w: "w = write_status api cdc st (new_response\<lparr>rw_header := metadata_headers calls\<rparr>)"
    and kept: "mget (rw_sent (final_response rw)) (canonical_key ''X-GRPC-Status'') =
        mget (rw_header w) (canonical_key ''X-GRPC-Status'')"
      "mget (rw_sent (final_response rw)) grpcDetailsHeader = mget (rw_header w) grpcDetailsHeader"
    and carried: "carried (rw_sent (final_response rw)) (rp_Header reply)"
  shows "statFromResponse api cdc reply = Some (delivered_status cdc st)"
proof -
  have foreign: "\<not> foreign (canonical_key ''X-GRPC-Status'')" "\<not> foreign grpcDetailsHeader"
    by (simp_all add: foreign_def grpcDetailsHeader_def has_prefix_def)
  note sent = write_status_headers [OF assms(1) [unfolded valid_calls_def],
      of "new_response\<lparr>rw_header := metadata_headers calls\<rparr>" api cdc st, folded w]
  have "mget (rp_Header reply) (canonical_key ''X-GRPC-Status'') =
      [show_int (code_num (api_codes api) (st_code st)) @ CHR '':'' # st_message st]"
    "mget (rp_Header reply) grpcDetailsHeader = map RawURLEncode (sent_details cdc (st_details st))"
    using carried_mget [OF carried] foreign kept sent by (simp_all add: metadata_headers_def)
  from statFromResponse_headers [OF this assms(3,4), of cdc] show ?thesis
    using sent_details_received [OF assms(2)] by (cases st) (simp add: delivered_status_def)
qed

lemma response_of_metadata:
  "valid_calls calls \<Longrightarrow>
   response_of (md_joined (call_headers calls)) (md_joined (call_trailers calls)) (metadata_headers calls)"
  by (simp add: valid_calls_def metadata_headers_def response_of_headers)

lemma response_of_error:
  assumes "valid_calls calls" and "status_text (st_message st)"
    and "w = write_status api cdc st (new_response\<lparr>rw_header := metadata_headers calls\<rparr>)"
  shows "response_of (md_joined (call_headers calls)) (md_joined (call_trailers calls))
      (rw_sent (final_response (DefaultErrorRenderer api cerr st w)))"
proof -
  have "response_of (md_joined (call_headers calls)) (md_joined (call_trailers calls)) (rw_header w)"
    unfolding assms(3) using response_of_metadata [OF assms(1)] assms(2)
    by (intro response_of_write_status) simp_all
  moreover have "rw_status w = None" unfolding assms(3) by simp
  ultimately show ?thesis by (intro DefaultErrorRenderer_headers(1))
qed

text \<open>A message: the status line is that of the first write, 200.\<close>

lemma message_received:
  assumes "valid_calls calls" and "ct = ApplicationJson \<or> ct = UnaryRpcContentType_V1"
    and w: "w = rw_Write b (rw_Set ''Content-Length'' (show_nat (length b))
        (rw_Set ''Content-Type'' ct (new_response\<lparr>rw_header := metadata_headers calls\<rparr>)))"
  shows "response_of (md_joined (call_headers calls)) (md_joined (call_trailers calls))
      (rw_sent (final_response w))"
    and "reply_carried w reply \<Longrightarrow> statFromResponse api cdc reply = None \<and> rp_Body reply = rd b EOF"
proof -
  let ?h = "h_set (h_set (metadata_headers calls) ''Content-Type'' ct) ''Content-Length'' (show_nat (length b))"
  have sent: "rw_sent (final_response w) = ?h" "rw_status (final_response w) = Some 200" "rw_body w = b"
    unfolding w by (simp_all add: final_response_def rw_Write_def Let_def)
  have ct: "field_value ct" using assms(2) by auto
  have "list_all plain_char (show_nat n)" for n
    using plain_show_int [of "int n"] by (simp add: show_int_def)
  then have len: "field_value (show_nat n)" for n by (rule field_value_plain)
  show "response_of (md_joined (call_headers calls)) (md_joined (call_trailers calls))
      (rw_sent (final_response w))"
    unfolding sent using response_of_metadata [OF assms(1)] ct len
    by (intro response_of_set) (simp_all add: reservedHeaders_def)
  assume reply: "reply_carried w reply"
  have foreign: "\<not> foreign (canonical_key ''X-GRPC-Status'')"
    by (simp add: foreign_def has_prefix_def)
  have "canonical_key ''X-GRPC-Status'' = canonical_key ''x-grpc-status''" by code_simp
  moreover have "mget (metadata_headers calls) (canonical_key ''x-grpc-status'') = []"
    unfolding metadata_headers_def
    by (rule response_headers_own [OF assms(1) [unfolded valid_calls_def]])
      (simp add: own_header_def, code_simp, code_simp)
  moreover have "mget ?h (canonical_key ''X-GRPC-Status'') =
      mget (metadata_headers calls) (canonical_key ''X-GRPC-Status'')"
    by (simp add: mget_h_set_other)
  ultimately have none: "mget ?h (canonical_key ''X-GRPC-Status'') = []" by simp
  have "carried ?h (rp_Header reply)" using reply by (simp add: reply_carried_def sent)
  from carried_mget [OF this] foreign none
  have "mget (rp_Header reply) (canonical_key ''X-GRPC-Status'') = []" by simp
  then have "splitn2 CHR '':'' (h_get (rp_Header reply) ''X-GRPC-Status'') = ['''']"
    by (simp add: h_get_def)
  moreover have "codeFromHttpStatus (rp_StatusCode reply) = OK"
    using reply by (simp add: reply_carried_def sent codeFromHttpStatus_def)
  ultimately show "statFromResponse api cdc reply = None \<and> rp_Body reply = rd b EOF"
    using reply by (simp add: statFromResponse_def reply_carried_def sent)
qed

end
