(* ===== verification/Http_Stream_View.thy ===== *)
theory Http_Stream_View
  imports Http_Stream_Server Http_Exchange
begin

text \<open>
  What a streaming method of the HTTP server sends, as a function of the calls its handler
  makes: the contract of a stream writer as a locale, interpreted on the two formats, and the
  response of \<open>handleStream\<close>.
\<close>

subsection \<open>Stream writers\<close>

locale stream_writer =
  fixes encode :: "bool \<Rightarrow> bytes \<Rightarrow> bytes"
    and ok :: "bool \<Rightarrow> bytes \<Rightarrow> bool"
    and marshal :: "'m wire_msg \<Rightarrow> goerr + bytes"
    and put :: "'m wire_msg \<Rightarrow> bool \<Rightarrow> writer \<Rightarrow> goerr option \<times> writer"
  assumes put_ok: "marshal m = Inr b \<Longrightarrow> ok t b \<Longrightarrow> wr_room w = None \<Longrightarrow>
      put m t w = (None, w\<lparr>wr_out := wr_out w @ encode t b\<rparr>)"
    and encode_nonempty: "encode t b \<noteq> []"

interpretation sp_writer: stream_writer sp_encode sp_ok marshal "newSizePrefixedWriter marshal"
  for marshal :: "'m wire_msg \<Rightarrow> goerr + bytes"
proof unfold_locales
  fix m t b and w :: writer
  assume "marshal m = Inr b" "sp_ok t b" "wr_room w = None"
  then show "newSizePrefixedWriter marshal m t w = (None, w\<lparr>wr_out := wr_out w @ sp_encode t b\<rparr>)"
    using writeProtoMessage_out [of marshal m b w t]
    by (simp add: newSizePrefixedWriter_def sp_ok_def maxMessageSize_def maxInt32_def)
qed (simp add: sp_encode_def)

interpretation sse_writer: stream_writer sse_encode sse_ok marshal "newSSEWriter marshal None"
  for marshal :: "'m wire_msg \<Rightarrow> goerr + bytes"
  by unfold_locales (simp_all add: newSSEWriter_out sse_encode_def sse_bytes_def)

subsection \<open>The calls of a run\<close>

primrec http_log :: "'m stream_io \<Rightarrow> 'm handler \<Rightarrow> http_sstream \<Rightarrow> 'm srv_op list" where
  "http_log sio (HReturn err) = (\<lambda>s. [])"
| "http_log sio (HCall a k) = (\<lambda>s. case http_op sio a s of (e, s1) \<Rightarrow> a # http_log sio (k e) s1)"
| "http_log sio (HRecv m k) = (\<lambda>s. case hs_RecvMsg sio m s of (x, s1) \<Rightarrow> http_log sio (k x) s1)"

text \<open>Every message that a handler sends marshals to a payload that the format carries.\<close>

definition sends_ok :: "('m wire_msg \<Rightarrow> goerr + bytes) \<Rightarrow> (bool \<Rightarrow> bytes \<Rightarrow> bool) \<Rightarrow> 'm srv_op list \<Rightarrow> bool" where
  "sends_ok marshal ok ops \<longleftrightarrow>
     (\<forall>m. OpSendMsg m \<in> set ops \<longrightarrow>
        m \<noteq> None \<and> (case marshal (WMsg m) of Inr b \<Rightarrow> ok False b | Inl _ \<Rightarrow> False))"

definition payload_of :: "('m wire_msg \<Rightarrow> goerr + bytes) \<Rightarrow> 'm wire_msg \<Rightarrow> bytes" where
  "payload_of marshal m = (case marshal m of Inr b \<Rightarrow> b | Inl _ \<Rightarrow> [])"

text \<open>The header as it goes out, now or when the first byte of the body is written.\<close>

definition out_header :: "response_writer \<Rightarrow> header" where
  "out_header rw = rw_sent (final_response rw)"

lemma out_header_simps [simp]:
  "rw_status rw = None \<Longrightarrow> out_header rw = rw_header rw"
  "rw_status rw \<noteq> None \<Longrightarrow> out_header rw = rw_sent rw"
  by (auto simp: out_header_def final_response_def WriteHeader_def split: option.splits)

definition in_order :: "http_sstream \<Rightarrow> bool" where
  "in_order s \<longleftrightarrow> \<not> hs_writeFailed s \<and> hs_room s = None \<and>
     rw_status (hs_w s) = (if hs_headersSent s then Some 200 else None)"

lemma hs_RecvMsg_kept:
  "hs_RecvMsg sio m s = (x, s1) \<Longrightarrow>
   hs_w s1 = hs_w s \<and> hs_tr s1 = hs_tr s \<and> hs_headersSent s1 = hs_headersSent s \<and> (in_order s \<longrightarrow> in_order s1)"
  by (auto simp: hs_RecvMsg_def in_order_def Let_def split: prod.splits sum.splits if_splits)

lemma rw_Write_sel:
  "rw_status rw = None \<or> rw_status rw = Some 200 \<Longrightarrow> rw_status (rw_Write b rw) = Some 200"
  "rw_body (rw_Write b rw) = rw_body rw @ b"
  "out_header (rw_Write b rw) = out_header rw"
  by (auto simp: rw_Write_def Let_def WriteHeader_def out_header_def final_response_def split: option.splits)

lemma rw_toHeaders_out [simp]:
  "rw_status rw = None \<Longrightarrow> out_header (rw_toHeaders md pfx rw) = toHeaders md (out_header rw) pfx"
  by simp

lemma out_header_WriteHeader [simp]: "out_header (WriteHeader 200 rw) = out_header rw"
  by (auto simp: out_header_def final_response_def WriteHeader_def split: option.splits)

text \<open>One call: what it adds to the header, the trailers and the body.\<close>

definition flushes :: "'m srv_op \<Rightarrow> bool" where
  "flushes a = (case a of OpSendHeader _ \<Rightarrow> True | OpSendMsg _ \<Rightarrow> True | _ \<Rightarrow> False)"

lemma header_mds_Cons: "header_mds (a # ops) = header_mds [a] @ (if flushes a then [] else header_mds ops)"
  by (cases a) (simp_all add: flushes_def)

lemma trailer_mds_Cons: "trailer_mds (a # ops) = trailer_mds [a] @ trailer_mds ops"
  by (cases a) simp_all

lemma sent_msgs_Cons: "sent_msgs (a # ops) = sent_msgs [a] @ sent_msgs ops"
proof (cases a)
  case (OpSendMsg m)
  then show ?thesis by (cases m) simp_all
qed simp_all

abbreviation add_headers :: "header \<Rightarrow> md list \<Rightarrow> header" where
  "add_headers h mds \<equiv> foldl (\<lambda>h md. toHeaders md h '''') h mds"

context stream_writer
begin

abbreviation encode_msgs :: "'m list \<Rightarrow> bytes" where
  "encode_msgs ms \<equiv> concat (map (\<lambda>m. encode False (payload_of marshal (WMsg (Some m)))) ms)"

lemma stream_write_out:
  assumes "io_write sio = put" and "marshal m = Inr b" and "ok t b" and "hs_room s = None"
  shows "stream_write sio m t s =
    (None, s\<lparr>hs_w := rw_Write (encode t b) (hs_w s), hs_room := None, hs_r := hs_after s (hs_r s)\<rparr>)"
  using put_ok [OF assms(2,3), of "\<lparr>wr_out = [], wr_room = None\<rparr>"] assms(1,4) encode_nonempty
  by (simp add: stream_write_def)

definition op_effect :: "'m srv_op list \<Rightarrow> http_sstream \<Rightarrow> http_sstream \<Rightarrow> bool" where
  "op_effect ops s s1 \<longleftrightarrow>
     in_order s1 \<and> hs_tr s1 = hs_tr s @ trailer_mds ops \<and>
     rw_body (hs_w s1) = rw_body (hs_w s) @ encode_msgs (sent_msgs ops) \<and>
     hs_headersSent s1 = (hs_headersSent s \<or> list_ex flushes ops) \<and>
     out_header (hs_w s1) =
       (if hs_headersSent s then out_header (hs_w s) else add_headers (out_header (hs_w s)) (header_mds ops))"

lemma http_op_effect:
  assumes "io_write sio = put" and "in_order s" and "sends_ok marshal ok [a]"
    and "http_op sio a s = (e, s1)"
  shows "op_effect [a] s s1"
proof (cases a)
  case (OpSendMsg x)
  with assms(3) obtain m b where m: "x = Some m" "marshal (WMsg (Some m)) = Inr b" "ok False b"
    by (auto simp: sends_ok_def split: sum.splits)
  have "stream_write sio (WMsg (Some m)) False (s\<lparr>hs_headersSent := True\<rparr>) =
      (None, s\<lparr>hs_headersSent := True, hs_w := rw_Write (encode False b) (hs_w s), hs_room := None,
        hs_r := hs_after s (hs_r s)\<rparr>)"
    using stream_write_out [OF assms(1) m(2,3), of "s\<lparr>hs_headersSent := True\<rparr>"] assms(2)
    by (simp add: in_order_def)
  with assms(2,4) OpSendMsg m show ?thesis
    by (auto simp: op_effect_def in_order_def hs_SendMsg_def rw_Write_sel payload_of_def flushes_def)
qed (use assms in \<open>auto simp: op_effect_def in_order_def flushes_def hs_SetHeader_def hs_SendHeader_def
      hs_setHeader_def hs_SetTrailer_def Let_def split: if_splits\<close>)

lemma op_effect_trans:
  assumes "op_effect [a] s s1" and "op_effect ops s1 s2"
  shows "op_effect (a # ops) s s2"
  using assms unfolding op_effect_def header_mds_Cons [of a ops] trailer_mds_Cons [of a ops]
    sent_msgs_Cons [of a ops]
  by (auto split: if_splits)

lemma http_run_effect:
  assumes "io_write sio = put" and "in_order s" and "http_run sio h s = (err, s')"
    and "sends_ok marshal ok (http_log sio h s)"
  shows "op_effect (http_log sio h s) s s'"
  using assms(2-)
proof (induction h arbitrary: s)
  case (HReturn e)
  then show ?case by (simp add: op_effect_def)
next
  case (HCall a k)
  obtain e s1 where op: "http_op sio a s = (e, s1)" by fastforce
  with HCall.prems have "sends_ok marshal ok [a]" "sends_ok marshal ok (http_log sio (k e) s1)"
    by (auto simp: sends_ok_def)
  from http_op_effect [OF assms(1) HCall.prems(1) this(1) op] have one: "op_effect [a] s s1" .
  then have "in_order s1" by (simp add: op_effect_def)
  with HCall op \<open>sends_ok marshal ok (http_log sio (k e) s1)\<close>
  have "op_effect (http_log sio (k e) s1) s1 s'" by simp
  from op_effect_trans [OF one this] op show ?case by simp
next
  case (HRecv m k)
  obtain x s1 where rv: "hs_RecvMsg sio m s = (x, s1)" by fastforce
  note kept = hs_RecvMsg_kept [OF rv]
  with HRecv rv have "op_effect (http_log sio (k x) s1) s1 s'" by simp
  with kept rv show ?case by (simp add: op_effect_def)
qed

text \<open>The response of \<open>handleStream\<close>: the stream of the messages, closed by the trailer.\<close>

definition stream_body :: "'m list \<Rightarrow> http_trailer \<Rightarrow> bytes" where
  "stream_body ms tr = encode_msgs ms @ encode True (payload_of marshal (WTrailer tr))"

lemma handleStream_response:
  fixes desc :: "('h, server_ctx, 'm handler) stream_handler stream_desc"
  assumes "rq_Method r = ''POST''"
    and "getServerStreamReaderAndWriter se (h_get (rq_Header r) ''Content-Type'') = Ret (Some sio)"
    and "contextFromHeaders (rq_Header r) = Inr ctx" and "io_write sio = put"
    and body: "body = (case streamInt of
        Some i \<Rightarrow> i svr ctx \<lparr>FullMethod = ''/'' @ svc @ ''/'' @ StreamName desc,
          IsClientStream = ClientStreams desc, IsServerStream = ServerStreams desc\<rparr> (sd_handler desc)
      | None \<Rightarrow> sd_handler desc svr ctx)"
    and s: "s = \<lparr>hs_respStream = ClientStreams desc, hs_r = rq_Body r, hs_recvd = 0,
        hs_w = rw_Set ''Content-Type'' (io_type sio) new_response, hs_room = None, hs_after = io_after sio,
        hs_headersSent = False, hs_writeFailed = False, hs_tr = []\<rparr>"
    and ops: "ops = http_log sio body s" and "sends_ok marshal ok ops"
    and err: "err = fst (http_run sio body s)"
    and tr: "tr = stream_trailer se (trailer_mds ops) err"
    and "marshal (WTrailer tr) = Inr tb" and "ok True tb"
  obtains w where "handleStream se svr svc desc streamInt None r = Ret w" "rw_status w = Some 200"
    "rw_body w = stream_body (sent_msgs ops) tr"
    "rw_sent w = add_headers (h_set [] ''Content-Type'' (io_type sio)) (header_mds ops)"
proof -
  obtain s1 where run: "http_run sio body s = (err, s1)" using err by (cases "http_run sio body s") auto
  have "in_order s" by (simp add: s in_order_def)
  from http_run_effect [OF assms(4) this run] assms(8) ops have eff: "op_effect ops s s1" by simp
  then have inv: "hs_room s1 = None" "\<not> hs_writeFailed s1" "hs_tr s1 = trailer_mds ops"
    by (auto simp: op_effect_def in_order_def s)
  have out: "stream_write sio (WTrailer tr) True s1 =
      (None, s1\<lparr>hs_w := rw_Write (encode True tb) (hs_w s1), hs_room := None, hs_r := hs_after s1 (hs_r s1)\<rparr>)"
    by (rule stream_write_out) (use assms inv in auto)
  have "handleStream se svr svc desc streamInt None r = Ret (rw_Write (encode True tb) (hs_w s1))"
    unfolding handleStream_def Let_def using assms(1-3)
    by (simp add: body [symmetric] s [symmetric] run inv tr [symmetric] out)
  moreover have "rw_status (rw_Write (encode True tb) (hs_w s1)) = Some 200"
    using eff by (intro rw_Write_sel) (auto simp: op_effect_def in_order_def)
  moreover have "rw_body (rw_Write (encode True tb) (hs_w s1)) = stream_body (sent_msgs ops) tr"
    using eff assms by (simp add: rw_Write_sel op_effect_def stream_body_def payload_of_def)
  moreover have "out_header (rw_Write (encode True tb) (hs_w s1)) =
      add_headers (h_set [] ''Content-Type'' (io_type sio)) (header_mds ops)"
    using eff by (simp add: rw_Write_sel op_effect_def s)
  ultimately show ?thesis by (intro that) simp_all
qed

end

end
