(* ===== verification/Http_Stream_Client.thy ===== *)
theory Http_Stream_Client
  imports Http_Client Http_Stream_Server
begin

text \<open>
  Streaming calls of the HTTP client: \<open>NewStream\<close>, \<open>clientStream\<close> and its goroutine
  \<open>doHttpCall\<close> of \<open>httpgrpc/client.go\<close>, as a step relation, and the choice of the formats in
  \<open>httpgrpc/protocol_versions.go\<close>.

  \<^item> \<open>doHttpCall\<close> has a position (\<open>hc_http\<close>); \<open>reply\<close> is what the round trip returns, and
    its body is what the transport will deliver. The deferred function holds \<open>rMu\<close> throughout,
    so leaving is one step. Where \<open>onReady\<close> reports a failure it is the same step; in the code
    \<open>Header\<close> may return it a moment before the call is marked as done.
  \<^item> \<open>rCh\<close> has no buffer: a message changes hands in one step, when \<open>doHttpCall\<close> is in its
    \<open>select\<close> and \<open>RecvMsg\<close> in one of its two.
  \<^item> \<open>RecvMsg\<close> has positions too, since its critical sections are separate. \<open>SendMsg\<close> runs
    beside it; its write blocks until the transport has read everything or the read end of the
    pipe is closed, after some number of bytes.
  \<^item> The context may end at any time; then \<open>context.AfterFunc\<close> closes the read end of the
    pipe from another goroutine.
\<close>

subsection \<open>Formats\<close>

text \<open>The request's headers and writer. The codec of the messages is that of the channel.\<close>

definition getHeadersAndWriterForClientStreamingRequest ::
    "md option \<Rightarrow> 64 word option \<Rightarrow> goerr \<Rightarrow> 'm channel_opts \<Rightarrow>
     header \<times> ('m wire_msg \<Rightarrow> bool \<Rightarrow> writer \<Rightarrow> (goerr option \<times> writer) go)" where
  "getHeadersAndWriterForClientStreamingRequest out_md time_left nil_err opts =
     (let h = headersFromContext out_md time_left
      in if codecName opts = jsonCodecName then
           (h_set (h_set h ''Content-Type'' ApplicationJson) ''Accept'' EventStreamContentType,
            newJSONWriter (marshal_msg nil_err (codec opts)))
         else
           (h_set (h_set h ''Content-Type'' StreamRpcContentType_V1) ''Accept'' StreamRpcContentType_V1,
            \<lambda>m t w. Ret (newSizePrefixedWriter (marshal_msg nil_err (codec opts)) m t w)))"

record 'm stream_in =
  si_read :: "reader \<Rightarrow> (goerr + stream_msg) \<times> reader"
  si_codec :: "'m wire_codec"

definition getClientStreamReader :: "'m http_env \<Rightarrow> string \<Rightarrow> 'm stream_in option go" where
  "getClientStreamReader env contentType =
     (let mediaType = parse_media env contentType
      in if mediaType = StreamRpcContentType_V1 then
           go_bind (registered env protoName) (\<lambda>cdc.
             Ret (Some \<lparr>si_read = newSizePrefixedReader, si_codec = cdc\<rparr>))
         else if mediaType = EventStreamContentType then
           go_bind (registered env jsonCodecName) (\<lambda>cdc.
             Ret (Some \<lparr>si_read = newSSEReader, si_codec = cdc\<rparr>))
         else Ret None)"

subsection \<open>The state\<close>

text \<open>\<open>io.Pipe\<close> behind the request's body.\<close>

record pipe =
  pp_data :: bytes
  pp_wclosed :: bool
  pp_rerr :: "goerr option"

definition ErrClosedPipe :: goerr where "ErrClosedPipe = OtherErr ''io: read/write on closed pipe''"

text \<open>\<open>PipeReader.CloseWithError\<close>: nil stands for \<open>io.ErrClosedPipe\<close>, and the first error
  stays.\<close>

definition close_read :: "goerr option \<Rightarrow> pipe \<Rightarrow> pipe" where
  "close_read err p =
     p\<lparr>pp_rerr := (case pp_rerr p of
                     Some e \<Rightarrow> Some e
                   | None \<Rightarrow> (case err of Some e \<Rightarrow> Some e | None \<Rightarrow> Some ErrClosedPipe))\<rparr>"

datatype 'm http_pos =
    HStart
  | HReply http_reply
  | HReading "'m stream_in" reader
  | HOffer "'m stream_in" stream_msg reader
  | HExited
  | HPanicked string

datatype 'm recv_pos =
    RIdle
  | RWait 'm
  | RMore 'm
  | RTooMany
  | RPanicked string

record ('m, 'p) http_cstream =
  hc_ctx :: "goerr option"
  hc_copts :: call_options
  hc_mem :: "'p call_mem"
  hc_respStream :: bool
  hc_ready :: int
  hc_hd :: "md option"
  hc_hdErr :: "goerr option"
  hc_done :: bool
  hc_rErr :: "goerr option"
  hc_tr :: http_trailer
  hc_rClosed :: bool
  hc_wErr :: "goerr option"
  hc_pipe :: pipe
  hc_http :: "'m http_pos"
  hc_recv :: "'m recv_pos"
  hc_send :: "'m option option"
  hc_results :: "(goerr + 'm) list"
  hc_sends :: "goerr option list"
  hc_took :: "stream_msg list"
  hc_sent :: "'m option list"

text \<open>\<open>hc_ready\<close> is the counter of the wait group. The last four fields are history: the results
  of \<open>RecvMsg\<close> and of \<open>SendMsg\<close>, the messages that have been handed over on \<open>rCh\<close>, and those
  whose write succeeded.\<close>

definition zero_trailer :: http_trailer where
  "zero_trailer = \<lparr>tr_Metadata = [], tr_Code = 0, tr_Message = '''', tr_Details = []\<rparr>"

definition newClientStream :: "bool \<Rightarrow> call_options \<Rightarrow> 'p call_mem \<Rightarrow> ('m, 'p) http_cstream" where
  "newClientStream recvStream copts mem =
     \<lparr>hc_ctx = None, hc_copts = copts, hc_mem = mem, hc_respStream = recvStream, hc_ready = 1,
      hc_hd = None, hc_hdErr = None, hc_done = False, hc_rErr = None, hc_tr = zero_trailer,
      hc_rClosed = False, hc_wErr = None,
      hc_pipe = \<lparr>pp_data = [], pp_wclosed = False, pp_rerr = None\<rparr>,
      hc_http = HStart, hc_recv = RIdle, hc_send = None,
      hc_results = [], hc_sends = [], hc_took = [], hc_sent = []\<rparr>"

text \<open>What stays fixed during a call.\<close>

record ('m, 'p) http_call =
  k_http :: "'m http_env"
  k_details :: "'m wire_codec"
  k_peer :: 'p
  k_writer :: "'m wire_msg \<Rightarrow> bool \<Rightarrow> writer \<Rightarrow> (goerr option \<times> writer) go"
  k_header :: header
  k_url :: string

definition http_NewStream ::
    "'m http_env \<Rightarrow> 'm invoke_env \<Rightarrow> goerr \<Rightarrow> 'p \<Rightarrow> 'm http_channel \<Rightarrow> md option \<Rightarrow> 64 word option \<Rightarrow>
     string \<Rightarrow> bool \<Rightarrow> call_option list \<Rightarrow> 'p call_mem \<Rightarrow> goerr + ('m, 'p) http_call \<times> ('m, 'p) http_cstream" where
  "http_NewStream env iv nil_err peer ch out_md time_left methodName serverStreams opts mem =
     (case channelOptions env ch of
        Inl err \<Rightarrow> Inl err
      | Inr chOpts \<Rightarrow>
          (let copts = GetCallOptions opts;
               url = iv_url iv (the (ch_BaseURL ch)) methodName
           in case ApplyPerRPCCreds (iv_md iv) out_md copts url (iv_secure iv) of
                Inl err \<Rightarrow> Inl err
              | Inr out_md \<Rightarrow>
                  (let (h, newStreamWriter) =
                     getHeadersAndWriterForClientStreamingRequest out_md time_left nil_err chOpts
                   in case new_request_err iv url of
                        Some err \<Rightarrow> Inl err
                      | None \<Rightarrow>
                          Inr (\<lparr>k_http = env, k_details = codec chOpts, k_peer = peer,
                                k_writer = newStreamWriter, k_header = h, k_url = url\<rparr>,
                               newClientStream serverStreams copts mem))))"

subsection \<open>doHttpCall\<close>

text \<open>\<open>onReady\<close>; \<open>WaitGroup.Done\<close> panics when the counter gets negative.\<close>

definition onReady :: "goerr option \<Rightarrow> md option \<Rightarrow> ('m, 'p) http_cstream \<Rightarrow> ('m, 'p) http_cstream" where
  "onReady err headers s =
     s\<lparr>hc_hdErr := err, hc_hd := headers,
       hc_mem := (if md_list headers \<noteq> [] \<and> Headers (hc_copts s) \<noteq> []
                  then SetHeaders (hc_copts s) (md_list headers) (hc_mem s) else hc_mem s),
       hc_ready := hc_ready s - 1\<rparr>"

text \<open>The deferred function, with the local \<open>rErr\<close>.\<close>

definition http_exit :: "goerr option \<Rightarrow> ('m, 'p) http_cstream \<Rightarrow> ('m, 'p) http_cstream" where
  "http_exit err s =
     s\<lparr>hc_rErr := (if err \<noteq> None \<and> hc_rErr s = None then err else hc_rErr s),
       hc_done := True, hc_rClosed := True, hc_pipe := close_read err (hc_pipe s), hc_http := HExited\<rparr>"

text \<open>The round trip, up to the first \<open>onReady\<close>.\<close>

definition http_roundtrip ::
    "('m, 'p) http_call \<Rightarrow> goerr + http_reply \<Rightarrow> ('m, 'p) http_cstream \<Rightarrow> ('m, 'p) http_cstream" where
  "http_roundtrip K reply s =
     (case reply of
        Inl e \<Rightarrow>
          (let err = Some (statusFromContextError e) in http_exit err (onReady err None s))
      | Inr rp \<Rightarrow>
          (let s1 = (if Peer (hc_copts s) \<noteq> []
                     then s\<lparr>hc_mem := SetPeer (hc_copts s) (k_peer K) (hc_mem s)\<rparr> else s)
           in case asMetadata (rp_Header rp) of
                Inl e \<Rightarrow> http_exit (Some e) (onReady (Some e) None s1)
              | Inr md \<Rightarrow> (onReady None (Some md) s1)\<lparr>hc_http := HReply rp\<rparr>))"

definition negative_counter :: string where "negative_counter = ''sync: negative WaitGroup counter''"

text \<open>The status line and headers, up to the loop. The deferred function runs when the second
  \<open>onReady\<close> panics, as well.\<close>

definition http_status ::
    "('m, 'p) http_call \<Rightarrow> http_reply \<Rightarrow> ('m, 'p) http_cstream \<Rightarrow> ('m, 'p) http_cstream" where
  "http_status K rp s =
     (case statFromResponse (env_api (k_http K)) (k_details K) rp of
        Some st \<Rightarrow>
          http_exit None
            (s\<lparr>hc_tr := (hc_tr s)\<lparr>tr_Code := code_num (api_codes (env_api (k_http K))) (st_code st),
                                  tr_Message := st_message st, tr_Details := st_details st\<rparr>\<rparr>)
      | None \<Rightarrow>
          (let mediaType = parse_media (k_http K) (h_get (rp_Header rp) ''Content-Type'')
           in case getClientStreamReader (k_http K) mediaType of
                Panic p \<Rightarrow> s\<lparr>hc_http := HPanicked p\<rparr>
              | Ret None \<Rightarrow>
                  (let err = Some (status_error Internal
                             (''unsupported media type: '' @ mediaType));
                       s1 = onReady err None s
                   in if hc_ready s1 < 0 then (http_exit err s1)\<lparr>hc_http := HPanicked negative_counter\<rparr>
                      else http_exit err s1)
              | Ret (Some si) \<Rightarrow> s\<lparr>hc_http := HReading si (rp_Body rp)\<rparr>))"

text \<open>One turn of the loop, up to the \<open>select\<close>.\<close>

definition http_read :: "'m stream_in \<Rightarrow> reader \<Rightarrow> ('m, 'p) http_cstream \<Rightarrow> ('m, 'p) http_cstream" where
  "http_read si r s =
     (case si_read si r of
        (Inl e, _) \<Rightarrow> http_exit (Some (if e = EOF then UnexpectedEOF else e)) s
      | (Inr msg, r1) \<Rightarrow>
          if sm_isTrailer msg then
            (let s1 = (case c_UnmarshalTrailer (si_codec si) (sm_data msg) of
                         Inl (e, tr) \<Rightarrow> s\<lparr>hc_rErr := Some (if e = EOF then UnexpectedEOF else e), hc_tr := tr\<rparr>
                       | Inr tr \<Rightarrow> s\<lparr>hc_rErr := None, hc_tr := tr\<rparr>)
             in http_exit None
                  (if tr_Metadata (hc_tr s1) \<noteq> [] \<and> Trailers (hc_copts s1) \<noteq> []
                   then s1\<lparr>hc_mem := SetTrailers (hc_copts s1) (metadataFromProto (tr_Metadata (hc_tr s1)))
                                       (hc_mem s1)\<rparr>
                   else s1))
          else s\<lparr>hc_http := HOffer si msg r1\<rparr>)"

subsection \<open>The caller's operations\<close>

definition hc_Header :: "('m, 'p) http_cstream \<Rightarrow> (md option \<times> goerr option) option" where
  "hc_Header s = (if hc_ready s > 0 then None else Some (hc_hd s, hc_hdErr s))"

definition hc_Trailer :: "('m, 'p) http_cstream \<Rightarrow> md option" where
  "hc_Trailer s = (if hc_done s then Some (metadataFromProto (tr_Metadata (hc_tr s))) else None)"

definition readErrorIfDone :: "('m, 'p) http_call \<Rightarrow> ('m, 'p) http_cstream \<Rightarrow> goerr option" where
  "readErrorIfDone K s =
     (let t = api_codes (env_api (k_http K)); tr = hc_tr s
      in if \<not> hc_done s then None
         else if hc_rErr s \<noteq> None then hc_rErr s
         else if tr_Code tr = code_num t OK then Some EOF
         else Some (StatusErr \<lparr>st_code = code_of_num t (tr_Code tr), st_message = tr_Message tr,
                              st_details = tr_Details tr\<rparr>))"

definition recv_return :: "goerr + 'm \<Rightarrow> ('m, 'p) http_cstream \<Rightarrow> ('m, 'p) http_cstream" where
  "recv_return x s = s\<lparr>hc_recv := RIdle, hc_results := hc_results s @ [x]\<rparr>"

definition invalid_msg_err :: "'m http_env \<Rightarrow> goerr \<Rightarrow> goerr" where
  "invalid_msg_err env e = status_error Internal (''server sent invalid message: '' @ Error_text (env_api env) e)"

text \<open>The first \<open>select\<close> has received a message.\<close>

definition recv_first ::
    "('m, 'p) http_call \<Rightarrow> 'm stream_in \<Rightarrow> stream_msg \<Rightarrow> 'm \<Rightarrow> ('m, 'p) http_cstream \<Rightarrow> ('m, 'p) http_cstream" where
  "recv_first K si msg m s =
     (case decode_msg (si_codec si) msg m of
        Inl e \<Rightarrow> recv_return (Inl (invalid_msg_err (k_http K) e)) s
      | Inr v \<Rightarrow> if hc_respStream s then recv_return (Inr v) s else s\<lparr>hc_recv := RMore v\<rparr>)"

definition not_done_panic :: string where
  "not_done_panic = ''cs.rCh was closed but cs.done == false!''"

text \<open>The first \<open>select\<close>, and the second, have found \<open>rCh\<close> closed.\<close>

definition recv_closed :: "('m, 'p) http_call \<Rightarrow> ('m, 'p) http_cstream \<Rightarrow> ('m, 'p) http_cstream" where
  "recv_closed K s =
     (case readErrorIfDone K s of
        None \<Rightarrow> s\<lparr>hc_recv := RPanicked not_done_panic\<rparr>
      | Some err \<Rightarrow> recv_return (Inl err) s)"

definition recv_last :: "('m, 'p) http_call \<Rightarrow> 'm \<Rightarrow> ('m, 'p) http_cstream \<Rightarrow> ('m, 'p) http_cstream" where
  "recv_last K v s =
     (case readErrorIfDone K s of
        None \<Rightarrow> s\<lparr>hc_recv := RPanicked not_done_panic\<rparr>
      | Some err \<Rightarrow> recv_return (if err \<noteq> EOF then Inl err else Inr v) s)"

definition too_many_responses_err :: goerr where
  "too_many_responses_err =
     status_error Internal ''method should return 1 response message but server sent >1''"

definition cancel_call :: "goerr \<Rightarrow> ('m, 'p) http_cstream \<Rightarrow> ('m, 'p) http_cstream" where
  "cancel_call e s = s\<lparr>hc_ctx := (case hc_ctx s of None \<Rightarrow> Some e | Some e' \<Rightarrow> Some e')\<rparr>"

text \<open>The second \<open>select\<close> has received another message.\<close>

definition recv_too_many :: "('m, 'p) http_cstream \<Rightarrow> ('m, 'p) http_cstream" where
  "recv_too_many s =
     (case hc_rErr s of
        None \<Rightarrow>
          recv_return (Inl too_many_responses_err)
            (cancel_call CtxCanceled (s\<lparr>hc_rErr := Some too_many_responses_err, hc_done := True\<rparr>))
      | Some err \<Rightarrow> recv_return (Inl err) s)"

text \<open>The write of \<open>SendMsg\<close>, when \<open>taken\<close> bytes have been read before the read end was closed.\<close>

definition pipe_room :: "nat \<Rightarrow> pipe \<Rightarrow> (nat \<times> goerr) option" where
  "pipe_room taken p =
     (if pp_wclosed p then Some (0, ErrClosedPipe)
      else (case pp_rerr p of None \<Rightarrow> None | Some e \<Rightarrow> Some (taken, e)))"

definition send_write ::
    "('m, 'p) http_call \<Rightarrow> nat \<Rightarrow> 'm option \<Rightarrow> ('m, 'p) http_cstream \<Rightarrow> ('m, 'p) http_cstream go" where
  "send_write K taken m s =
     go_bind (k_writer K (WMsg m) False \<lparr>wr_out = [], wr_room = pipe_room taken (hc_pipe s)\<rparr>)
       (\<lambda>(err, w). Ret (s\<lparr>hc_wErr := err, hc_send := None, hc_sends := hc_sends s @ [err],
          hc_sent := (if err = None then hc_sent s @ [m] else hc_sent s),
          hc_pipe := (hc_pipe s)\<lparr>pp_data := pp_data (hc_pipe s) @ wr_out w\<rparr>\<rparr>))"

definition hc_CloseSend :: "('m, 'p) http_cstream \<Rightarrow> ('m, 'p) http_cstream" where
  "hc_CloseSend s = s\<lparr>hc_pipe := (hc_pipe s)\<lparr>pp_wclosed := True\<rparr>\<rparr>"

subsection \<open>Steps\<close>

text \<open>The two goroutines meet on \<open>rCh\<close>.\<close>

inductive http_step ::
    "('m, 'p) http_call \<Rightarrow> goerr + http_reply \<Rightarrow> ('m, 'p) http_cstream \<Rightarrow> ('m, 'p) http_cstream \<Rightarrow> bool"
  for K reply where
  roundtrip: "hc_http s = HStart \<Longrightarrow> http_step K reply s (http_roundtrip K reply s)"
| status: "hc_http s = HReply rp \<Longrightarrow> http_step K reply s (http_status K rp s)"
| read: "hc_http s = HReading si r \<Longrightarrow> http_step K reply s (http_read si r s)"
| offer_ctx: "hc_http s = HOffer si msg r \<Longrightarrow> hc_ctx s = Some e \<Longrightarrow>
    http_step K reply s (http_exit (Some (statusFromContextError e)) s)"
| after_func: "hc_ctx s = Some e \<Longrightarrow> hc_http s \<noteq> HExited \<Longrightarrow>
    http_step K reply s (s\<lparr>hc_pipe := close_read (Some (statusFromContextError e)) (hc_pipe s)\<rparr>)"
| cancel: "e = CtxCanceled \<or> e = CtxDeadlineExceeded \<Longrightarrow> http_step K reply s (cancel_call e s)"
| recv_done: "hc_recv s = RIdle \<Longrightarrow> readErrorIfDone K s = Some err \<Longrightarrow>
    http_step K reply s (recv_return (Inl err) s)"
| recv_begin: "hc_recv s = RIdle \<Longrightarrow> readErrorIfDone K s = None \<Longrightarrow>
    http_step K reply s (s\<lparr>hc_recv := RWait m\<rparr>)"
| recv_ctx: "hc_recv s = RWait m \<or> hc_recv s = RMore m \<Longrightarrow> hc_ctx s = Some e \<Longrightarrow>
    http_step K reply s (recv_return (Inl (statusFromContextError e)) s)"
| meet: "hc_recv s = RWait m \<Longrightarrow> hc_http s = HOffer si msg r \<Longrightarrow>
    http_step K reply s
      (recv_first K si msg m (s\<lparr>hc_http := HReading si r, hc_took := hc_took s @ [msg]\<rparr>))"
| closed: "hc_recv s = RWait m \<Longrightarrow> hc_rClosed s \<Longrightarrow> http_step K reply s (recv_closed K s)"
| meet_again: "hc_recv s = RMore v \<Longrightarrow> hc_http s = HOffer si msg r \<Longrightarrow>
    http_step K reply s
      (s\<lparr>hc_http := HReading si r, hc_took := hc_took s @ [msg], hc_recv := RTooMany\<rparr>)"
| too_many: "hc_recv s = RTooMany \<Longrightarrow> http_step K reply s (recv_too_many s)"
| closed_again: "hc_recv s = RMore v \<Longrightarrow> hc_rClosed s \<Longrightarrow> http_step K reply s (recv_last K v s)"
| send_refused: "hc_send s = None \<Longrightarrow> readErrorIfDone K s \<noteq> None \<or> hc_wErr s \<noteq> None \<Longrightarrow>
    http_step K reply s (s\<lparr>hc_sends := hc_sends s @ [Some EOF]\<rparr>)"
| send_begin: "hc_send s = None \<Longrightarrow> readErrorIfDone K s = None \<Longrightarrow> hc_wErr s = None \<Longrightarrow>
    http_step K reply s (s\<lparr>hc_send := Some m\<rparr>)"
| send_end: "hc_send s = Some m \<Longrightarrow> send_write K taken m s = Ret s' \<Longrightarrow> http_step K reply s s'"
| close_send: "hc_send s = None \<Longrightarrow> http_step K reply s (hc_CloseSend s)"

inductive_cases http_stepE: "http_step K reply s s'"

definition http_reachable ::
    "('m, 'p) http_call \<Rightarrow> goerr + http_reply \<Rightarrow> ('m, 'p) http_cstream \<Rightarrow> ('m, 'p) http_cstream \<Rightarrow> bool" where
  "http_reachable K reply s0 s \<longleftrightarrow> (http_step K reply)\<^sup>*\<^sup>* s0 s"

text \<open>A goroutine has panicked, or the next action of \<open>SendMsg\<close> does.\<close>

definition http_panicked :: "('m, 'p) http_call \<Rightarrow> ('m, 'p) http_cstream \<Rightarrow> bool" where
  "http_panicked K s \<longleftrightarrow>
     (case hc_http s of HPanicked _ \<Rightarrow> True | _ \<Rightarrow> False) \<or>
     (case hc_recv s of RPanicked _ \<Rightarrow> True | _ \<Rightarrow> False) \<or>
     (case hc_send s of None \<Rightarrow> False | Some m \<Rightarrow> panics (send_write K 0 m s))"

end
