(* ===== verification/Http_Stream_Safety.thy ===== *)
theory Http_Stream_Safety
  imports Http_Stream_Client
begin

text \<open>
  Invariants of a streaming call of the HTTP client, by induction on the steps: what has been read
  of the reply's body, what \<open>RecvMsg\<close> has returned, and what the transport has read of the
  request's body.
\<close>

subsection \<open>Reading a body message by message\<close>

inductive reads_to ::
    "(reader \<Rightarrow> (goerr + stream_msg) \<times> reader) \<Rightarrow> reader \<Rightarrow> stream_msg list \<Rightarrow> reader \<Rightarrow> bool"
  for read r where
  start: "reads_to read r [] r"
| next_msg: "reads_to read r ms r1 \<Longrightarrow> read r1 = (Inr msg, r2) \<Longrightarrow> \<not> sm_isTrailer msg \<Longrightarrow>
    reads_to read r (ms @ [msg]) r2"

inductive_cases reads_to_NilE: "reads_to read r [] r1"
inductive_cases reads_to_snocE: "reads_to read r (ms @ [msg]) r1"

lemma reads_to_Nil_iff [simp]: "reads_to read r [] r1 \<longleftrightarrow> r1 = r"
  by (auto intro: reads_to.start elim: reads_to.cases)

lemma reads_to_snoc_iff [simp]:
  "reads_to read r (ms @ [msg]) r2 \<longleftrightarrow>
     (\<exists>r1. reads_to read r ms r1 \<and> read r1 = (Inr msg, r2) \<and> \<not> sm_isTrailer msg)"
  by (auto intro: reads_to.next_msg elim: reads_to.cases)

lemma reads_to_append:
  "reads_to read r (ms @ ns) r2 \<longleftrightarrow> (\<exists>r1. reads_to read r ms r1 \<and> reads_to read r1 ns r2)"
proof (induction ns arbitrary: r2 rule: rev_induct)
  case (snoc n ns)
  then show ?case by (simp add: append_assoc [symmetric] del: append_assoc) blast
qed simp

lemma reads_to_det: "reads_to read r ms r1 \<Longrightarrow> reads_to read r ms r2 \<Longrightarrow> r1 = r2"
proof (induction ms arbitrary: r1 r2 rule: rev_induct)
  case (snoc m ms)
  then show ?case by auto (metis prod.inject)
qed simp

text \<open>What has been read so far is a prefix of what comes before the trailer.\<close>

lemma reads_to_prefix:
  assumes "reads_to read r ms r1" and "reads_to read r ns r2"
    and "\<And>msg r3. read r1 = (Inr msg, r3) \<Longrightarrow> sm_isTrailer msg"
  obtains xs where "ms = ns @ xs" "reads_to read r2 xs r1"
proof -
  have "\<exists>xs. ms = ns @ xs"
    using assms(2)
  proof (induction ns arbitrary: r2 rule: rev_induct)
    case (snoc n ns)
    then obtain r3 where r3: "reads_to read r ns r3" "read r3 = (Inr n, r2)" "\<not> sm_isTrailer n" by auto
    with snoc.IH obtain xs where xs: "ms = ns @ xs" by blast
    show ?case
    proof (cases xs)
      case Nil
      with xs r3 assms(1) have "r3 = r1" by (auto intro: reads_to_det)
      with r3 assms(3) show ?thesis by blast
    next
      case (Cons x ys)
      with xs assms(1) have "reads_to read r ((ns @ [x]) @ ys) r1" by simp
      then obtain r4 where "reads_to read r (ns @ [x]) r4" unfolding reads_to_append by blast
      with r3 have "x = n" by (auto dest: reads_to_det [OF r3(1)])
      with xs Cons show ?thesis by simp
    qed
  qed simp
  then obtain xs where xs: "ms = ns @ xs" by blast
  with assms(1) obtain r3 where "reads_to read r ns r3" "reads_to read r3 xs r1"
    unfolding xs reads_to_append by blast
  with reads_to_det [OF assms(2)] xs show ?thesis by (intro that [of xs]) auto
qed

lemma reads_to_is_prefix:
  assumes "reads_to read r ms r1" and "reads_to read r ns r2"
    and "\<And>msg r3. read r1 = (Inr msg, r3) \<Longrightarrow> sm_isTrailer msg"
  shows "prefix ns ms"
proof -
  from assms obtain xs where "ms = ns @ xs" by (rule reads_to_prefix)
  then show ?thesis by simp
qed

subsection \<open>The reply\<close>

text \<open>The reply is a stream, read with \<open>si\<close>.\<close>

definition streaming :: "('m, 'p) http_call \<Rightarrow> goerr + http_reply \<Rightarrow> 'm stream_in \<Rightarrow> reader \<Rightarrow> bool" where
  "streaming K reply si body \<longleftrightarrow>
     (\<exists>rp. reply = Inr rp \<and> body = rp_Body rp \<and>
        statFromResponse (env_api (k_http K)) (k_details K) rp = None \<and>
        getClientStreamReader (k_http K)
          (parse_media (k_http K) (h_get (rp_Header rp) ''Content-Type'')) = Ret (Some si))"

lemma streaming_det: "streaming K reply si b \<Longrightarrow> streaming K reply si' b' \<Longrightarrow> si' = si \<and> b' = b"
  by (auto simp: streaming_def)

text \<open>Two ways to end without an error of the transport or the codec: a trailer, or a failure that
  the status line and headers report.\<close>

definition trailer_end ::
    "('m, 'p) http_call \<Rightarrow> goerr + http_reply \<Rightarrow> stream_msg list \<Rightarrow> http_trailer \<Rightarrow> bool" where
  "trailer_end K reply ms tr \<longleftrightarrow>
     (\<exists>si body r1 msg r2. streaming K reply si body \<and> reads_to (si_read si) body ms r1 \<and>
        si_read si r1 = (Inr msg, r2) \<and> sm_isTrailer msg \<and> c_UnmarshalTrailer (si_codec si) (sm_data msg) = Inr tr)"

definition status_end :: "('m, 'p) http_call \<Rightarrow> goerr + http_reply \<Rightarrow> http_trailer \<Rightarrow> bool" where
  "status_end K reply tr \<longleftrightarrow>
     (\<exists>rp st. reply = Inr rp \<and> statFromResponse (env_api (k_http K)) (k_details K) rp = Some st \<and>
        tr_Code tr = code_num (api_codes (env_api (k_http K))) (st_code st) \<and>
        tr_Message tr = st_message st \<and> tr_Details tr = st_details st)"

definition unsupported :: "('m, 'p) http_call \<Rightarrow> goerr + http_reply \<Rightarrow> bool" where
  "unsupported K reply \<longleftrightarrow>
     (\<exists>rp md. reply = Inr rp \<and> asMetadata (rp_Header rp) = Inr md \<and>
        statFromResponse (env_api (k_http K)) (k_details K) rp = None \<and>
        (\<nexists>si. getClientStreamReader (k_http K)
           (parse_media (k_http K) (h_get (rp_Header rp) ''Content-Type'')) = Ret (Some si)))"

subsection \<open>The goroutine\<close>

definition http_inv :: "('m, 'p) http_call \<Rightarrow> goerr + http_reply \<Rightarrow> ('m, 'p) http_cstream \<Rightarrow> bool" where
  "http_inv K reply s \<longleftrightarrow>
     (case hc_http s of
        HStart \<Rightarrow> hc_took s = [] \<and> hc_ready s = 1 \<and> \<not> hc_rClosed s
      | HReply rp \<Rightarrow> reply = Inr rp \<and> (\<exists>md. asMetadata (rp_Header rp) = Inr md) \<and> hc_took s = [] \<and>
          hc_ready s = 0 \<and> \<not> hc_rClosed s
      | HReading si r \<Rightarrow> hc_ready s = 0 \<and> \<not> hc_rClosed s \<and>
          (\<exists>body. streaming K reply si body \<and> reads_to (si_read si) body (hc_took s) r)
      | HOffer si msg r \<Rightarrow> hc_ready s = 0 \<and> \<not> hc_rClosed s \<and>
          (\<exists>body. streaming K reply si body \<and> reads_to (si_read si) body (hc_took s @ [msg]) r)
      | HExited \<Rightarrow> hc_ready s = 0 \<and> hc_rClosed s \<and>
          (hc_rErr s = None \<longrightarrow>
             trailer_end K reply (hc_took s) (hc_tr s) \<or> (status_end K reply (hc_tr s) \<and> hc_took s = []))
      | HPanicked p \<Rightarrow> unsupported K reply \<and> hc_took s = [] \<and> (hc_rErr s = None \<longrightarrow> \<not> hc_rClosed s)) \<and>
     (hc_rClosed s \<longrightarrow> hc_done s) \<and>
     (hc_done s \<and> \<not> hc_rClosed s \<longrightarrow> hc_rErr s \<noteq> None \<and> \<not> hc_respStream s \<and> hc_took s \<noteq> [])"

lemma http_inv_start: "http_inv K reply (newClientStream rs copts mem)"
  by (simp add: http_inv_def newClientStream_def)

text \<open>What leaves the invariant's fields alone keeps it.\<close>

lemma http_inv_frame:
  "http_inv K reply s \<Longrightarrow> hc_http s' = hc_http s \<Longrightarrow> hc_took s' = hc_took s \<Longrightarrow> hc_ready s' = hc_ready s \<Longrightarrow>
   hc_rClosed s' = hc_rClosed s \<Longrightarrow> hc_rErr s' = hc_rErr s \<Longrightarrow> hc_tr s' = hc_tr s \<Longrightarrow>
   hc_done s' = hc_done s \<Longrightarrow> hc_respStream s' = hc_respStream s \<Longrightarrow> http_inv K reply s'"
  by (cases "hc_http s") (auto simp: http_inv_def)

lemma recv_return_sel [simp]:
  "hc_http (recv_return x s) = hc_http s" "hc_took (recv_return x s) = hc_took s"
  "hc_ready (recv_return x s) = hc_ready s" "hc_rClosed (recv_return x s) = hc_rClosed s"
  "hc_rErr (recv_return x s) = hc_rErr s" "hc_tr (recv_return x s) = hc_tr s"
  "hc_done (recv_return x s) = hc_done s" "hc_respStream (recv_return x s) = hc_respStream s"
  "hc_recv (recv_return x s) = RIdle" "hc_results (recv_return x s) = hc_results s @ [x]"
  "hc_ctx (recv_return x s) = hc_ctx s" "hc_wErr (recv_return x s) = hc_wErr s"
  "hc_pipe (recv_return x s) = hc_pipe s" "hc_sent (recv_return x s) = hc_sent s"
  "hc_send (recv_return x s) = hc_send s"
  by (simp_all add: recv_return_def)

lemma cancel_call_sel [simp]:
  "hc_http (cancel_call e s) = hc_http s" "hc_took (cancel_call e s) = hc_took s"
  "hc_ready (cancel_call e s) = hc_ready s" "hc_rClosed (cancel_call e s) = hc_rClosed s"
  "hc_rErr (cancel_call e s) = hc_rErr s" "hc_tr (cancel_call e s) = hc_tr s"
  "hc_done (cancel_call e s) = hc_done s" "hc_respStream (cancel_call e s) = hc_respStream s"
  "hc_recv (cancel_call e s) = hc_recv s" "hc_results (cancel_call e s) = hc_results s"
  "hc_ctx (cancel_call e s) \<noteq> None" "hc_wErr (cancel_call e s) = hc_wErr s"
  "hc_pipe (cancel_call e s) = hc_pipe s" "hc_sent (cancel_call e s) = hc_sent s"
  "hc_send (cancel_call e s) = hc_send s"
  by (simp_all add: cancel_call_def split: option.splits)

lemma onReady_sel [simp]:
  "hc_http (onReady e h s) = hc_http s" "hc_took (onReady e h s) = hc_took s"
  "hc_ready (onReady e h s) = hc_ready s - 1" "hc_rClosed (onReady e h s) = hc_rClosed s"
  "hc_rErr (onReady e h s) = hc_rErr s" "hc_tr (onReady e h s) = hc_tr s"
  "hc_done (onReady e h s) = hc_done s" "hc_respStream (onReady e h s) = hc_respStream s"
  "hc_recv (onReady e h s) = hc_recv s" "hc_results (onReady e h s) = hc_results s"
  "hc_ctx (onReady e h s) = hc_ctx s" "hc_wErr (onReady e h s) = hc_wErr s"
  "hc_pipe (onReady e h s) = hc_pipe s" "hc_sent (onReady e h s) = hc_sent s"
  "hc_send (onReady e h s) = hc_send s" "hc_hd (onReady e h s) = h" "hc_hdErr (onReady e h s) = e"
  by (simp_all add: onReady_def)

lemma http_exit_sel [simp]:
  "hc_http (http_exit e s) = HExited" "hc_took (http_exit e s) = hc_took s"
  "hc_ready (http_exit e s) = hc_ready s" "hc_rClosed (http_exit e s)"
  "hc_rErr (http_exit e s) = (if e \<noteq> None \<and> hc_rErr s = None then e else hc_rErr s)"
  "hc_tr (http_exit e s) = hc_tr s"
  "hc_done (http_exit e s)" "hc_respStream (http_exit e s) = hc_respStream s"
  "hc_recv (http_exit e s) = hc_recv s" "hc_results (http_exit e s) = hc_results s"
  "hc_ctx (http_exit e s) = hc_ctx s" "hc_wErr (http_exit e s) = hc_wErr s"
  "hc_pipe (http_exit e s) = close_read e (hc_pipe s)" "hc_sent (http_exit e s) = hc_sent s"
  "hc_send (http_exit e s) = hc_send s" "hc_hd (http_exit e s) = hc_hd s" "hc_hdErr (http_exit e s) = hc_hdErr s"
  by (simp_all add: http_exit_def)

lemma http_inv_roundtrip:
  "http_inv K reply s \<Longrightarrow> hc_http s = HStart \<Longrightarrow> http_inv K reply (http_roundtrip K reply s)"
  by (auto simp: http_roundtrip_def http_inv_def Let_def split: sum.splits)

lemma http_inv_status:
  "http_inv K reply s \<Longrightarrow> hc_http s = HReply rp \<Longrightarrow> http_inv K reply (http_status K rp s)"
  by (auto simp: http_status_def http_inv_def Let_def streaming_def unsupported_def status_end_def
      split: option.splits go.splits)

lemma http_inv_read:
  assumes "http_inv K reply s" and "hc_http s = HReading si r"
  shows "http_inv K reply (http_read si r s)"
proof -
  obtain x r1 where x: "si_read si r = (x, r1)" by fastforce
  from assms obtain body where b: "streaming K reply si body" "reads_to (si_read si) body (hc_took s) r"
    by (auto simp: http_inv_def)
  show ?thesis
  proof (cases x)
    case (Inl e)
    with x assms show ?thesis by (auto simp: http_read_def http_inv_def)
  next
    case (Inr msg)
    show ?thesis
    proof (cases "sm_isTrailer msg")
      case False
      with Inr x assms b show ?thesis by (auto simp: http_read_def http_inv_def)
    next
      case True
      with Inr x b have "trailer_end K reply (hc_took s) tr"
        if "c_UnmarshalTrailer (si_codec si) (sm_data msg) = Inr tr" for tr
        using that unfolding trailer_end_def by blast
      with True Inr x assms show ?thesis
        by (auto simp: http_read_def http_inv_def Let_def split: sum.splits)
    qed
  qed
qed

lemma recv_first_sel [simp]:
  "hc_http (recv_first K si msg m s) = hc_http s" "hc_took (recv_first K si msg m s) = hc_took s"
  "hc_ready (recv_first K si msg m s) = hc_ready s" "hc_rClosed (recv_first K si msg m s) = hc_rClosed s"
  "hc_rErr (recv_first K si msg m s) = hc_rErr s" "hc_tr (recv_first K si msg m s) = hc_tr s"
  "hc_done (recv_first K si msg m s) = hc_done s" "hc_respStream (recv_first K si msg m s) = hc_respStream s"
  "hc_ctx (recv_first K si msg m s) = hc_ctx s" "hc_wErr (recv_first K si msg m s) = hc_wErr s"
  "hc_pipe (recv_first K si msg m s) = hc_pipe s" "hc_sent (recv_first K si msg m s) = hc_sent s"
  "hc_send (recv_first K si msg m s) = hc_send s"
  by (simp_all add: recv_first_def split: sum.splits)

lemma recv_closed_sel [simp]:
  "hc_http (recv_closed K s) = hc_http s" "hc_took (recv_closed K s) = hc_took s"
  "hc_ready (recv_closed K s) = hc_ready s" "hc_rClosed (recv_closed K s) = hc_rClosed s"
  "hc_rErr (recv_closed K s) = hc_rErr s" "hc_tr (recv_closed K s) = hc_tr s"
  "hc_done (recv_closed K s) = hc_done s" "hc_respStream (recv_closed K s) = hc_respStream s"
  "hc_ctx (recv_closed K s) = hc_ctx s" "hc_wErr (recv_closed K s) = hc_wErr s"
  "hc_pipe (recv_closed K s) = hc_pipe s" "hc_sent (recv_closed K s) = hc_sent s"
  "hc_send (recv_closed K s) = hc_send s"
  by (simp_all add: recv_closed_def split: option.splits)

lemma recv_last_sel [simp]:
  "hc_http (recv_last K v s) = hc_http s" "hc_took (recv_last K v s) = hc_took s"
  "hc_ready (recv_last K v s) = hc_ready s" "hc_rClosed (recv_last K v s) = hc_rClosed s"
  "hc_rErr (recv_last K v s) = hc_rErr s" "hc_tr (recv_last K v s) = hc_tr s"
  "hc_done (recv_last K v s) = hc_done s" "hc_respStream (recv_last K v s) = hc_respStream s"
  "hc_ctx (recv_last K v s) = hc_ctx s" "hc_wErr (recv_last K v s) = hc_wErr s"
  "hc_pipe (recv_last K v s) = hc_pipe s" "hc_sent (recv_last K v s) = hc_sent s"
  "hc_send (recv_last K v s) = hc_send s"
  by (simp_all add: recv_last_def split: option.splits)

lemma recv_too_many_sel [simp]:
  "hc_http (recv_too_many s) = hc_http s" "hc_took (recv_too_many s) = hc_took s"
  "hc_ready (recv_too_many s) = hc_ready s" "hc_rClosed (recv_too_many s) = hc_rClosed s"
  "hc_rErr (recv_too_many s) = (case hc_rErr s of None \<Rightarrow> Some too_many_responses_err | Some e \<Rightarrow> Some e)"
  "hc_tr (recv_too_many s) = hc_tr s" "hc_respStream (recv_too_many s) = hc_respStream s"
  "hc_recv (recv_too_many s) = RIdle" "hc_pipe (recv_too_many s) = hc_pipe s"
  "hc_sent (recv_too_many s) = hc_sent s" "hc_send (recv_too_many s) = hc_send s"
  "hc_wErr (recv_too_many s) = hc_wErr s"
  by (simp_all add: recv_too_many_def split: option.splits)

lemma send_write_sel:
  assumes "send_write K taken m s = Ret s'"
  shows "hc_http s' = hc_http s" "hc_took s' = hc_took s" "hc_ready s' = hc_ready s" "hc_rClosed s' = hc_rClosed s"
    "hc_rErr s' = hc_rErr s" "hc_tr s' = hc_tr s" "hc_done s' = hc_done s" "hc_respStream s' = hc_respStream s"
    "hc_recv s' = hc_recv s" "hc_results s' = hc_results s" "hc_ctx s' = hc_ctx s"
    "hc_hd s' = hc_hd s" "hc_hdErr s' = hc_hdErr s"
  using assms by (auto simp: send_write_def go_bind_Ret_iff)

subsection \<open>RecvMsg's positions\<close>

definition recv_inv :: "('m, 'p) http_cstream \<Rightarrow> bool" where
  "recv_inv s \<longleftrightarrow>
     (case hc_recv s of
        RIdle \<Rightarrow> True
      | RWait m \<Rightarrow> True
      | RMore v \<Rightarrow> \<not> hc_respStream s \<and> hc_took s \<noteq> []
      | RTooMany \<Rightarrow> \<not> hc_respStream s \<and> hc_took s \<noteq> []
      | RPanicked p \<Rightarrow> False)"

lemma recv_inv_frame:
  "recv_inv s \<Longrightarrow> hc_recv s' = hc_recv s \<Longrightarrow> hc_took s' = hc_took s \<Longrightarrow> hc_respStream s' = hc_respStream s \<Longrightarrow>
   recv_inv s'"
  by (cases "hc_recv s") (simp_all add: recv_inv_def)

lemma readErrorIfDone_None_iff: "readErrorIfDone K s = None \<longleftrightarrow> \<not> hc_done s"
  by (auto simp: readErrorIfDone_def Let_def)

lemma recv_inv_idle: "hc_recv s = RIdle \<Longrightarrow> recv_inv s"
  by (simp add: recv_inv_def)

lemma http_roundtrip_sel [simp]:
  "hc_recv (http_roundtrip K reply s) = hc_recv s" "hc_respStream (http_roundtrip K reply s) = hc_respStream s"
  "hc_took (http_roundtrip K reply s) = hc_took s" "hc_results (http_roundtrip K reply s) = hc_results s"
  "hc_ctx (http_roundtrip K reply s) = hc_ctx s" "hc_sent (http_roundtrip K reply s) = hc_sent s"
  "hc_send (http_roundtrip K reply s) = hc_send s" "hc_wErr (http_roundtrip K reply s) = hc_wErr s"
  by (simp_all add: http_roundtrip_def Let_def split: sum.splits)

lemma http_status_sel [simp]:
  "hc_recv (http_status K rp s) = hc_recv s" "hc_respStream (http_status K rp s) = hc_respStream s"
  "hc_took (http_status K rp s) = hc_took s" "hc_results (http_status K rp s) = hc_results s"
  "hc_ctx (http_status K rp s) = hc_ctx s" "hc_sent (http_status K rp s) = hc_sent s"
  "hc_send (http_status K rp s) = hc_send s" "hc_wErr (http_status K rp s) = hc_wErr s"
  by (simp_all add: http_status_def Let_def split: option.splits go.splits)

lemma http_read_sel [simp]:
  "hc_recv (http_read si r s) = hc_recv s" "hc_respStream (http_read si r s) = hc_respStream s"
  "hc_took (http_read si r s) = hc_took s" "hc_results (http_read si r s) = hc_results s"
  "hc_ctx (http_read si r s) = hc_ctx s" "hc_sent (http_read si r s) = hc_sent s"
  "hc_send (http_read si r s) = hc_send s" "hc_wErr (http_read si r s) = hc_wErr s"
  "hc_ready (http_read si r s) = hc_ready s" "hc_hd (http_read si r s) = hc_hd s"
  "hc_hdErr (http_read si r s) = hc_hdErr s"
  by (simp_all add: http_read_def Let_def split: sum.splits prod.splits)

lemma hc_CloseSend_sel [simp]:
  "hc_http (hc_CloseSend s) = hc_http s" "hc_took (hc_CloseSend s) = hc_took s"
  "hc_recv (hc_CloseSend s) = hc_recv s" "hc_respStream (hc_CloseSend s) = hc_respStream s"
  "hc_ready (hc_CloseSend s) = hc_ready s" "hc_rClosed (hc_CloseSend s) = hc_rClosed s"
  "hc_rErr (hc_CloseSend s) = hc_rErr s" "hc_tr (hc_CloseSend s) = hc_tr s" "hc_done (hc_CloseSend s) = hc_done s"
  "hc_results (hc_CloseSend s) = hc_results s" "hc_ctx (hc_CloseSend s) = hc_ctx s"
  "hc_sent (hc_CloseSend s) = hc_sent s" "hc_send (hc_CloseSend s) = hc_send s"
  "hc_wErr (hc_CloseSend s) = hc_wErr s"
  by (simp_all add: hc_CloseSend_def)

lemma recv_inv_step:
  assumes "http_step K reply s s'" and "http_inv K reply s" and "recv_inv s"
  shows "recv_inv s'"
  using assms(1)
proof cases
  case (recv_begin m)
  then show ?thesis by (simp add: recv_inv_def)
next
  case (meet m si msg r)
  then show ?thesis by (auto simp: recv_first_def recv_inv_def recv_return_def split: sum.splits)
next
  case (closed m)
  with assms(2) have "readErrorIfDone K s \<noteq> None" by (simp add: readErrorIfDone_None_iff http_inv_def)
  with closed show ?thesis by (auto simp: recv_closed_def recv_inv_def split: option.splits)
next
  case (meet_again v si msg r)
  with assms(3) show ?thesis by (simp add: recv_inv_def)
next
  case (closed_again v)
  with assms(2) have "readErrorIfDone K s \<noteq> None" by (simp add: readErrorIfDone_None_iff http_inv_def)
  with closed_again show ?thesis by (auto simp: recv_last_def recv_inv_def split: option.splits)
qed (auto intro: recv_inv_frame [OF assms(3)] recv_inv_idle simp: send_write_sel)

lemma http_inv_step:
  assumes "http_step K reply s s'" and "http_inv K reply s" and "recv_inv s"
  shows "http_inv K reply s'"
  using assms(1)
proof cases
  case roundtrip
  with assms(2) show ?thesis by (simp add: http_inv_roundtrip)
next
  case (status rp)
  with assms(2) show ?thesis by (simp add: http_inv_status)
next
  case (read si r)
  with assms(2) show ?thesis by (simp add: http_inv_read)
next
  case (offer_ctx si msg r e)
  with assms(2) show ?thesis by (auto simp: http_inv_def)
next
  case (meet m si msg r)
  with assms(2) show ?thesis by (auto simp: http_inv_def)
next
  case (meet_again v si msg r)
  with assms(2) show ?thesis by (auto simp: http_inv_def)
next
  case too_many
  with assms(3) have "\<not> hc_respStream s" "hc_took s \<noteq> []" by (auto simp: recv_inv_def)
  with too_many assms(2) show ?thesis
    by (cases "hc_http s") (auto simp: http_inv_def recv_too_many_def split: option.splits)
qed (auto intro: http_inv_frame [OF assms(2)] simp: send_write_sel)

subsection \<open>Errors\<close>

text \<open>\<open>io.EOF\<close> is never the stream's error, unless the round trip itself returned it.\<close>

definition ctx_ok :: "goerr option \<Rightarrow> bool" where
  "ctx_ok c \<longleftrightarrow> c = None \<or> c = Some CtxCanceled \<or> c = Some CtxDeadlineExceeded"

definition err_inv :: "goerr + http_reply \<Rightarrow> ('m, 'p) http_cstream \<Rightarrow> bool" where
  "err_inv reply s \<longleftrightarrow> ctx_ok (hc_ctx s) \<and> (hc_rErr s = Some EOF \<longrightarrow> reply = Inl EOF)"

lemma statusFromContextError_EOF [simp]: "statusFromContextError e = EOF \<longleftrightarrow> e = EOF" "EOF = statusFromContextError e \<longleftrightarrow> e = EOF"
  by (auto simp: translate_copies_agree translate_eq_EOF_iff [of e, symmetric] simp del: translate_eq_EOF_iff)

lemma status_error_not_EOF [simp]: "status_error c m \<noteq> EOF" "EOF \<noteq> status_error c m"
  by (simp_all add: status_error_def)

lemma asMetadata_values_not_EOF: "asMetadata_values k vs md \<noteq> Inl EOF"
  by (induction k vs md rule: asMetadata_values.induct) (auto split: option.splits)

lemma asMetadata_loop_not_EOF: "asMetadata_loop h md \<noteq> Inl EOF"
proof (induction h md rule: asMetadata_loop.induct)
  case (2 k vs h md)
  then show ?case using asMetadata_values_not_EOF [of "to_lower k" vs md] by (auto split: sum.splits)
qed simp

lemma asMetadata_not_EOF: "asMetadata h \<noteq> Inl EOF"
  by (simp add: asMetadata_def asMetadata_loop_not_EOF)

lemma ctx_ok_status: "ctx_ok (Some e) \<Longrightarrow> statusFromContextError e \<noteq> EOF"
  by (auto simp: ctx_ok_def)

lemma err_inv_frame:
  "err_inv reply s \<Longrightarrow> hc_ctx s' = hc_ctx s \<Longrightarrow> hc_rErr s' = hc_rErr s \<Longrightarrow> err_inv reply s'"
  by (simp add: err_inv_def)

lemma err_inv_step:
  assumes "http_step K reply s s'" and "err_inv reply s"
  shows "err_inv reply s'"
  using assms(1)
proof cases
  case roundtrip
  with assms(2) show ?thesis
    using asMetadata_not_EOF
    by (auto simp: http_roundtrip_def err_inv_def Let_def split: sum.splits)
next
  case (status rp)
  with assms(2) show ?thesis
    by (auto simp: http_status_def err_inv_def Let_def split: option.splits go.splits)
next
  case (read si r)
  with assms(2) show ?thesis
    by (auto simp: http_read_def err_inv_def Let_def split: sum.splits prod.splits)
next
  case (offer_ctx si msg r e)
  with assms(2) show ?thesis by (auto simp: err_inv_def dest: ctx_ok_status)
next
  case (cancel e)
  with assms(2) show ?thesis
    by (auto simp: err_inv_def ctx_ok_def cancel_call_def split: option.splits)
next
  case too_many
  with assms(2) show ?thesis
    by (auto simp: err_inv_def ctx_ok_def recv_too_many_def too_many_responses_err_def cancel_call_def
        recv_return_def split: option.splits)
qed (auto intro: err_inv_frame [OF assms(2)] simp: send_write_sel)

subsection \<open>The end of the stream\<close>

definition end_ok :: "('m, 'p) http_call \<Rightarrow> goerr + http_reply \<Rightarrow> stream_msg list \<Rightarrow> http_trailer \<Rightarrow> bool" where
  "end_ok K reply ms tr \<longleftrightarrow>
     tr_Code tr = code_num (api_codes (env_api (k_http K))) OK \<and>
     (trailer_end K reply ms tr \<or> (status_end K reply tr \<and> ms = []))"

lemma readErrorIfDone_EOF:
  assumes "http_inv K reply s" and "err_inv reply s" and "readErrorIfDone K s = Some EOF"
  shows "reply = Inl EOF \<or> (hc_rClosed s \<and> hc_http s = HExited \<and> end_ok K reply (hc_took s) (hc_tr s))"
proof (cases "hc_rErr s")
  case (Some e)
  with assms(2,3) show ?thesis by (auto simp: readErrorIfDone_def err_inv_def Let_def split: if_splits)
next
  case None
  with assms(3) have "hc_done s" and code: "tr_Code (hc_tr s) = code_num (api_codes (env_api (k_http K))) OK"
    by (auto simp: readErrorIfDone_def Let_def split: if_splits)
  with None assms(1) have "hc_rClosed s" by (auto simp: http_inv_def)
  with None assms(1) have "hc_http s = HExited" by (cases "hc_http s") (auto simp: http_inv_def)
  with None assms(1) code \<open>hc_rClosed s\<close> show ?thesis by (auto simp: http_inv_def end_ok_def)
qed

text \<open>Once the channel is closed, nothing is handed over any more.\<close>

lemma closed_stays:
  assumes "http_step K reply s s'" and "http_inv K reply s" and "hc_rClosed s"
  shows "hc_rClosed s' \<and> hc_took s' = hc_took s \<and> hc_tr s' = hc_tr s"
  using assms(1)
proof cases
  case (send_end m taken)
  with assms(3) show ?thesis by (simp add: send_write_sel)
qed (use assms(2,3) in \<open>auto simp: http_inv_def\<close>)

definition eof_inv :: "('m, 'p) http_call \<Rightarrow> goerr + http_reply \<Rightarrow> ('m, 'p) http_cstream \<Rightarrow> bool" where
  "eof_inv K reply s \<longleftrightarrow>
     (Inl EOF \<in> set (hc_results s) \<longrightarrow>
        reply = Inl EOF \<or> (hc_rClosed s \<and> end_ok K reply (hc_took s) (hc_tr s)))"

text \<open>What a step adds to the results.\<close>

lemma results_step:
  assumes "http_step K reply s s'"
  obtains (same) "hc_results s' = hc_results s"
  | (final) err where "hc_results s' = hc_results s @ [Inl err]" "readErrorIfDone K s = Some err" "hc_recv s' = RIdle"
      "hc_took s' = hc_took s" "hc_http s' = hc_http s" "hc_rErr s' = hc_rErr s"
  | (ctx) e where "hc_results s' = hc_results s @ [Inl (statusFromContextError e)]" "hc_ctx s = Some e"
  | (msg) m si msg r where "hc_recv s = RWait m" "hc_http s = HOffer si msg r" "hc_took s' = hc_took s @ [msg]"
      "hc_http s' = HReading si r" "hc_rErr s' = hc_rErr s"
      "case decode_msg (si_codec si) msg m of
         Inl e \<Rightarrow> hc_results s' = hc_results s @ [Inl (invalid_msg_err (k_http K) e)]
       | Inr v \<Rightarrow> hc_respStream s \<and> hc_results s' = hc_results s @ [Inr v]"
  | (single) v where "hc_recv s = RMore v" "hc_rClosed s" "readErrorIfDone K s = Some EOF"
      "hc_results s' = hc_results s @ [Inr v]"
  | (many) err where "hc_recv s = RTooMany"
      "hc_results s' = hc_results s @ [Inl err]" "err = too_many_responses_err \<or> hc_rErr s = Some err"
  using assms
proof cases
  case (recv_done err)
  then show ?thesis by (intro final) simp_all
next
  case (recv_ctx m e)
  then show ?thesis by (intro ctx) simp_all
next
  case (meet m si msg r)
  show ?thesis
  proof (cases "(\<exists>e. decode_msg (si_codec si) msg m = Inl e) \<or> hc_respStream s")
    case True
    with meet show ?thesis by (intro msg) (auto simp: recv_first_def recv_return_def split: sum.splits)
  next
    case False
    with meet show ?thesis by (intro same) (auto simp: recv_first_def split: sum.splits)
  qed
next
  case (closed m)
  then show ?thesis by (cases "readErrorIfDone K s") (auto simp: recv_closed_def intro: final same)
next
  case (closed_again v)
  show ?thesis
  proof (cases "readErrorIfDone K s")
    case None
    with closed_again show ?thesis by (intro same) (simp add: recv_last_def)
  next
    case (Some err)
    with closed_again show ?thesis
      by (cases "err = EOF") (auto simp: recv_last_def intro: single final)
  qed
next
  case too_many
  then show ?thesis
    by (cases "hc_rErr s") (auto simp: recv_too_many_def intro: many)
qed (auto intro!: same simp: send_write_sel)

lemma eof_inv_step:
  assumes step: "http_step K reply s s'" and inv: "http_inv K reply s" "err_inv reply s" "eof_inv K reply s"
  shows "eof_inv K reply s'"
proof -
  have old: "reply = Inl EOF \<or> (hc_rClosed s' \<and> end_ok K reply (hc_took s') (hc_tr s'))"
    if "Inl EOF \<in> set (hc_results s) \<or> readErrorIfDone K s = Some EOF"
    using that inv readErrorIfDone_EOF [OF inv(1,2)] closed_stays [OF step inv(1)]
    by (auto simp: eof_inv_def)
  from step show ?thesis
  proof (cases rule: results_step)
    case (ctx e)
    with inv(2) have "statusFromContextError e \<noteq> EOF" by (auto simp: err_inv_def dest: ctx_ok_status)
    with ctx old show ?thesis by (auto simp: eof_inv_def)
  next
    case (msg m si msg r)
    with old show ?thesis by (auto simp: eof_inv_def invalid_msg_err_def split: sum.splits)
  next
    case (many err)
    with inv(2) old show ?thesis by (auto simp: eof_inv_def err_inv_def too_many_responses_err_def)
  qed (use old in \<open>auto simp: eof_inv_def\<close>)
qed

subsection \<open>A single response\<close>

text \<open>Until the first result, the message that \<open>RecvMsg\<close> holds is the only one that has been handed
  over; and when the first result is a message, the stream had just that one, and ended well.\<close>

definition only_message :: "('m, 'p) http_call \<Rightarrow> goerr + http_reply \<Rightarrow> stream_msg list \<Rightarrow> 'm \<Rightarrow> bool" where
  "only_message K reply ms v \<longleftrightarrow>
     (\<exists>si body msg m. streaming K reply si body \<and> ms = [msg] \<and> decode_msg (si_codec si) msg m = Inr v)"

definition single_inv :: "('m, 'p) http_call \<Rightarrow> goerr + http_reply \<Rightarrow> ('m, 'p) http_cstream \<Rightarrow> bool" where
  "single_inv K reply s \<longleftrightarrow>
     (hc_results s = [] \<longrightarrow>
        (case hc_recv s of
           RMore v \<Rightarrow> only_message K reply (hc_took s) v
         | RTooMany \<Rightarrow> True
         | _ \<Rightarrow> hc_took s = [])) \<and>
     (\<forall>v rest. hc_results s = Inr v # rest \<longrightarrow>
        hc_rClosed s \<and> only_message K reply (hc_took s) v \<and> end_ok K reply (hc_took s) (hc_tr s))"

lemma single_inv_later:
  assumes "single_inv K reply s" and "hc_results s \<noteq> []" and "http_step K reply s s'" and "http_inv K reply s"
    and "hc_results s' = hc_results s @ xs"
  shows "single_inv K reply s'"
  using assms closed_stays [OF assms(3,4)]
  by (cases "hc_results s") (auto simp: single_inv_def)

lemma results_grow:
  assumes "http_step K reply s s'"
  shows "\<exists>xs. hc_results s' = hc_results s @ xs"
  using assms by (cases rule: results_step) (auto split: sum.splits)

lemma single_inv_step:
  assumes step: "http_step K reply s s'" and single: "\<not> hc_respStream s"
    and inv: "http_inv K reply s" "err_inv reply s" "recv_inv s" "single_inv K reply s"
  shows "single_inv K reply s'"
proof (cases "hc_results s = []")
  case False
  with results_grow [OF step] single_inv_later [OF inv(4) _ step inv(1)] show ?thesis by blast
next
  case True
  from step show ?thesis
  proof cases
    case (recv_begin m)
    with True inv(4) show ?thesis by (auto simp: single_inv_def)
  next
    case (meet m si msg r)
    with inv(1) obtain body where "streaming K reply si body" by (auto simp: http_inv_def)
    moreover have "hc_took s = []" using meet True inv(4) by (auto simp: single_inv_def)
    ultimately show ?thesis
      using meet True single
      by (auto simp: single_inv_def recv_first_def recv_return_def only_message_def split: sum.splits)
  next
    case (closed_again v)
    from closed_again inv(1) obtain err where err: "readErrorIfDone K s = Some err"
      by (cases "readErrorIfDone K s") (auto simp: readErrorIfDone_None_iff http_inv_def)
    show ?thesis
    proof (cases "err = EOF")
      case False
      with closed_again err True show ?thesis by (simp add: single_inv_def recv_last_def)
    next
      case eof: True
      have only: "only_message K reply (hc_took s) v"
        using closed_again True inv(4) by (auto simp: single_inv_def)
      then have "reply \<noteq> Inl EOF" by (auto simp: only_message_def streaming_def)
      with readErrorIfDone_EOF [OF inv(1,2)] err eof have "end_ok K reply (hc_took s) (hc_tr s)" by auto
      with closed_again err eof True only show ?thesis by (simp add: single_inv_def recv_last_def)
    qed
  next
    case (send_end m taken)
    with True inv(4) show ?thesis by (auto simp: single_inv_def send_write_sel split: recv_pos.splits)
  next
    case (closed m)
    with True inv(4) show ?thesis
      by (auto simp: single_inv_def recv_closed_def split: option.splits)
  next
    case too_many
    with True show ?thesis by (auto simp: single_inv_def recv_too_many_def split: option.splits)
  qed (use True inv(4) in \<open>auto simp: single_inv_def split: recv_pos.splits\<close>)
qed

subsection \<open>A stream of responses\<close>

text \<open>A reply whose body is complete: messages that decode, and a trailer.\<close>

definition complete_reply ::
    "('m, 'p) http_call \<Rightarrow> goerr + http_reply \<Rightarrow> (stream_msg \<Rightarrow> 'm) \<Rightarrow> stream_msg list \<Rightarrow> http_trailer \<Rightarrow> bool" where
  "complete_reply K reply val ms tr \<longleftrightarrow>
     (\<exists>si body r1 msg r2. streaming K reply si body \<and> reads_to (si_read si) body ms r1 \<and>
        si_read si r1 = (Inr msg, r2) \<and> sm_isTrailer msg \<and>
        c_UnmarshalTrailer (si_codec si) (sm_data msg) = Inr tr \<and>
        (\<forall>x \<in> set ms. \<forall>m. decode_msg (si_codec si) x m = Inr (val x))) \<and>
     (\<exists>rp md. reply = Inr rp \<and> asMetadata (rp_Header rp) = Inr md)"

text \<open>What \<open>RecvMsg\<close> returns at the end of the stream.\<close>

definition trailer_err :: "('m, 'p) http_call \<Rightarrow> http_trailer \<Rightarrow> goerr" where
  "trailer_err K tr =
     (let t = api_codes (env_api (k_http K))
      in if tr_Code tr = code_num t OK then EOF
         else StatusErr \<lparr>st_code = code_of_num t (tr_Code tr), st_message = tr_Message tr,
                        st_details = tr_Details tr\<rparr>)"

definition stream_inv ::
    "('m, 'p) http_call \<Rightarrow> (stream_msg \<Rightarrow> 'm) \<Rightarrow> stream_msg list \<Rightarrow> http_trailer \<Rightarrow> ('m, 'p) http_cstream \<Rightarrow> bool" where
  "stream_inv K val ms tr s \<longleftrightarrow>
     hc_rErr s = None \<and> prefix (hc_took s) ms \<and>
     (hc_rClosed s \<longrightarrow> hc_took s = ms \<and> hc_tr s = tr) \<and>
     (\<exists>j. hc_results s = map (Inr \<circ> val) (hc_took s) @ replicate j (Inl (trailer_err K tr)) \<and>
        (j > 0 \<longrightarrow> hc_rClosed s))"

lemma stream_inv_frame:
  "stream_inv K val ms tr s \<Longrightarrow> hc_rErr s' = hc_rErr s \<Longrightarrow> hc_took s' = hc_took s \<Longrightarrow>
   hc_rClosed s' = hc_rClosed s \<Longrightarrow> hc_tr s' = hc_tr s \<Longrightarrow> hc_results s' = hc_results s \<Longrightarrow>
   stream_inv K val ms tr s'"
  by (simp add: stream_inv_def)

lemma http_status_streaming:
  assumes "streaming K (Inr rp) si body"
  shows "http_status K rp s = s\<lparr>hc_http := HReading si (rp_Body rp)\<rparr>"
  using assms by (auto simp: streaming_def http_status_def)

lemma http_roundtrip_ok:
  assumes "asMetadata (rp_Header rp) = Inr md"
  shows "hc_http (http_roundtrip K (Inr rp) s) = HReply rp" "hc_rErr (http_roundtrip K (Inr rp) s) = hc_rErr s"
    "hc_rClosed (http_roundtrip K (Inr rp) s) = hc_rClosed s" "hc_tr (http_roundtrip K (Inr rp) s) = hc_tr s"
    "hc_hd (http_roundtrip K (Inr rp) s) = Some md" "hc_hdErr (http_roundtrip K (Inr rp) s) = None"
  using assms by (simp_all add: http_roundtrip_def)

lemma stream_inv_read:
  assumes complete: "complete_reply K reply val ms tr" and "hc_http s = HReading si r"
    and inv: "http_inv K reply s" "stream_inv K val ms tr s"
  shows "stream_inv K val ms tr (http_read si r s)"
proof -
  from complete obtain si' body r1 msg r2 where c: "streaming K reply si' body" "reads_to (si_read si') body ms r1"
      "si_read si' r1 = (Inr msg, r2)" "sm_isTrailer msg" "c_UnmarshalTrailer (si_codec si') (sm_data msg) = Inr tr"
    unfolding complete_reply_def by blast
  from inv(1) assms(2) obtain body' where b: "streaming K reply si body'"
      "reads_to (si_read si) body' (hc_took s) r" "\<not> hc_rClosed s" by (auto simp: http_inv_def)
  from streaming_det [OF b(1) c(1)] b have si: "si' = si" and r: "reads_to (si_read si) body (hc_took s) r" by auto
  from reads_to_prefix [OF c(2) [unfolded si] r] c(3,4) si obtain xs where
    xs: "ms = hc_took s @ xs" "reads_to (si_read si) r xs r1" by (metis Pair_inject sum.inject(2))
  show ?thesis
  proof (cases xs)
    case Nil
    with xs have "r1 = r" "ms = hc_took s" by auto
    with c si have "si_read si r = (Inr msg, r2)" by simp
    with c si inv(2) b(3) \<open>ms = hc_took s\<close> show ?thesis
      by (simp add: http_read_def stream_inv_def Let_def)
  next
    case (Cons x ys)
    with xs(2) have "reads_to (si_read si) r ([x] @ ys) r1" by simp
    then obtain r3 where "reads_to (si_read si) r ([] @ [x]) r3" unfolding reads_to_append by auto
    then have "si_read si r = (Inr x, r3)" "\<not> sm_isTrailer x" unfolding reads_to_snoc_iff by auto
    with inv(2) show ?thesis by (simp add: http_read_def stream_inv_def)
  qed
qed

text \<open>The message on offer is the next one.\<close>

lemma offered_message:
  assumes complete: "complete_reply K reply val ms tr" and "hc_http s = HOffer si msg r"
    and inv: "http_inv K reply s"
  shows "prefix (hc_took s @ [msg]) ms"
    and "decode_msg (si_codec si) msg m = Inr (val msg)"
proof -
  from complete obtain si' body r1 end_msg r2 where c: "streaming K reply si' body" "reads_to (si_read si') body ms r1"
      "si_read si' r1 = (Inr end_msg, r2)" "sm_isTrailer end_msg"
      "\<forall>x \<in> set ms. \<forall>m. decode_msg (si_codec si') x m = Inr (val x)"
    unfolding complete_reply_def by blast
  from inv assms(2) obtain body' where b: "streaming K reply si body'"
      "reads_to (si_read si) body' (hc_took s @ [msg]) r" by (auto simp: http_inv_def)
  from streaming_det [OF b(1) c(1)] have si: "si' = si" "body' = body" by simp_all
  show "prefix (hc_took s @ [msg]) ms"
    using c(2-4) b(2) unfolding si by (intro reads_to_is_prefix) auto
  then have "msg \<in> set ms" by (auto simp: prefix_def)
  with c(5) si show "decode_msg (si_codec si) msg m = Inr (val msg)" by simp
qed

definition no_single :: "('m, 'p) http_cstream \<Rightarrow> bool" where
  "no_single s \<longleftrightarrow> hc_respStream s \<and> (case hc_recv s of RMore _ \<Rightarrow> False | RTooMany \<Rightarrow> False | _ \<Rightarrow> True)"

lemma recv_inv_stream: "recv_inv s \<Longrightarrow> hc_respStream s \<Longrightarrow> no_single s"
  by (auto simp: recv_inv_def no_single_def split: recv_pos.splits)

lemma trailer_err_eq:
  "hc_done s \<Longrightarrow> hc_rErr s = None \<Longrightarrow> hc_tr s = tr \<Longrightarrow> readErrorIfDone K s = Some (trailer_err K tr)"
  by (simp add: readErrorIfDone_def trailer_err_def Let_def)

text \<open>A result at the end of the stream.\<close>

lemma stream_inv_final:
  assumes "stream_inv K val ms tr s" and "http_inv K reply s" and "hc_respStream s"
    and "readErrorIfDone K s = Some err"
  shows "stream_inv K val ms tr (recv_return (Inl err) s)"
proof -
  have "hc_done s" using assms(4) by (auto simp: readErrorIfDone_def Let_def split: if_splits)
  with assms(1-3) have closed: "hc_rClosed s" "hc_rErr s = None" "hc_tr s = tr"
    by (auto simp: http_inv_def stream_inv_def)
  with trailer_err_eq [OF \<open>hc_done s\<close>] assms(4) have err: "err = trailer_err K tr" by simp
  from assms(1) obtain j where "hc_results s = map (Inr \<circ> val) (hc_took s) @ replicate j (Inl (trailer_err K tr))"
    by (auto simp: stream_inv_def)
  then have "hc_results (recv_return (Inl err) s) =
      map (Inr \<circ> val) (hc_took s) @ replicate (Suc j) (Inl (trailer_err K tr))"
    by (simp add: err replicate_append_same)
  moreover have "stream_inv K val ms tr s \<and> hc_rClosed s" using assms(1) closed by simp
  ultimately show ?thesis unfolding stream_inv_def by (metis recv_return_sel(2,4,5,6))
qed

lemma stream_inv_step:
  assumes step: "http_step K reply s s'" and complete: "complete_reply K reply val ms tr"
    and inv: "http_inv K reply s" "recv_inv s" "stream_inv K val ms tr s"
    and "hc_respStream s" and ctx: "hc_ctx s' = None"
  shows "stream_inv K val ms tr s'"
proof -
  note single = recv_inv_stream [OF inv(2) assms(6)]
  from complete obtain rp md where rp: "reply = Inr rp" "asMetadata (rp_Header rp) = Inr md"
    unfolding complete_reply_def by blast
  from complete obtain si0 body0 where str: "streaming K (Inr rp) si0 body0"
    unfolding complete_reply_def rp(1) by blast
  from step show ?thesis
  proof cases
    case roundtrip
    with inv(3) rp show ?thesis by (simp add: stream_inv_def http_roundtrip_ok)
  next
    case (status rp')
    with inv(1) rp have "rp' = rp" by (auto simp: http_inv_def)
    with status http_status_streaming [OF str] inv(3) show ?thesis by (simp add: stream_inv_def)
  next
    case (read si r)
    with stream_inv_read [OF complete _ inv(1,3)] show ?thesis by simp
  next
    case (meet m si msg r)
    note o = offered_message [OF complete meet(3) inv(1)]
    have "hc_results s = map (Inr \<circ> val) (hc_took s)" "\<not> hc_rClosed s"
      using inv(1,3) meet(3) by (auto simp: stream_inv_def http_inv_def)
    with meet o inv(3) assms(6) show ?thesis
      by (simp add: stream_inv_def recv_first_def recv_return_def)
  next
    case (recv_done err)
    with stream_inv_final [OF inv(3,1) assms(6)] show ?thesis by simp
  next
    case (closed m)
    with inv(1) obtain err where "readErrorIfDone K s = Some err"
      by (cases "readErrorIfDone K s") (auto simp: readErrorIfDone_None_iff http_inv_def)
    with closed stream_inv_final [OF inv(3,1) assms(6)] show ?thesis by (simp add: recv_closed_def)
  next
    case (send_end m taken)
    with inv(3) show ?thesis by (simp add: stream_inv_def send_write_sel)
  qed (use single ctx inv(3) in \<open>auto simp: no_single_def intro: stream_inv_frame\<close>)
qed

subsection \<open>The request's body\<close>

text \<open>As long as no write has failed, the transport has read exactly the messages sent.\<close>

definition request_inv :: "(bytes \<Rightarrow> bytes) \<Rightarrow> ('m option \<Rightarrow> bytes) \<Rightarrow> ('m, 'p) http_cstream \<Rightarrow> bool" where
  "request_inv enc payload s \<longleftrightarrow>
     (hc_wErr s = None \<longrightarrow> pp_data (hc_pipe s) = concat (map (\<lambda>m. enc (payload m)) (hc_sent s))) \<and>
     (hc_send s \<noteq> None \<longrightarrow> hc_wErr s = None)"

text \<open>What the writer writes when it succeeds.\<close>

definition writes_as ::
    "('m wire_msg \<Rightarrow> bool \<Rightarrow> writer \<Rightarrow> (goerr option \<times> writer) go) \<Rightarrow> (bytes \<Rightarrow> bytes) \<Rightarrow> ('m option \<Rightarrow> bytes) \<Rightarrow> bool" where
  "writes_as put enc payload \<longleftrightarrow>
     (\<forall>m room w. put (WMsg m) False \<lparr>wr_out = [], wr_room = room\<rparr> = Ret (None, w) \<longrightarrow> wr_out w = enc (payload m))"

lemma close_read_data [simp]: "pp_data (close_read e p) = pp_data p"
  by (simp add: close_read_def)

lemma http_pipe_sel [simp]:
  "pp_data (hc_pipe (http_roundtrip K reply s)) = pp_data (hc_pipe s)"
  "pp_data (hc_pipe (http_status K rp s)) = pp_data (hc_pipe s)"
  "pp_data (hc_pipe (http_read si r s)) = pp_data (hc_pipe s)"
  "pp_data (hc_pipe (hc_CloseSend s)) = pp_data (hc_pipe s)"
  by (simp_all add: http_roundtrip_def http_status_def http_read_def hc_CloseSend_def Let_def
      split: sum.splits option.splits go.splits prod.splits)

lemma request_inv_step:
  assumes "http_step K reply s s'" and "writes_as (k_writer K) enc payload" and "request_inv enc payload s"
  shows "request_inv enc payload s'"
  using assms(1)
proof cases
  case (send_end m taken)
  then obtain err w where w: "k_writer K (WMsg m) False \<lparr>wr_out = [], wr_room = pipe_room taken (hc_pipe s)\<rparr> = Ret (err, w)"
    "s' = s\<lparr>hc_wErr := err, hc_send := None, hc_sends := hc_sends s @ [err],
          hc_sent := (if err = None then hc_sent s @ [m] else hc_sent s),
          hc_pipe := (hc_pipe s)\<lparr>pp_data := pp_data (hc_pipe s) @ wr_out w\<rparr>\<rparr>"
    by (auto simp: send_write_def go_bind_Ret_iff)
  with send_end assms(2,3) show ?thesis by (auto simp: request_inv_def writes_as_def)
qed (use assms(3) in \<open>auto simp: request_inv_def\<close>)

end
