(* ===== verification/Http_Stream_Exchange.thy ===== *)
theory Http_Stream_Exchange
  imports Http_Stream_View Http_Stream_Safety
begin

text \<open>
  The two sides of a streaming call over HTTP put together: the format as one contract, extending
  that of a framing and that of a writer; the request's headers as the server gets them; and the
  response of \<open>handleStream\<close> as the client reads it.
\<close>

subsection \<open>Formats\<close>

locale stream_format = framing encode decode ok + stream_writer encode ok marshal put
  for encode :: "bool \<Rightarrow> bytes \<Rightarrow> bytes" and decode :: "reader \<Rightarrow> (goerr + stream_msg) \<times> reader"
    and ok :: "bool \<Rightarrow> bytes \<Rightarrow> bool" and marshal :: "'m wire_msg \<Rightarrow> goerr + bytes"
    and put :: "'m wire_msg \<Rightarrow> bool \<Rightarrow> writer \<Rightarrow> goerr option \<times> writer"

interpretation sp_format: stream_format sp_encode newSizePrefixedReader sp_ok marshal
    "newSizePrefixedWriter marshal" for marshal :: "'m wire_msg \<Rightarrow> goerr + bytes"
  by unfold_locales

interpretation sse_format: stream_format sse_encode newSSEReader sse_ok marshal
    "newSSEWriter marshal None" for marshal :: "'m wire_msg \<Rightarrow> goerr + bytes"
  by unfold_locales

lemma reads_to_Cons_iff:
  "reads_to read r (m # ms) r2 \<longleftrightarrow>
     (\<exists>r1. read r = (Inr m, r1) \<and> \<not> sm_isTrailer m \<and> reads_to read r1 ms r2)"
proof -
  have "reads_to read r ([] @ [m]) r1 \<longleftrightarrow> read r = (Inr m, r1) \<and> \<not> sm_isTrailer m" for r1
    unfolding reads_to_snoc_iff by simp
  with reads_to_append [of read r "[m]" ms r2] show ?thesis by auto
qed

definition wire_of :: "('m wire_msg \<Rightarrow> goerr + bytes) \<Rightarrow> 'm \<Rightarrow> stream_msg" where
  "wire_of marshal m = \<lparr>sm_data = payload_of marshal (WMsg (Some m)), sm_isTrailer = False\<rparr>"

context stream_format
begin

lemma reads_to_messages:
  assumes "\<forall>m \<in> set ms. ok False (payload_of marshal (WMsg (Some m)))"
  shows "reads_to decode (rd (encode_msgs ms @ rest) e) (map (wire_of marshal) ms) (rd rest e)"
  using assms by (induction ms) (auto simp: reads_to_Cons_iff wire_of_def decode_encode)

lemma reads_stream_body:
  assumes "\<forall>m \<in> set ms. ok False (payload_of marshal (WMsg (Some m)))"
    and "ok True (payload_of marshal (WTrailer tr))"
  shows "\<exists>r1. reads_to decode (rd (stream_body ms tr) e) (map (wire_of marshal) ms) r1 \<and>
    decode r1 = (Inr \<lparr>sm_data = payload_of marshal (WTrailer tr), sm_isTrailer = True\<rparr>, rd [] e)"
  using reads_to_messages [OF assms(1), of "encode True (payload_of marshal (WTrailer tr))" e]
    decode_encode [OF assms(2), of "[]" e]
  by (auto simp: stream_body_def)

end

subsection \<open>The request\<close>

definition stream_type :: "'m channel_opts \<Rightarrow> string" where
  "stream_type opts = (if codecName opts = jsonCodecName then ApplicationJson else StreamRpcContentType_V1)"

definition stream_accept :: "'m channel_opts \<Rightarrow> string" where
  "stream_accept opts =
     (if codecName opts = jsonCodecName then EventStreamContentType else StreamRpcContentType_V1)"

lemma stream_headers_eq:
  "fst (getHeadersAndWriterForClientStreamingRequest out_md t nil_err opts) =
     with_own (headersFromContext out_md t)
       [(''Content-Type'', stream_type opts), (''Accept'', stream_accept opts)]"
  by (simp add: getHeadersAndWriterForClientStreamingRequest_def stream_type_def stream_accept_def
      with_own_def Let_def)

lemma accept_name [simp]:
  "to_lower ''Accept'' = ''accept''" "field_name ''Accept''" "\<not> has_suffix ''accept'' bin_suffix"
  by (code_simp)+

lemma own_fields_stream:
  "own_fields [(''Content-Type'', stream_type opts), (''Accept'', stream_accept opts)]"
  by (simp add: own_fields_def stream_type_def stream_accept_def)

text \<open>The key \<open>accept\<close> of the client's metadata is lost: the program sets that header itself.\<close>

lemma stream_request_context:
  assumes "valid_md md" and "''grpc-timeout'' \<notin> fst ` set md" and "''accept'' \<notin> fst ` set md"
    and "carried (fst (getHeadersAndWriterForClientStreamingRequest (Some md) t nil_err opts)) recv"
  obtains ctx where "contextFromHeaders recv = Inr ctx"
    "\<And>k. mget md k \<noteq> [] \<Longrightarrow> mget (sc_md ctx) k = mget md k"
    "sc_timeout ctx = map_option (\<lambda>d. word_of_int (timeout_millis d) * 1000000) t"
    "h_get recv ''Content-Type'' = stream_type opts"
proof (rule request_context [where ct = "stream_type opts", OF assms(1,2) own_fields_stream [of opts]])
  have "\<forall>k \<in> fst ` set md. k \<notin> set reservedHeaders" using valid_md_key(3) [OF assms(1)] by blast
  then show "set (map (to_lower \<circ> fst) [(''Content-Type'', stream_type opts), (''Accept'', stream_accept opts)]) \<inter>
      fst ` set md = {}"
    using assms(3) by (auto simp: reservedHeaders_def)
  show "stream_type opts \<noteq> []" by (simp add: stream_type_def content_types)
  have "canonical_key ''Accept'' \<noteq> canonical_key ''Content-Type''" by (rule canonical_key_neq) simp
  then show "h_get (with_own h [(''Content-Type'', stream_type opts), (''Accept'', stream_accept opts)])
      ''Content-Type'' = stream_type opts" for h
    by (simp add: with_own_def h_get_def mget_h_set)
qed (use assms(4) that in \<open>auto simp: stream_headers_eq\<close>)

subsection \<open>The response\<close>

text \<open>Headers that a handler may set: those that HTTP can carry, and not the one that would be taken
  for the status of a failed call.\<close>

definition stream_mds :: "md list \<Rightarrow> bool" where
  "stream_mds mds \<longleftrightarrow> (\<forall>md \<in> set mds. valid_md md \<and> ''x-grpc-status'' \<notin> fst ` set md)"

lemma add_headers_sendable:
  assumes "stream_mds mds" and "sendable h" and "decodable h"
  shows "sendable (add_headers h mds) \<and> decodable (add_headers h mds)"
  using assms
proof (induction mds arbitrary: h)
  case (Cons md mds)
  have "sendable (toHeaders md h '''')" "decodable (toHeaders md h '''')"
    using Cons.prems by (auto simp: stream_mds_def intro!: sendable_toHeaders decodable_toHeaders)
  moreover have "stream_mds mds" using Cons.prems by (simp add: stream_mds_def)
  ultimately show ?case using Cons.IH by simp
qed simp

lemma mget_add_headers:
  assumes "stream_mds mds" and "field_name k" and "to_lower k = k"
  shows "mget (add_headers h mds) (canonical_key k) =
    mget h (canonical_key k) @ map (wire_value k) (concat (map (\<lambda>md. mget md k) mds))"
  using assms
proof (induction mds arbitrary: h)
  case (Cons md mds)
  then have "valid_md md" by (simp add: stream_mds_def)
  from mget_toHeaders_valid [OF this _ assms(2,3), of "''''" h] Cons show ?case
    by (simp add: stream_mds_def)
qed simp

lemma mget_md_joined:
  assumes "\<forall>md \<in> set mds. distinct (map fst md)"
  shows "mget (md_joined mds) k = concat (map (\<lambda>md. mget md k) mds)"
proof -
  have "mget (foldl mjoin m mds) k = mget m k @ concat (map (\<lambda>md. mget md k) mds)" for m
    using assms by (induction mds arbitrary: m) (auto simp: mget_mjoin)
  then show ?thesis by (simp add: md_joined_def)
qed

text \<open>What the client finds in the header of a stream's response.\<close>

lemma stream_response_header:
  assumes mds: "stream_mds mds" and ct: "field_value ct" "ct \<noteq> []"
    and recv: "carried (add_headers (h_set [] ''Content-Type'' ct) mds) (rp_Header rp)"
    and status: "rp_StatusCode rp = 200"
  shows "sendable (add_headers (h_set [] ''Content-Type'' ct) mds)"
    and "\<exists>md. asMetadata (rp_Header rp) = Inr md \<and>
      (\<forall>k. mget (md_joined mds) k \<noteq> [] \<longrightarrow> mget md k = mget (md_joined mds) k)"
    and "h_get (rp_Header rp) ''Content-Type'' = ct"
    and "statFromResponse api cdc rp = None"
proof -
  let ?h = "add_headers (h_set [] ''Content-Type'' ct) mds"
  have "sendable (h_set [] ''Content-Type'' ct)" "decodable (h_set [] ''Content-Type'' ct)"
    using ct(1) by auto
  from add_headers_sendable [OF mds this] have dec: "decodable ?h" and "sendable ?h" by simp_all
  then show "sendable ?h" by simp
  have distinct: "\<forall>md \<in> set mds. distinct (map fst md)"
    using mds by (auto simp: stream_mds_def valid_md_def)
  have get: "mget ?h (canonical_key k) =
      (if k = ''content-type'' then [ct] else map (wire_value k) (mget (md_joined mds) k))"
    if k: "field_name k" "to_lower k = k" for k
  proof -
    have "mget md ''content-type'' = []" if "md \<in> set mds" for md
    proof -
      have "valid_md md" using mds that by (simp add: stream_mds_def)
      then have "''content-type'' \<notin> fst ` set md" by (force simp: valid_md_def reservedHeaders_def)
      then show ?thesis by (rule mget_notin)
    qed
    then have "concat (map (\<lambda>md. mget md ''content-type'') mds) = []" by simp
    moreover have "canonical_key k = canonical_key ''Content-Type'' \<longleftrightarrow> k = ''content-type''"
      using k canonical_key_eq_iff [of k "''Content-Type''"] own_field_names(2)
      by (simp add: field_name_def)
    ultimately show ?thesis
      unfolding mget_add_headers [OF mds k] mget_md_joined [OF distinct]
      by (auto simp: mget_h_set)
  qed
  from carried_asMetadata [OF recv dec] obtain md where md: "asMetadata (rp_Header rp) = Inr md"
    "\<And>k. field_name k \<Longrightarrow> \<not> foreign k \<or> canonical_key k \<in> fst ` set ?h \<Longrightarrow>
      read_values (to_lower k) (mget ?h (canonical_key k)) = Some (mget md (to_lower k))" by metis
  have "mget md k = mget (md_joined mds) k" if k: "mget (md_joined mds) k \<noteq> []" for k
  proof -
    have "concat (map (\<lambda>md. mget md k) mds) \<noteq> []" using k mget_md_joined [OF distinct] by simp
    then obtain d where d: "d \<in> set mds" "mget d k \<noteq> []" by auto
    have "valid_md d" using mds d(1) by (simp add: stream_mds_def)
    moreover have "k \<in> fst ` set d" using d(2) mget_notin [of k d] by blast
    ultimately have "field_name k" "to_lower k = k" "k \<noteq> ''content-type''"
      using valid_md_key [of d k] by (auto simp: reservedHeaders_def)
    with received_values [where p = "''''" and k = k and rmd = md, OF md(2)] get [of k] k show ?thesis by simp
  qed
  with md(1) show "\<exists>md. asMetadata (rp_Header rp) = Inr md \<and>
      (\<forall>k. mget (md_joined mds) k \<noteq> [] \<longrightarrow> mget md k = mget (md_joined mds) k)" by blast
  have lower: "canonical_key ''Content-Type'' = canonical_key ''content-type''"
    "canonical_key ''X-GRPC-Status'' = canonical_key ''x-grpc-status''" by code_simp+
  have names: "field_name ''content-type''" "field_name ''x-grpc-status''"
    "to_lower ''content-type'' = ''content-type''" "to_lower ''x-grpc-status'' = ''x-grpc-status''" by code_simp+
  have "mget ?h (canonical_key ''Content-Type'') = [ct]" unfolding lower using get names by simp
  moreover from this have "canonical_key ''Content-Type'' \<in> fst ` set ?h" using mget_notin by fastforce
  ultimately show "h_get (rp_Header rp) ''Content-Type'' = ct"
    using carried_mget [OF recv] by (simp add: h_get_def)
  have "mget d ''x-grpc-status'' = []" if "d \<in> set mds" for d
    using mds that by (intro mget_notin) (simp add: stream_mds_def)
  then have "mget ?h (canonical_key ''X-GRPC-Status'') = []"
    unfolding lower using get [OF names(2,4)] mget_md_joined [OF distinct] by simp
  moreover have "\<not> foreign (canonical_key ''X-GRPC-Status'')" by (simp add: foreign_def has_prefix_def)
  ultimately have "h_get (rp_Header rp) ''X-GRPC-Status'' = []"
    using carried_mget [OF recv] by (simp add: h_get_def)
  with status show "statFromResponse api cdc rp = None"
    by (simp add: statFromResponse_def codeFromHttpStatus_def)
qed

end
