(* ===== verification/Http_Stream_Delivery.thy ===== *)
theory Http_Stream_Delivery
  imports Http_Stream_Safety
begin

text \<open>
  The invariants of \<open>Http_Stream_Safety\<close> on all reachable states of a call, what its results say,
  and that a call can always go on to its end.
\<close>

subsection \<open>Reachable states\<close>

lemma respStream_step: "http_step K reply s s' \<Longrightarrow> hc_respStream s' = hc_respStream s"
  by (erule http_step.cases) (auto simp: send_write_sel)

definition call_inv :: "('m, 'p) http_call \<Rightarrow> goerr + http_reply \<Rightarrow> ('m, 'p) http_cstream \<Rightarrow> bool" where
  "call_inv K reply s \<longleftrightarrow>
     http_inv K reply s \<and> recv_inv s \<and> err_inv reply s \<and> eof_inv K reply s \<and>
     (\<not> hc_respStream s \<longrightarrow> single_inv K reply s)"

lemma call_inv_start: "call_inv K reply (newClientStream rs copts mem)"
  by (simp add: call_inv_def http_inv_start)
    (simp add: newClientStream_def recv_inv_def err_inv_def ctx_ok_def eof_inv_def single_inv_def)

lemma call_inv_step:
  assumes "http_step K reply s s'" and "call_inv K reply s"
  shows "call_inv K reply s'"
  using assms respStream_step [OF assms(1)] http_inv_step [OF assms(1)] recv_inv_step [OF assms(1)]
    err_inv_step [OF assms(1)] eof_inv_step [OF assms(1)] single_inv_step [OF assms(1)]
  unfolding call_inv_def by blast

lemma call_inv_reachable:
  assumes "http_reachable K reply (newClientStream rs copts mem) s"
  shows "call_inv K reply s \<and> hc_respStream s = rs"
  using assms unfolding http_reachable_def
proof (induction rule: rtranclp_induct)
  case base
  have "hc_respStream (newClientStream rs copts mem) = rs" by (simp add: newClientStream_def)
  then show ?case by (simp add: call_inv_start)
next
  case (step s s')
  then show ?case using call_inv_step respStream_step by metis
qed

text \<open>A context that is done stays done.\<close>

lemma ctx_step: "http_step K reply s s' \<Longrightarrow> hc_ctx s' = None \<Longrightarrow> hc_ctx s = None"
  by (erule http_step.cases)
    (auto simp: send_write_sel recv_too_many_def split: option.splits)

text \<open>The header of a supported reply.\<close>

definition head_inv :: "md \<Rightarrow> ('m, 'p) http_cstream \<Rightarrow> bool" where
  "head_inv md s \<longleftrightarrow> (hc_ready s \<le> 0 \<longrightarrow> hc_hd s = Some md \<and> hc_hdErr s = None)"

lemma http_hd_sel [simp]:
  "hc_hd (recv_return x s) = hc_hd s" "hc_hdErr (recv_return x s) = hc_hdErr s"
  "hc_hd (cancel_call e s) = hc_hd s" "hc_hdErr (cancel_call e s) = hc_hdErr s"
  "hc_hd (recv_first K si msg m s) = hc_hd s" "hc_hdErr (recv_first K si msg m s) = hc_hdErr s"
  "hc_hd (recv_closed K s) = hc_hd s" "hc_hdErr (recv_closed K s) = hc_hdErr s"
  "hc_hd (recv_last K v s) = hc_hd s" "hc_hdErr (recv_last K v s) = hc_hdErr s"
  "hc_hd (recv_too_many s) = hc_hd s" "hc_hdErr (recv_too_many s) = hc_hdErr s"
  "hc_hd (hc_CloseSend s) = hc_hd s" "hc_hdErr (hc_CloseSend s) = hc_hdErr s"
  by (simp_all add: recv_return_def cancel_call_def recv_first_def recv_closed_def recv_last_def
      recv_too_many_def hc_CloseSend_def split: sum.splits option.splits)

lemma head_inv_step:
  assumes "http_step K reply s s'" and "head_inv md s" and "http_inv K reply s"
    and "reply = Inr rp" and "asMetadata (rp_Header rp) = Inr md" and "streaming K reply si body"
  shows "head_inv md s'"
  using assms(1)
proof cases
  case roundtrip
  with assms(4,5) show ?thesis by (simp add: head_inv_def http_roundtrip_ok)
next
  case (status rp')
  with assms(3,4) have "rp' = rp" by (auto simp: http_inv_def)
  with status http_status_streaming [OF assms(6) [unfolded assms(4)]] assms(2) show ?thesis
    by (simp add: head_inv_def)
next
  case (send_end m taken)
  with assms(2) show ?thesis by (simp add: head_inv_def send_write_sel)
qed (use assms(2) in \<open>simp_all add: head_inv_def\<close>)

subsection \<open>Results of a stream\<close>

lemma stream_reachable:
  assumes reach: "http_reachable K reply (newClientStream True copts mem) s"
    and complete: "complete_reply K reply val ms tr"
    and rp: "reply = Inr rp" "asMetadata (rp_Header rp) = Inr md"
  shows "(hc_ctx s = None \<longrightarrow> stream_inv K val ms tr s) \<and> head_inv md s"
  using reach unfolding http_reachable_def
proof (induction rule: rtranclp_induct)
  case base
  then show ?case by (simp add: newClientStream_def stream_inv_def head_inv_def)
next
  case (step s s')
  have "call_inv K reply s \<and> hc_respStream s = True"
    using step.hyps(1) by (intro call_inv_reachable) (simp add: http_reachable_def)
  then have inv: "http_inv K reply s" "recv_inv s" "hc_respStream s" by (simp_all add: call_inv_def)
  obtain si body where "streaming K reply si body" using complete unfolding complete_reply_def by blast
  with step head_inv_step [OF step.hyps(2) _ inv(1) rp] have "head_inv md s'" by blast
  moreover have "stream_inv K val ms tr s'" if "hc_ctx s' = None"
    using stream_inv_step [OF step.hyps(2) complete inv(1,2) _ inv(3) that] step.IH
      ctx_step [OF step.hyps(2) that] by blast
  ultimately show ?case by blast
qed

text \<open>The results, the trailer and the header, read off the invariants.\<close>

lemma stream_results:
  assumes reach: "http_reachable K reply (newClientStream True copts mem) s"
    and complete: "complete_reply K reply val ms tr" and ctx: "hc_ctx s = None"
    and rp: "reply = Inr rp" "asMetadata (rp_Header rp) = Inr md"
  obtains k j where "hc_results s = map (Inr \<circ> val) (take k ms) @ replicate j (Inl (trailer_err K tr))"
    "0 < j \<Longrightarrow> k = length ms \<and> hc_Trailer s = Some (metadataFromProto (tr_Metadata tr))"
    "hc_Header s \<noteq> None \<Longrightarrow> hc_Header s = Some (Some md, None)"
proof -
  note inv = stream_reachable [OF reach complete rp]
  have "http_inv K reply s" using call_inv_reachable [OF reach] by (simp add: call_inv_def)
  then have closed: "hc_rClosed s \<Longrightarrow> hc_done s" by (simp add: http_inv_def)
  from inv ctx have s: "prefix (hc_took s) ms" "hc_rClosed s \<longrightarrow> hc_took s = ms \<and> hc_tr s = tr"
    by (auto simp: stream_inv_def)
  from inv ctx obtain j where j: "hc_results s = map (Inr \<circ> val) (hc_took s) @ replicate j (Inl (trailer_err K tr))"
    "0 < j \<longrightarrow> hc_rClosed s" by (auto simp: stream_inv_def)
  have took: "hc_took s = take (length (hc_took s)) ms" using s(1) by (auto simp: prefix_def)
  show ?thesis
  proof (rule that [of "length (hc_took s)" j])
    show "hc_results s = map (Inr \<circ> val) (take (length (hc_took s)) ms) @ replicate j (Inl (trailer_err K tr))"
      using j(1) took by simp
    show "0 < j \<Longrightarrow> length (hc_took s) = length ms \<and> hc_Trailer s = Some (metadataFromProto (tr_Metadata tr))"
      using j(2) s(2) closed by (simp add: hc_Trailer_def)
    show "hc_Header s \<noteq> None \<Longrightarrow> hc_Header s = Some (Some md, None)"
      using inv by (auto simp: head_inv_def hc_Header_def split: if_splits)
  qed
qed

subsection \<open>Going on\<close>

definition can_go :: "('m, 'p) http_call \<Rightarrow> goerr + http_reply \<Rightarrow> ('m, 'p) http_cstream \<Rightarrow> (('m, 'p) http_cstream \<Rightarrow> bool) \<Rightarrow> bool" where
  "can_go K reply s P \<longleftrightarrow> (\<exists>s'. http_reachable K reply s s' \<and> P s')"

lemma can_go_here: "P s \<Longrightarrow> can_go K reply s P"
  by (auto simp: can_go_def http_reachable_def)

lemma can_go_step: "http_step K reply s s' \<Longrightarrow> can_go K reply s' P \<Longrightarrow> can_go K reply s P"
  unfolding can_go_def http_reachable_def by (blast intro: converse_rtranclp_into_rtranclp)

text \<open>What the steps below keep.\<close>

definition running ::
    "('m, 'p) http_call \<Rightarrow> goerr + http_reply \<Rightarrow> (stream_msg \<Rightarrow> 'm) \<Rightarrow> stream_msg list \<Rightarrow> http_trailer \<Rightarrow>
     ('m, 'p) http_cstream \<Rightarrow> bool" where
  "running K reply val ms tr s \<longleftrightarrow>
     call_inv K reply s \<and> hc_respStream s \<and> hc_ctx s = None \<and> stream_inv K val ms tr s"

lemma running_step:
  assumes "http_step K reply s s'" and "complete_reply K reply val ms tr"
    and "running K reply val ms tr s" and "hc_ctx s' = None"
  shows "running K reply val ms tr s'"
  using assms call_inv_step [OF assms(1)] respStream_step [OF assms(1)]
    stream_inv_step [OF assms(1,2) _ _ _ _ assms(4)]
  by (auto simp: running_def call_inv_def)

definition finished :: "('m, 'p) http_call \<Rightarrow> http_trailer \<Rightarrow> ('m, 'p) http_cstream \<Rightarrow> bool" where
  "finished K tr s \<longleftrightarrow> hc_ctx s = None \<and> hc_results s \<noteq> [] \<and> last (hc_results s) = Inl (trailer_err K tr)"

lemma exited_finishes:
  assumes "complete_reply K reply val ms tr" and "running K reply val ms tr s" and "hc_http s = HExited"
  shows "can_go K reply s (finished K tr)"
proof -
  have s: "hc_rClosed s" "hc_done s" "hc_rErr s = None" "hc_tr s = tr" "hc_ctx s = None" "no_single s"
    using assms(2,3) recv_inv_stream [of s]
    by (auto simp: running_def call_inv_def http_inv_def stream_inv_def)
  note err = trailer_err_eq [OF s(2-4), of K]
  show ?thesis
  proof (cases "hc_recv s")
    case RIdle
    from can_go_step [OF recv_done [OF RIdle err]] s(5) show ?thesis
      by (simp add: can_go_here finished_def)
  next
    case (RWait m)
    from can_go_step [OF closed [OF RWait s(1)]] s(5) err show ?thesis
      by (simp add: can_go_here finished_def recv_closed_def)
  qed (use s(6) recv_inv_stream [of s] assms(2) in
    \<open>auto simp: no_single_def running_def call_inv_def recv_inv_def\<close>)
qed

text \<open>From the top of the loop: either the trailer is next, or a message is, which \<open>RecvMsg\<close> takes.\<close>

lemma reading_finishes:
  assumes complete: "complete_reply K reply val ms tr" and "running K reply val ms tr s"
    and "hc_http s = HReading si r \<or> hc_http s = HOffer si msg r"
  shows "can_go K reply s (finished K tr)"
  using assms(2,3)
proof (induction "2 * (length ms - length (hc_took s)) + (case hc_http s of HReading _ _ \<Rightarrow> 1 | _ \<Rightarrow> 0)"
    arbitrary: s si msg r rule: less_induct)
  case less
  note run = less.prems(1)
  have inv: "http_inv K reply s" "recv_inv s" "hc_ctx s = None" "stream_inv K val ms tr s" "hc_respStream s"
    using run by (simp_all add: running_def call_inv_def)
  from less.prems(2) show ?case
  proof
    assume pos: "hc_http s = HReading si r"
    let ?s = "http_read si r s"
    have ctx: "hc_ctx ?s = None" using inv(3) by simp
    have run': "running K reply val ms tr ?s" by (rule running_step [OF read [OF pos] complete run ctx])
    have "can_go K reply ?s (finished K tr)"
    proof (cases "\<exists>msg r1. hc_http ?s = HOffer si msg r1")
      case True
      then obtain msg r1 where "hc_http ?s = HOffer si msg r1" by blast
      with less.hyps [of ?s si r1 msg] run' pos show ?thesis by simp
    next
      case False
      then have "hc_http ?s = HExited"
        by (auto simp: http_read_def Let_def split: prod.splits sum.splits if_splits)
      with exited_finishes [OF complete run'] show ?thesis by simp
    qed
    then show ?case by (rule can_go_step [OF read [OF pos]])
  next
    assume pos: "hc_http s = HOffer si msg r"
    have not_done: "\<not> hc_done s" using inv(1,5) pos by (auto simp: http_inv_def)
    have wait: "can_go K reply s1 (finished K tr)"
      if s1: "running K reply val ms tr s1" "hc_http s1 = HOffer si msg r" "hc_recv s1 = RWait m"
        "hc_took s1 = hc_took s" for s1 m
    proof -
      let ?s = "recv_first K si msg m (s1\<lparr>hc_http := HReading si r, hc_took := hc_took s1 @ [msg]\<rparr>)"
      have "hc_ctx ?s = None" using s1(1) by (simp add: running_def)
      from running_step [OF meet [OF s1(3,2)] complete s1(1) this]
      have run': "running K reply val ms tr ?s" .
      then have "prefix (hc_took s @ [msg]) ms" using s1(4) by (simp add: running_def stream_inv_def)
      then have "length (hc_took s) < length ms" using prefix_length_le by fastforce
      then have "can_go K reply ?s (finished K tr)"
        using less.hyps [of ?s si r msg] run' s1(4) pos by simp
      then show ?thesis by (rule can_go_step [OF meet [OF s1(3,2)]])
    qed
    show ?case
    proof (cases "hc_recv s")
      case RIdle
      have "readErrorIfDone K s = None" using not_done by (simp add: readErrorIfDone_None_iff)
      note step = recv_begin [OF RIdle this, of reply undefined]
      have "running K reply val ms tr (s\<lparr>hc_recv := RWait undefined\<rparr>)"
        by (rule running_step [OF step complete run]) (use inv(3) in simp)
      from wait [OF this] pos have "can_go K reply (s\<lparr>hc_recv := RWait undefined\<rparr>) (finished K tr)" by simp
      then show ?thesis by (rule can_go_step [OF step])
    next
      case (RWait m)
      with wait [OF run pos] show ?thesis by simp
    qed (use inv(2,5) in \<open>auto simp: recv_inv_def\<close>)
  qed
qed

lemma stream_finishes:
  assumes complete: "complete_reply K reply val ms tr" and run: "running K reply val ms tr s"
  shows "can_go K reply s (finished K tr)"
proof -
  from complete obtain rp md where rp: "reply = Inr rp" "asMetadata (rp_Header rp) = Inr md"
    unfolding complete_reply_def by blast
  from complete obtain si body where str: "streaming K (Inr rp) si body"
    unfolding complete_reply_def rp(1) by blast
  have replied: "can_go K reply s (finished K tr)"
    if "hc_http s = HReply rp'" "running K reply val ms tr s" for s rp'
  proof -
    have "rp' = rp" using that rp by (auto simp: running_def call_inv_def http_inv_def)
    with that have pos: "hc_http s = HReply rp" by simp
    have "hc_ctx (http_status K rp s) = None" using that(2) by (simp add: running_def)
    from running_step [OF status [OF pos] complete that(2) this]
    have "can_go K reply (http_status K rp s) (finished K tr)"
      using reading_finishes [OF complete] http_status_streaming [OF str] by simp
    then show ?thesis by (rule can_go_step [OF status [OF pos]])
  qed
  show ?thesis
  proof (cases "hc_http s")
    case HStart
    have "hc_ctx (http_roundtrip K reply s) = None" using run by (simp add: running_def)
    from running_step [OF roundtrip [OF HStart] complete run this]
    have "can_go K reply (http_roundtrip K reply s) (finished K tr)"
      using rp http_roundtrip_ok(1) [OF rp(2)] by (intro replied) simp_all
    then show ?thesis by (rule can_go_step [OF roundtrip [OF HStart]])
  next
    case (HPanicked p)
    with run complete show ?thesis
      by (auto simp: running_def call_inv_def http_inv_def unsupported_def complete_reply_def streaming_def)
  qed (use replied run exited_finishes [OF complete] reading_finishes [OF complete] in blast)+
qed

end
