(* ===== verification/Http_Properties.thy ===== *)
theory Http_Properties
  imports Http_Exchange
begin

text \<open>
  The properties of unary calls over HTTP, over the definitions of \<open>Http_Client\<close>,
  \<open>Http_Server\<close>, \<open>Http_Metadata\<close> and \<open>Http_Codes\<close>, with a concrete service for the witnesses.
\<close>

subsection \<open>A call, put together\<close>

definition good_handler :: "'m http_env \<Rightarrow> 'm wire_codec \<Rightarrow> sts_call list \<times> (goerr + 'm) \<Rightarrow> bool" where
  "good_handler env cdc res \<longleftrightarrow> valid_calls (fst res) \<and>
     (case snd res of
        Inl err \<Rightarrow>
          (let st = error_status (env_api env) err
           in status_text (st_message st) \<and> wire_code (api_codes (env_api env)) (st_code st))
      | Inr m \<Rightarrow> (case c_Marshal cdc m of Inl _ \<Rightarrow> False | Inr _ \<Rightarrow> True))"

definition message_codec :: "'m wire_codec \<Rightarrow> bool" where
  "message_codec cdc \<longleftrightarrow> (\<forall>m b out. c_Marshal cdc m = Inr b \<longrightarrow> c_Unmarshal cdc b out = Inr m)"

text \<open>\<open>mime.ParseMediaType\<close> on the two content types without parameters.\<close>

definition media_types :: "'m http_env \<Rightarrow> bool" where
  "media_types env \<longleftrightarrow> parse_media env ApplicationJson = ApplicationJson \<and>
     parse_media env UnaryRpcContentType_V1 = UnaryRpcContentType_V1"

lemma server_codec:
  assumes "media_types env" and "codecName opts = protoName \<or> codecName opts = jsonCodecName"
  shows "getCodecForServerUnaryResponse env
      (unary_type opts) = GetCodecV2 env (codecName opts)"
proof -
  have "ApplicationJson \<noteq> UnaryRpcContentType_V1" "protoName \<noteq> jsonCodecName" by code_simp+
  with assms show ?thesis
    by (auto simp: getCodecForServerUnaryResponse_def media_types_def unary_type_def Let_def)
qed

lemma SetHeaders_none: "Headers co = [] \<Longrightarrow> SetHeaders co h mem = mem"
  by (simp add: SetHeaders_def)

lemma SetTrailers_none: "Trailers co = [] \<Longrightarrow> SetTrailers co h mem = mem"
  by (simp add: SetTrailers_def)

lemma SetPeer_none: "Peer co = [] \<Longrightarrow> SetPeer co p mem = mem"
  by (simp add: SetPeer_def)

text \<open>No outgoing metadata and empty metadata are the same to the transport.\<close>

definition outgoing :: "md option \<Rightarrow> md" where
  "outgoing out = (case out of None \<Rightarrow> [] | Some md \<Rightarrow> md)"

lemma outgoing_headers:
  "getHeadersForClientUnaryRequest out t opts = getHeadersForClientUnaryRequest (Some (outgoing out)) t opts"
  by (simp add: getHeadersForClientUnaryRequest_def headersFromContext_eq outgoing_def split: option.splits)

lemma Invoke_reply:
  fixes iv :: "'m invoke_env" and mem :: "'p call_mem"
  assumes "channelOptions env ch = Inr opts"
    and "ApplyPerRPCCreds (iv_md iv) out_md (GetCallOptions copts) url (iv_secure iv) = Inr out"
    and "c_Marshal (codec opts) req = Inr b" and "new_request_err iv url = None"
    and "transport \<lparr>oq_URL = url, oq_Header = getHeadersForClientUnaryRequest out t opts,
        oq_Body = b\<rparr> = Inr reply"
    and "\<And>(co :: call_options) (mem :: 'p call_mem). setMetadata (rp_Header reply) co mem =
        Inr (SetTrailers co tlr (SetHeaders co hdr mem))"
    and "url = iv_url iv (the (ch_BaseURL ch)) name"
  shows "Invoke env iv transport peer ch out_md t None name req resp copts mem =
    (let co = GetCallOptions copts in
     (case statFromResponse (env_api env) (codec opts) reply of
        Some st \<Rightarrow> Inl (StatusErr st)
      | None \<Rightarrow>
          if rd_end (rp_Body reply) \<noteq> EOF then Inl (rd_end (rp_Body reply))
          else c_Unmarshal (codec opts) (rd_bytes (rp_Body reply)) resp,
      SetTrailers co tlr (SetHeaders co hdr (SetPeer co (peer ()) mem))))"
  using assms
  by (auto simp: Invoke_def Let_def SetHeaders_none SetTrailers_none SetPeer_none split: option.splits)

lemma request_transported:
  assumes "serves transport srv" and "sendable (oq_Header oq)"
  obtains r reply where "request_carried oq r" "transport oq = Inr reply"
    "sendable (rw_sent (final_response (srv r))) \<Longrightarrow> reply_carried (srv r) reply"
  using assms unfolding serves_def by blast

text \<open>What the client finds in the reply for each outcome of the handler.\<close>

definition received_outcome :: "'m http_env \<Rightarrow> 'm wire_codec \<Rightarrow> goerr + 'm \<Rightarrow> http_reply \<Rightarrow> bool" where
  "received_outcome env cdc outcome reply \<longleftrightarrow>
     (case outcome of
        Inl err \<Rightarrow> statFromResponse (env_api env) cdc reply =
          Some (delivered_status cdc (error_status (env_api env) err))
      | Inr m \<Rightarrow> statFromResponse (env_api env) cdc reply = None \<and>
          (\<exists>b. c_Marshal cdc m = Inr b \<and> rp_Body reply = rd b EOF))"

lemma unary_response_received:
  assumes runs: "resp = (let w = new_response\<lparr>rw_header := metadata_headers calls\<rparr> in
     case outcome of
       Inl err \<Rightarrow>
         (let st = error_status (env_api env) err
          in (case None of None \<Rightarrow> DefaultErrorRenderer (env_api env) | Some f \<Rightarrow> f) cerr st
               (write_status (env_api env) cdc st w))
     | Inr m \<Rightarrow>
         (case c_Marshal cdc m of
            Inl err \<Rightarrow> writeError 500 w
          | Inr b \<Rightarrow>
              rw_Write b (rw_Set ''Content-Length'' (show_nat (length b)) (rw_Set ''Content-Type'' ct w))))"
    and good: "good_handler env cdc (calls, outcome)"
    and ct: "ct = ApplicationJson \<or> ct = UnaryRpcContentType_V1" and "details_codec cdc"
  shows "response_of (md_joined (call_headers calls)) (md_joined (call_trailers calls))
        (rw_sent (final_response resp))"
    and "reply_carried resp reply \<Longrightarrow> received_outcome env cdc outcome reply"
proof -
  let ?w = "new_response\<lparr>rw_header := metadata_headers calls\<rparr>"
  have valid: "valid_calls calls" using good by (simp add: good_handler_def)
  have "response_of (md_joined (call_headers calls)) (md_joined (call_trailers calls))
        (rw_sent (final_response resp)) \<and>
      (reply_carried resp reply \<longrightarrow> received_outcome env cdc outcome reply)"
  proof (cases outcome)
    case (Inl err)
    let ?st = "error_status (env_api env) err"
    let ?ws = "write_status (env_api env) cdc ?st ?w"
    have resp: "resp = DefaultErrorRenderer (env_api env) cerr ?st ?ws"
      using runs Inl by (simp add: Let_def)
    have st: "status_text (st_message ?st)" "wire_code (api_codes (env_api env)) (st_code ?st)"
      using good Inl by (simp_all add: good_handler_def Let_def)
    have of_err: "response_of (md_joined (call_headers calls)) (md_joined (call_trailers calls))
        (rw_sent (final_response resp))"
      unfolding resp by (rule response_of_error [OF valid st(1) refl])
    have "rw_status ?ws = None" by simp
    moreover have "response_of (md_joined (call_headers calls)) (md_joined (call_trailers calls)) (rw_header ?ws)"
      using response_of_metadata [OF valid] st(1) by (intro response_of_write_status) simp_all
    ultimately have "statFromResponse (env_api env) cdc reply = Some (delivered_status cdc ?st)"
      if "reply_carried resp reply"
      using that DefaultErrorRenderer_headers(3,4)
      unfolding resp reply_carried_def
      by (intro error_received [OF valid assms(4) st(2) error_status_not_OK refl]) blast+
    with of_err Inl show ?thesis by (simp add: received_outcome_def)
  next
    case (Inr m)
    with good obtain bm where bm: "c_Marshal cdc m = Inr bm"
      by (auto simp: good_handler_def split: sum.splits)
    have resp: "resp = rw_Write bm (rw_Set ''Content-Length'' (show_nat (length bm))
        (rw_Set ''Content-Type'' ct ?w))"
      using runs Inr bm by simp
    from message_received(1) [OF valid ct resp] message_received(2) [OF valid ct resp, of reply "env_api env" cdc] Inr bm
    show ?thesis by (simp add: received_outcome_def)
  qed
  then show "response_of (md_joined (call_headers calls)) (md_joined (call_trailers calls))
        (rw_sent (final_response resp))"
    and "reply_carried resp reply \<Longrightarrow> received_outcome env cdc outcome reply" by blast+
qed

lemma received_result:
  assumes "received_outcome env cdc outcome reply" and "message_codec cdc"
  shows "(case statFromResponse (env_api env) cdc reply of
        Some st \<Rightarrow> Inl (StatusErr st)
      | None \<Rightarrow>
          if rd_end (rp_Body reply) \<noteq> EOF then Inl (rd_end (rp_Body reply))
          else c_Unmarshal cdc (rd_bytes (rp_Body reply)) out) =
    (case outcome of
       Inl err \<Rightarrow> Inl (StatusErr (delivered_status cdc (error_status (env_api env) err)))
     | Inr m \<Rightarrow> Inr m)"
proof (cases outcome)
  case (Inl err)
  with assms(1) show ?thesis by (simp add: received_outcome_def)
next
  case (Inr m)
  with assms(1) obtain b where "c_Marshal cdc m = Inr b" "rp_Body reply = rd b EOF"
    "statFromResponse (env_api env) cdc reply = None" by (auto simp: received_outcome_def)
  moreover from this(1) assms(2) have "c_Unmarshal cdc b out = Inr m" by (simp add: message_codec_def)
  ultimately show ?thesis using Inr by simp
qed

subsection \<open>The unary call\<close>

text \<open>C15. A unary call over HTTP, from \<open>Invoke\<close> through \<open>handleMethod\<close> and back. The handler sees
  the decoded request, the client's metadata and its deadline in whole milliseconds, at least
  one. The client gets the handler's message, or, if the handler failed, a status error with
  the code, the message and the details of the handler's (an error with code OK becomes
  \<open>Internal\<close>, details that cannot be marshalled are left out). The header and trailer call
  options hold the metadata the handler has set. The transport delivers what HTTP can carry,
  the codec decodes what it has encoded, and metadata keys are lower-case tokens that HTTP and
  the protocol have not reserved.\<close>

theorem http_unary_call:
  fixes iv :: "'m invoke_env" and mem :: "'p call_mem"
  assumes "channelOptions env ch = Inr opts"
    and "GetCodecV2 env (codecName opts) = Some (codec opts)"
    and "codecName opts = protoName \<or> codecName opts = jsonCodecName" and "media_types env"
    and "message_codec (codec opts)" and "details_codec (codec opts)"
    and "ApplyPerRPCCreds (iv_md iv) out_md (GetCallOptions copts)
        (iv_url iv (the (ch_BaseURL ch)) name) (iv_secure iv) = Inr out"
    and "valid_md (outgoing out)" and "''grpc-timeout'' \<notin> fst ` set (outgoing out)"
    and "c_Marshal (codec opts) req = Inr b"
    and "new_request_err iv (iv_url iv (the (ch_BaseURL ch)) name) = None"
    and "serves transport (handleMethod env svc mth impl None)"
    and "\<forall>ctx. good_handler env (codec opts) (impl ctx (\<lambda>_. Inr req))"
  shows "\<exists>ctx calls outcome h t. impl ctx (\<lambda>_. Inr req) = (calls, outcome) \<and>
    (\<forall>k. mget (outgoing out) k \<noteq> [] \<longrightarrow> mget (sc_md ctx) k = mget (outgoing out) k) \<and>
    map_option sint (sc_timeout ctx) = map_option (\<lambda>d. 1000000 * max 1 (sint d div 1000000)) time_left \<and>
    (\<forall>k. mget (md_joined (call_headers calls)) k \<noteq> [] \<longrightarrow>
       mget h k = mget (md_joined (call_headers calls)) k) \<and>
    (\<forall>k. field_name k \<and> to_lower k = k \<and> k \<noteq> ''bin'' \<longrightarrow>
       mget t k = mget (md_joined (call_trailers calls)) k) \<and>
    Invoke env iv transport peer ch out_md time_left None name req resp copts mem =
      ((case outcome of
          Inl err \<Rightarrow> Inl (StatusErr (delivered_status (codec opts) (error_status (env_api env) err)))
        | Inr m \<Rightarrow> Inr m),
       SetTrailers (GetCallOptions copts) t
         (SetHeaders (GetCallOptions copts) h (SetPeer (GetCallOptions copts) (peer ()) mem)))"
proof -
  let ?url = "iv_url iv (the (ch_BaseURL ch)) name"
  let ?oq = "\<lparr>oq_URL = ?url, oq_Header = getHeadersForClientUnaryRequest out time_left opts,
      oq_Body = b\<rparr>"
  let ?ct = "unary_type opts"
  have "sendable (oq_Header ?oq)"
    using assms(8) by (simp add: outgoing_headers [of out] unary_request_sendable)
  from request_transported [OF assms(12) this] obtain r reply where
    r: "request_carried ?oq r" "transport ?oq = Inr reply"
      "sendable (rw_sent (final_response (handleMethod env svc mth impl None r))) \<Longrightarrow>
       reply_carried (handleMethod env svc mth impl None r) reply" by blast
  have recv: "carried (getHeadersForClientUnaryRequest (Some (outgoing out)) time_left opts) (rq_Header r)"
    "rq_Method r = ''POST''" "rq_Body r = rd b EOF"
    using r(1) by (simp_all add: request_carried_def flip: outgoing_headers)
  from unary_request_context [OF assms(8,9) recv(1)] obtain ctx where
    ctx: "contextFromHeaders (rq_Header r) = Inr ctx"
      "\<And>k. mget (outgoing out) k \<noteq> [] \<Longrightarrow> mget (sc_md ctx) k = mget (outgoing out) k"
      "sc_timeout ctx = map_option (\<lambda>d. word_of_int (timeout_millis d) * 1000000) time_left"
      "h_get (rq_Header r) ''Content-Type'' = ?ct" by metis
  have timeout: "map_option sint (sc_timeout ctx) =
      map_option (\<lambda>d. 1000000 * max 1 (sint d div 1000000)) time_left"
    unfolding ctx(3) by (cases time_left) (simp_all add: header_timeout_sent(2) flip: timeout_millis_eq)
  have dec: "unary_dec env (codec opts) b = (\<lambda>_. Inr req)"
    using assms(5,10) by (auto simp: unary_dec_def message_codec_def)
  obtain calls outcome where ran: "impl ctx (\<lambda>_. Inr req) = (calls, outcome)" by (cases "impl ctx (\<lambda>_. Inr req)")
  have good: "good_handler env (codec opts) (calls, outcome)" using assms(13) ran by metis
  then have valid: "valid_calls calls" by (simp add: good_handler_def)
  have srv: "getCodecForServerUnaryResponse env (h_get (rq_Header r) ''Content-Type'') = Some (codec opts)"
    unfolding ctx(4) server_codec [OF assms(4,3)] by (rule assms(2))
  have body: "read_all (rq_Body r) = Inr b" by (simp add: recv(3) Http_Server.read_all_def)
  have "impl ctx (unary_dec env (codec opts) b) = (calls, outcome)" unfolding dec by (rule ran)
  note runs = handleMethod_runs [where impl = impl and ctx = ctx, OF recv(2) srv ctx(1) body this, of svc mth None]
  have "response_of (md_joined (call_headers calls)) (md_joined (call_trailers calls))
        (rw_sent (final_response (handleMethod env svc mth impl None r)))"
    and got: "reply_carried (handleMethod env svc mth impl None r) reply \<Longrightarrow>
        received_outcome env (codec opts) outcome reply"
    using unary_response_received [OF runs good _ assms(6)] ctx(4) by (auto simp: unary_type_def)
  note of = this(1)
  let ?resp = "handleMethod env svc mth impl None r"
  have reply: "reply_carried ?resp reply" using r(3) of by (simp add: response_of_def)
  then have "carried (rw_sent (final_response ?resp)) (rp_Header reply)" by (simp add: reply_carried_def)
  note carried = this
  obtain h t where ht:
    "\<And>(co :: call_options) (mem :: 'p call_mem). setMetadata (rp_Header reply) co mem =
        Inr (SetTrailers co t (SetHeaders co h mem))"
    "\<And>k. mget (md_joined (call_headers calls)) k \<noteq> [] \<Longrightarrow> mget h k = mget (md_joined (call_headers calls)) k"
    "\<And>k. field_name k \<Longrightarrow> to_lower k = k \<Longrightarrow> k \<noteq> ''bin'' \<Longrightarrow>
      mget t k = mget (md_joined (call_trailers calls)) k"
    by (rule response_setMetadata [OF valid [unfolded valid_calls_def] of carried]) (rule that)
  have "Invoke env iv transport peer ch out_md time_left None name req resp copts mem =
      ((case outcome of
          Inl err \<Rightarrow> Inl (StatusErr (delivered_status (codec opts) (error_status (env_api env) err)))
        | Inr m \<Rightarrow> Inr m),
       SetTrailers (GetCallOptions copts) t
         (SetHeaders (GetCallOptions copts) h (SetPeer (GetCallOptions copts) (peer ()) mem)))"
    unfolding Invoke_reply [where transport = transport and hdr = h and tlr = t and name = name,
        OF assms(1,7,10,11) r(2) ht(1) refl]
    using received_result [OF got [OF reply] assms(5)] by (simp add: Let_def)
  with ran ctx(2) timeout ht(2,3) show ?thesis by blast
qed

subsection \<open>A concrete service\<close>

definition square_codec :: "nat wire_codec" where
  "square_codec =
     \<lparr>c_Marshal = (\<lambda>n. if n < 256 then Inr [of_nat n] else Inl (OtherErr ''too big'')),
      c_Unmarshal = (\<lambda>b out. case b of [w] \<Rightarrow> Inr (unat w) | _ \<Rightarrow> Inl (OtherErr ''bad length'')),
      c_MarshalAny = (\<lambda>d. if type_url d = '''' then Inr (any_value d) else Inl (OtherErr ''unknown type'')),
      c_UnmarshalAny = (\<lambda>b. Inr (AnyPb '''' b)),
      c_MarshalTrailer = (\<lambda>t. Inl (OtherErr ''unsupported'')),
      c_UnmarshalTrailer = (\<lambda>b. Inl (OtherErr ''unsupported'',
        \<lparr>tr_Metadata = [], tr_Code = 0, tr_Message = '''', tr_Details = []\<rparr>))\<rparr>"

definition demo_api :: status_api where
  "demo_api =
     \<lparr>api_codes = grpc_codes,
      FromError = (\<lambda>e. case e of StatusErr st \<Rightarrow> st
                    | _ \<Rightarrow> \<lparr>st_code = Unknown, st_message = ''error'', st_details = []\<rparr>),
      Error_text = (\<lambda>e. ''error''), code_String = (\<lambda>c. ''code'')\<rparr>"

definition demo_http :: "nat http_env" where
  "demo_http = \<lparr>parse_media = id, GetCodecV2 = (\<lambda>n. if n = protoName then Some square_codec else None),
     env_api = demo_api\<rparr>"

text \<open>Squares small numbers; fails for the others, with a detail.\<close>

definition square_impl :: "nat unary_impl" where
  "square_impl ctx dec =
     (case dec 0 of
        Inl err \<Rightarrow> ([], Inl err)
      | Inr n \<Rightarrow>
          ([CSetHeader [(''h'', [''1''])], CSetTrailer [(''t-bin'', [''2''])]],
           if n < 16 then Inr (n * n)
           else Inl (StatusErr \<lparr>st_code = OutOfRange, st_message = ''too big'',
                                st_details = [AnyPb '''' [1, 2], AnyPb ''x'' []]\<rparr>)))"

definition demo_channel :: "nat http_channel" where
  "demo_channel = \<lparr>ch_BaseURL = Some ''http://host'', ch_Transport = True,
     ch_opts = Some \<lparr>codecName = protoName, codec = square_codec\<rparr>\<rparr>"

definition demo_invoke :: "nat invoke_env" where
  "demo_invoke = \<lparr>iv_url = (\<lambda>base m. base @ m), iv_secure = False, new_request_err = (\<lambda>_. None),
     iv_md = \<lparr>md_New = (\<lambda>_. []), md_Join = concat\<rparr>\<rparr>"

definition no_mem :: "string call_mem" where
  "no_mem = \<lparr>md_at = (\<lambda>_. []), peer_at = (\<lambda>_. [])\<rparr>"

lemma demo_http_sel:
  "channelOptions demo_http demo_channel = Inr \<lparr>codecName = protoName, codec = square_codec\<rparr>"
  "GetCodecV2 demo_http protoName = Some square_codec" "media_types demo_http"
  "env_api demo_http = demo_api"
  by (simp_all add: channelOptions_def demo_channel_def checkChannelParams_def demo_http_def media_types_def)

lemma square_codec_laws: "message_codec square_codec" "details_codec square_codec"
  by (auto simp: message_codec_def details_codec_def square_codec_def unat_of_nat any_pb.expand
      split: if_splits)

lemma square_impl_good: "good_handler demo_http square_codec (square_impl ctx (\<lambda>_. Inr n))"
proof -
  have calls: "valid_calls [CSetHeader [(''h'', [''1''])], CSetTrailer [(''t-bin'', [''2''])]]" by code_simp
  have status: "status_text ''too big''" by code_simp
  have "n < 16 \<Longrightarrow> n * n < 256" using mult_strict_mono [of n 16 n 16] by simp
  with calls status show ?thesis
    by (auto simp: good_handler_def square_impl_def error_status_def demo_http_sel demo_api_def
        wire_code_grpc_codes square_codec_def Let_def)
qed

lemma square_marshal_7: "c_Marshal square_codec 7 = Inr [7]"
  by (simp add: square_codec_def)

theorem http_unary_call_witness:
  "\<exists>h t. Invoke demo_http demo_invoke (loopback (handleMethod demo_http ''S'' ''M'' square_impl None))
      (\<lambda>_. ''peer'') demo_channel (Some [(''k'', [''v''])]) (Some 5000000) None ''/S/M'' 7 0
      [HeaderCallOption 0] no_mem =
    (Inr 49, SetTrailers (GetCallOptions [HeaderCallOption 0]) t
      (SetHeaders (GetCallOptions [HeaderCallOption 0]) h
        (SetPeer (GetCallOptions [HeaderCallOption 0]) ''peer'' no_mem))) \<and>
    mget h ''h'' = [''1''] \<and> mget t ''t-bin'' = [''2'']"
proof -
  let ?url = "iv_url demo_invoke (the (ch_BaseURL demo_channel)) ''/S/M''"
  have md: "valid_md (outgoing (Some [(''k'', [''v''])]))"
    "''grpc-timeout'' \<notin> fst ` set (outgoing (Some [(''k'', [''v''])]))" by code_simp+
  have creds: "ApplyPerRPCCreds (iv_md demo_invoke) (Some [(''k'', [''v''])])
      (GetCallOptions [HeaderCallOption 0]) ?url (iv_secure demo_invoke) = Inr (Some [(''k'', [''v''])])"
    by (simp add: ApplyPerRPCCreds_def GetCallOptions_def no_call_options_def)
  have url: "new_request_err demo_invoke ?url = None" by (simp add: demo_invoke_def)
  have codec: "codec \<lparr>codecName = protoName, codec = square_codec\<rparr> = square_codec" by simp
  note call = http_unary_call [where env = demo_http and iv = demo_invoke and ch = demo_channel and
      opts = "\<lparr>codecName = protoName, codec = square_codec\<rparr>" and copts = "[HeaderCallOption 0]" and
      name = "''/S/M''" and req = 7 and b = "[7]" and svc = "''S''" and mth = "''M''" and
      impl = square_impl and peer = "\<lambda>_. ''peer''" and time_left = "Some 5000000" and resp = 0 and
      mem = no_mem, OF demo_http_sel(1) _ _ demo_http_sel(3) _ _ creds md _ url serves_loopback,
      unfolded codec]
  obtain ctx calls outcome h t where c: "square_impl ctx (\<lambda>_. Inr 7) = (calls, outcome)"
    "\<forall>k. mget (md_joined (call_headers calls)) k \<noteq> [] \<longrightarrow> mget h k = mget (md_joined (call_headers calls)) k"
    "\<forall>k. field_name k \<and> to_lower k = k \<and> k \<noteq> ''bin'' \<longrightarrow>
       mget t k = mget (md_joined (call_trailers calls)) k"
    "Invoke demo_http demo_invoke (loopback (handleMethod demo_http ''S'' ''M'' square_impl None))
      (\<lambda>_. ''peer'') demo_channel (Some [(''k'', [''v''])]) (Some 5000000) None ''/S/M'' 7 0
      [HeaderCallOption 0] no_mem =
      ((case outcome of
          Inl err \<Rightarrow> Inl (StatusErr (delivered_status square_codec (error_status (env_api demo_http) err)))
        | Inr m \<Rightarrow> Inr m),
       SetTrailers (GetCallOptions [HeaderCallOption 0]) t
         (SetHeaders (GetCallOptions [HeaderCallOption 0]) h
           (SetPeer (GetCallOptions [HeaderCallOption 0]) ''peer'' no_mem)))"
    using call square_impl_good [of _ 7] square_codec_laws demo_http_sel(2) square_marshal_7 by auto
  have "field_name ''t-bin''" "to_lower ''t-bin'' = ''t-bin''" by code_simp+
  moreover have run: "calls = [CSetHeader [(''h'', [''1''])], CSetTrailer [(''t-bin'', [''2''])]]"
    "outcome = Inr 49" using c(1) by (auto simp: square_impl_def)
  have "mget (md_joined (call_headers calls)) ''h'' = [''1'']"
    "mget (md_joined (call_trailers calls)) ''t-bin'' = [''2'']"
    unfolding run by (simp_all add: md_joined_def)
  ultimately have "mget h ''h'' = [''1'']" "mget t ''t-bin'' = [''2'']" using c(2,3) by simp_all
  with c(4) [unfolded run] show ?thesis by (intro exI [of _ h] exI [of _ t]) simp
qed

subsection \<open>Errors\<close>

definition keeps_status :: "error_renderer \<Rightarrow> bool" where
  "keeps_status f \<longleftrightarrow>
     (\<forall>cerr st rw. rw_status rw = None \<longrightarrow>
        mget (rw_sent (final_response (f cerr st rw))) (canonical_key ''X-GRPC-Status'') =
          mget (rw_header rw) (canonical_key ''X-GRPC-Status'') \<and>
        mget (rw_sent (final_response (f cerr st rw))) grpcDetailsHeader =
          mget (rw_header rw) grpcDetailsHeader)"

lemma keeps_status_default: "keeps_status (DefaultErrorRenderer api)"
  by (simp add: keeps_status_def DefaultErrorRenderer_kept)

text \<open>C25. An error of a unary handler is never taken for a success, however it is rendered: for any
  error renderer that leaves the headers \<open>X-GRPC-Status\<close> and \<open>X-GRPC-Details\<close> alone, and
  whatever HTTP status and body it writes, 200 included, the client finds the handler's code
  (\<open>Internal\<close> for OK), message and details in the reply.\<close>

theorem http_error_not_lost:
  assumes "rq_Method r = ''POST''"
    and "getCodecForServerUnaryResponse env (h_get (rq_Header r) ''Content-Type'') = Some cdc"
    and "contextFromHeaders (rq_Header r) = Inr ctx" and "read_all (rq_Body r) = Inr req"
    and "impl ctx (unary_dec env cdc req) = (calls, Inl err)" and "valid_calls calls"
    and "details_codec cdc"
    and "wire_code (api_codes (env_api env)) (st_code (error_status (env_api env) err))"
    and "case errFunc of None \<Rightarrow> True | Some f \<Rightarrow> keeps_status f"
    and "carried (rw_sent (final_response (handleMethod env svc mth impl errFunc r))) (rp_Header reply)"
  shows "statFromResponse (env_api env) cdc reply =
      Some (delivered_status cdc (error_status (env_api env) err)) \<and>
    st_code (delivered_status cdc (error_status (env_api env) err)) \<noteq> OK"
proof -
  let ?f = "case errFunc of None \<Rightarrow> DefaultErrorRenderer (env_api env) | Some f \<Rightarrow> f"
  let ?w = "write_status (env_api env) cdc (error_status (env_api env) err)
      (new_response\<lparr>rw_header := metadata_headers calls\<rparr>)"
  have eq: "handleMethod env svc mth impl errFunc r =
      ?f (rq_ctx_err r) (error_status (env_api env) err) ?w"
    using handleMethod_runs [where impl = impl and ctx = ctx, OF assms(1-5), of svc mth errFunc]
    by (simp add: Let_def)
  have "keeps_status ?f"
    using assms(9) keeps_status_default [of "env_api env"] by (cases errFunc) simp_all
  moreover have "rw_status ?w = None" by simp
  ultimately have kept: "mget (rw_sent (final_response (handleMethod env svc mth impl errFunc r)))
        (canonical_key ''X-GRPC-Status'') = mget (rw_header ?w) (canonical_key ''X-GRPC-Status'')"
    "mget (rw_sent (final_response (handleMethod env svc mth impl errFunc r))) grpcDetailsHeader =
      mget (rw_header ?w) grpcDetailsHeader"
    unfolding keeps_status_def eq by blast+
  have "statFromResponse (env_api env) cdc reply =
      Some (delivered_status cdc (error_status (env_api env) err))"
    by (rule error_received [OF assms(6-8) error_status_not_OK refl kept assms(10)])
  then show ?thesis by (simp add: delivered_status_def error_status_not_OK)
qed

text \<open>A renderer that hides errors from HTTP: status 200, an empty object as body.\<close>

definition quiet_renderer :: error_renderer where
  "quiet_renderer cerr st rw = rw_Write (bytes_of ''{}'') (WriteHeader 200 rw)"

lemma quiet_renderer_keeps: "keeps_status quiet_renderer"
  by (simp add: keeps_status_def quiet_renderer_def final_response_def rw_Write_def Let_def)

definition square_request :: "nat \<Rightarrow> http_request" where
  "square_request n =
     \<lparr>rq_Method = ''POST'', rq_Header = [(''Content-Type'', [UnaryRpcContentType_V1])],
      rq_Body = rd [of_nat n] EOF, rq_ctx_err = None\<rparr>"

theorem http_error_not_lost_witness:
  "rp_StatusCode (loopback_reply (handleMethod demo_http ''S'' ''M'' square_impl (Some quiet_renderer)
      (square_request 20))) = 200 \<and>
   statFromResponse demo_api square_codec (loopback_reply
     (handleMethod demo_http ''S'' ''M'' square_impl (Some quiet_renderer) (square_request 20))) =
   Some \<lparr>st_code = OutOfRange, st_message = ''too big'', st_details = [AnyPb '''' [1, 2]]\<rparr>"
proof -
  let ?reply = "loopback_reply
     (handleMethod demo_http ''S'' ''M'' square_impl (Some quiet_renderer) (square_request 20))"
  let ?err = "StatusErr \<lparr>st_code = OutOfRange, st_message = ''too big'',
                                st_details = [AnyPb '''' [1, 2], AnyPb ''x'' []]\<rparr>"
  let ?calls = "[CSetHeader [(''h'', [''1''])], CSetTrailer [(''t-bin'', [''2''])]]"
  have status: "rp_StatusCode ?reply = 200" by code_simp
  have ct: "h_get (rq_Header (square_request 20)) ''Content-Type'' = UnaryRpcContentType_V1" by code_simp
  have codec: "getCodecForServerUnaryResponse demo_http
      (h_get (rq_Header (square_request 20)) ''Content-Type'') = Some square_codec"
    unfolding ct by (simp add: getCodecForServerUnaryResponse_def demo_http_def)
  have req: "contextFromHeaders (rq_Header (square_request 20)) =
      Inr \<lparr>sc_md = [(''content-type'', [UnaryRpcContentType_V1])], sc_timeout = None\<rparr>"
    "Http_Server.read_all (rq_Body (square_request 20)) = Inr [20]"
    "rq_Method (square_request 20) = ''POST''"
    by (code_simp)+
  have ran: "square_impl ctx (unary_dec demo_http square_codec [20]) = (?calls, Inl ?err)" for ctx
    by (simp add: square_impl_def unary_dec_def square_codec_def)
  have err: "error_status (env_api demo_http) ?err =
      \<lparr>st_code = OutOfRange, st_message = ''too big'', st_details = [AnyPb '''' [1, 2], AnyPb ''x'' []]\<rparr>"
    by (simp add: error_status_def demo_http_def demo_api_def)
  have carried: "carried (rw_sent (final_response
      (handleMethod demo_http ''S'' ''M'' square_impl (Some quiet_renderer) (square_request 20))))
      (rp_Header ?reply)"
    by (simp add: loopback_reply_def Let_def carried_refl) (rule carried_refl, code_simp)
  have valid: "valid_calls ?calls" by code_simp
  have wire: "wire_code (api_codes (env_api demo_http)) (st_code (error_status (env_api demo_http) ?err))"
    unfolding err by (simp add: demo_http_def demo_api_def wire_code_grpc_codes)
  show ?thesis
    using http_error_not_lost [where errFunc = "Some quiet_renderer", OF req(3) codec req(1,2) ran valid
        square_codec_laws(2) wire _ carried] quiet_renderer_keeps status err
    by (simp add: delivered_status_def square_codec_def demo_http_def)
qed

text \<open>The requests that never reach the handler, and their HTTP status.\<close>

definition rejection :: "'m http_env \<Rightarrow> http_request \<Rightarrow> int option" where
  "rejection env r =
     (if rq_Method r \<noteq> ''POST'' then Some 405
      else case getCodecForServerUnaryResponse env (h_get (rq_Header r) ''Content-Type'') of
             None \<Rightarrow> Some 415
           | Some _ \<Rightarrow>
               (case contextFromHeaders (rq_Header r) of
                  Inl _ \<Rightarrow> Some 400
                | Inr _ \<Rightarrow> (case Http_Server.read_all (rq_Body r) of Inl _ \<Rightarrow> Some 499 | Inr _ \<Rightarrow> None)))"

lemma writeError_headers:
  assumes "rw_status rw = None" and "mget (rw_header rw) (canonical_key ''X-GRPC-Status'') = []"
  shows "mget (rw_sent (final_response (writeError code rw))) (canonical_key ''X-GRPC-Status'') = []"
    and "rw_status (final_response (writeError code rw)) = Some code"
  using assms
  by (simp_all add: writeError_def Let_def final_response_def http_Error_sel mget_h_set_other mget_h_del_other)

lemma status_from_code_only:
  assumes "mget (rp_Header reply) (canonical_key ''X-GRPC-Status'') = []"
  shows "(case statFromResponse api cdc reply of None \<Rightarrow> OK | Some st \<Rightarrow> st_code st) =
    codeFromHttpStatus (rp_StatusCode reply)"
proof -
  have "splitn2 CHR '':'' (h_get (rp_Header reply) ''X-GRPC-Status'') = ['''']"
    using assms by (simp add: h_get_def)
  then show ?thesis by (simp add: statFromResponse_def Let_def)
qed

definition refusal_start :: "int \<Rightarrow> response_writer" where
  "refusal_start code = (if code = 405 then rw_Set ''Allow'' ''POST'' new_response else new_response)"

lemma refusal_start_sel:
  "rw_status (refusal_start code) = None"
  "mget (rw_header (refusal_start code)) (canonical_key ''X-GRPC-Status'') = []"
proof -
  have "mget (h_set [] ''Allow'' ''POST'') (canonical_key ''X-GRPC-Status'') = []" by code_simp
  then show "mget (rw_header (refusal_start code)) (canonical_key ''X-GRPC-Status'') = []"
    by (simp add: refusal_start_def)
qed (simp add: refusal_start_def)

lemma handleMethod_refuses:
  assumes "rejection env r = Some code"
  shows "handleMethod env svc mth impl errFunc r = writeError code (refusal_start code)"
    and "code \<in> {405, 415, 400, 499}"
  using assms
  by (auto simp: rejection_def handleMethod_def Let_def refusal_start_def
      split: if_splits option.splits sum.splits)

text \<open>C26. Requests that cannot be served are refused before the handler runs: whatever the handler
  and the renderer are, a wrong HTTP method gives 405, an unknown media type 415, metadata that
  does not decode 400 and a body that cannot be read 499, in this order, and the client sees
  an error: \<open>Canceled\<close> for the last, \<open>InvalidArgument\<close> for the others.\<close>

theorem http_request_refused:
  assumes "rejection env r = Some code" and "reply_carried (handleMethod env svc mth impl errFunc r) reply"
  shows "rp_StatusCode reply = code \<and> code \<in> {405, 415, 400, 499} \<and>
    handleMethod env svc mth impl errFunc r = handleMethod env svc mth impl' errFunc' r \<and>
    (case statFromResponse api cdc reply of None \<Rightarrow> OK | Some st \<Rightarrow> st_code st) =
      (if code = 499 then Canceled else InvalidArgument)"
proof -
  note w = handleMethod_refuses [OF assms(1)]
  note sent = writeError_headers [OF refusal_start_sel, of code]
  have foreign: "\<not> foreign (canonical_key ''X-GRPC-Status'')" by (simp add: foreign_def has_prefix_def)
  have reply: "rp_StatusCode reply = code"
    "carried (rw_sent (final_response (writeError code (refusal_start code)))) (rp_Header reply)"
    using assms(2) sent(2) by (simp_all add: reply_carried_def w(1))
  have "mget (rp_Header reply) (canonical_key ''X-GRPC-Status'') = []"
    using carried_mget [OF reply(2)] foreign sent(1) by simp
  from status_from_code_only [OF this, of api cdc] reply(1)
  have "(case statFromResponse api cdc reply of None \<Rightarrow> OK | Some st \<Rightarrow> st_code st) = codeFromHttpStatus code"
    by simp
  also have "\<dots> = (if code = 499 then Canceled else InvalidArgument)"
    using w(2) by (auto simp: codeFromHttpStatus_def)
  finally show ?thesis using reply(1) w by simp
qed

theorem http_request_refused_witness:
  "rp_StatusCode (loopback_reply (handleMethod demo_http ''S'' ''M'' square_impl None
      ((square_request 3)\<lparr>rq_Method := ''GET''\<rparr>))) = 405"
proof -
  let ?w = "handleMethod demo_http ''S'' ''M'' square_impl None ((square_request 3)\<lparr>rq_Method := ''GET''\<rparr>)"
  have "rejection demo_http ((square_request 3)\<lparr>rq_Method := ''GET''\<rparr>) = Some 405"
    by (simp add: rejection_def)
  moreover have "carried (rw_sent (final_response ?w)) (rw_sent (final_response ?w))"
    by (rule carried_refl) code_simp
  then have "reply_carried ?w (loopback_reply ?w)"
    by (simp add: reply_carried_def loopback_reply_def Let_def)
  ultimately show ?thesis
    using http_request_refused [where api = demo_api and cdc = square_codec and impl' = square_impl
        and errFunc' = None] by metis
qed

text \<open>Without the status header, the HTTP status alone translates the handler's code back to
  the same code for exactly twelve of them (\<open>http_preserved\<close>); the others come back as the
  codes that \<open>http_collapsed\<close> lists, and OK is never confused with an error.\<close>

lemma http_code_translation:
  "codeFromHttpStatus (httpStatusFromCode c) = http_collapsed c \<and>
   (codeFromHttpStatus (httpStatusFromCode c) = c \<longleftrightarrow> http_preserved c) \<and>
   (codeFromHttpStatus (httpStatusFromCode c) = OK \<longleftrightarrow> c = OK)"
  by (simp add: http_code_roundtrip http_collapsed_fixed http_collapsed_OK)

subsection \<open>Limits\<close>

text \<open>C27. The timeout of a request. The server accepts every timeout the gRPC protocol allows, at most
  eight digits and a unit. It computes the exact number of nanoseconds for all of them, except for
  2562048 hours and more: for each of these the multiplication overflows, and the timeout is not the
  one that the header says. For 99999999 hours, for instance, it is negative, so that the call fails
  at once. What the client sends always comes out exactly.\<close>

theorem http_timeout_bounds:
  "(n < 100000000 \<and> u \<in> {CHR ''H'', CHR ''M'', CHR ''S'', CHR ''m'', CHR ''u'', CHR ''n''} \<longrightarrow>
      header_timeout (show_nat n @ [u]) \<noteq> None \<and>
      (map_option sint (header_timeout (show_nat n @ [u])) = map_option (\<lambda>w. int n * sint w) (timeout_unit u) \<longleftrightarrow>
         \<not> (u = CHR ''H'' \<and> 2562048 \<le> n))) \<and>
   map_option (\<lambda>w. sint w < 0) (header_timeout ''99999999H'') = Some True \<and>
   map_option sint (header_timeout (show_int (timeout_millis d) @ ''m'')) =
     Some (1000000 * max 1 (sint d div 1000000))"
proof (intro conjI [of "_ \<longrightarrow> _"] impI)
  assume n: "n < 100000000 \<and> u \<in> {CHR ''H'', CHR ''M'', CHR ''S'', CHR ''m'', CHR ''u'', CHR ''n''}"
  then have parse: "parse_int (show_nat n) 64 = Some (int n)"
    by (intro parse_int_show_nat) simp
  have exact: "sint (word_of_int (int n) * w :: 64 word) = int n * sint w"
    if "0 \<le> sint w" "int n * sint w < 2 ^ 63" for w
  proof -
    have "word_of_int (int n) * w = (word_of_int (int n * sint w) :: 64 word)" by simp
    moreover have "sint (word_of_int (int n * sint w) :: 64 word) = int n * sint w"
    proof -
      have "- (2 ^ 63) \<le> (0 :: int)" by simp
      also have "0 \<le> int n * sint w" using mult_nonneg_nonneg [OF of_nat_0_le_iff that(1)] .
      finally have "- (2 ^ 63) \<le> int n * sint w" .
      with that(2) have "signed_take_bit 63 (int n * sint w) = int n * sint w"
        by (intro signed_take_bit_int_eq_self)
      then show ?thesis by (simp only: sint_sbintrunc') simp
    qed
    ultimately show ?thesis by simp
  qed
  have hours: "439453125 * int n < 1125899906842624 \<longleftrightarrow> \<not> 2562048 \<le> n" by linarith
  obtain w where w: "timeout_unit u = Some w" "0 \<le> sint w"
      "int n * sint w < 2 ^ 63 \<longleftrightarrow> \<not> (u = CHR ''H'' \<and> 2562048 \<le> n)"
    using n hours by (auto simp: timeout_unit_def)
  have timeout: "header_timeout (show_nat n @ [u]) = Some (word_of_int (int n) * w)"
    using parse w(1) by (simp add: header_timeout_def)
  have "sint (word_of_int (int n) * w :: 64 word) = int n * sint w \<longleftrightarrow> int n * sint w < 2 ^ 63"
    using exact [OF w(2)] sint_less [of "word_of_int (int n) * w :: 64 word"] by auto
  with timeout w show "header_timeout (show_nat n @ [u]) \<noteq> None \<and>
      (map_option sint (header_timeout (show_nat n @ [u])) = map_option (\<lambda>w. int n * sint w) (timeout_unit u) \<longleftrightarrow>
         \<not> (u = CHR ''H'' \<and> 2562048 \<le> n))"
    by simp
next
  have "show_nat 99999999 = ''99999999''"
    by (simp add: show_nat.simps digit_char_def char_eq_nat_iff of_char_of)
  then have "parse_int ''99999999'' 64 = Some 99999999"
    using parse_int_show_nat [of 99999999 64] by simp
  then have "map_option (\<lambda>w. sint w < 0) (header_timeout ''99999999H'') = Some True"
    by (simp add: header_timeout_def timeout_unit_def)
  moreover have "map_option sint (header_timeout (show_int (timeout_millis d) @ ''m'')) =
     Some (1000000 * max 1 (sint d div 1000000))"
    unfolding header_timeout_sent(1) option.map header_timeout_sent(2) by (simp only: timeout_millis_eq)
  ultimately show "map_option (\<lambda>w. sint w < 0) (header_timeout ''99999999H'') = Some True \<and>
   map_option sint (header_timeout (show_int (timeout_millis d) @ ''m'')) =
     Some (1000000 * max 1 (sint d div 1000000))" by blast
qed

theorem http_timeout_bounds_witness:
  "map_option sint (header_timeout (show_nat 2562047 @ [CHR ''H''])) = Some 9223369200000000000 \<and>
   map_option sint (header_timeout (show_nat 2562048 @ [CHR ''H''])) \<noteq> Some 9223372800000000000"
  using http_timeout_bounds [of 2562047 "CHR ''H''" 0] http_timeout_bounds [of 2562048 "CHR ''H''" 0]
  by (simp add: timeout_unit_def)

text \<open>A trailer with the key \<open>bin\<close> does not survive a unary call over HTTP. The server writes its
  value unencoded, because the key does not end in \<open>-bin\<close>; the client decodes it, because the
  header's name does. So a value that is no base64 makes the call fail on the client, although
  the handler succeeded, and any other value is replaced by its decoding.\<close>

lemma http_trailer_bin:
  "asMetadata (response_headers [] [(''bin'', [v])]) =
     (case URLDecode v of
        None \<Rightarrow> Inl (OtherErr ''illegal base64 data'')
      | Some b \<Rightarrow> Inr [(''x-grpc-trailer-bin'', [string_of b])])"
proof -
  have "response_headers [] [(''bin'', [v])] = [(''X-Grpc-Trailer-Bin'', [v])]"
  proof -
    have "canonical_key (trailer_header @ ''bin'') = ''X-Grpc-Trailer-Bin''"
      "to_lower ''bin'' \<notin> set reservedHeaders" "\<not> has_suffix (to_lower ''bin'') bin_suffix" by code_simp+
    then show ?thesis by (simp add: response_headers_def h_add_def mappend_def wire_value_def)
  qed
  moreover have "to_lower ''X-Grpc-Trailer-Bin'' = ''x-grpc-trailer-bin''"
    "has_suffix ''x-grpc-trailer-bin'' bin_suffix" by code_simp+
  ultimately show ?thesis
    by (simp add: asMetadata_def mappend_def split: option.splits)
qed

end
