(* ===== verification/Http_Stream_Call.thy ===== *)
theory Http_Stream_Call
  imports Http_Stream_Exchange Http_Stream_Delivery Http_Properties
begin

text \<open>
  A streaming call over HTTP from end to end, for both formats: the reply that the client gets for
  the response of \<open>handleStream\<close> is complete, and the request's body that the server reads is what
  the client has sent.
\<close>

subsection \<open>The server's run\<close>

text \<open>The format that a channel's codec selects, on the server.\<close>

definition server_io :: "'m stream_env \<Rightarrow> 'm channel_opts \<Rightarrow> 'm stream_io" where
  "server_io se opts =
     (if codecName opts = jsonCodecName then
        \<lparr>io_read = newJSONReader, io_write = newSSEWriter (marshal_msg (se_nil se) (codec opts)) None,
         io_type = EventStreamContentType, io_codec = codec opts, io_after = se_after se\<rparr>
      else
        \<lparr>io_read = newSizePrefixedReader,
         io_write = newSizePrefixedWriter (marshal_msg (se_nil se) (codec opts)),
         io_type = StreamRpcContentType_V1, io_codec = codec opts, io_after = se_after se\<rparr>)"

text \<open>The payloads that the response's format carries.\<close>

definition payload_ok :: "'m channel_opts \<Rightarrow> bool \<Rightarrow> bytes \<Rightarrow> bool" where
  "payload_ok opts = (if codecName opts = jsonCodecName then sse_ok else sp_ok)"

text \<open>The calls of a handler and its error, in the context \<open>ctx\<close>.\<close>

definition stream_run ::
    "'h \<Rightarrow> string \<Rightarrow> ('h, server_ctx, 'm handler) stream_handler stream_desc \<Rightarrow>
     ('h, server_ctx, stream_info, 'm handler) stream_server_int option \<Rightarrow> 'm stream_io \<Rightarrow> reader \<Rightarrow> server_ctx \<Rightarrow>
     'm srv_op list \<times> goerr option" where
  "stream_run svr svc desc streamInt sio req ctx =
     (let body = (case streamInt of
                    Some i \<Rightarrow> i svr ctx \<lparr>FullMethod = ''/'' @ svc @ ''/'' @ StreamName desc,
                        IsClientStream = ClientStreams desc, IsServerStream = ServerStreams desc\<rparr> (sd_handler desc)
                  | None \<Rightarrow> sd_handler desc svr ctx);
          str = \<lparr>hs_respStream = ClientStreams desc, hs_r = req, hs_recvd = 0,
                 hs_w = rw_Set ''Content-Type'' (io_type sio) new_response, hs_room = None, hs_after = io_after sio,
                 hs_headersSent = False, hs_writeFailed = False, hs_tr = []\<rparr>
      in (http_log sio body str, fst (http_run sio body str)))"

text \<open>A run whose messages, headers and final trailer can be sent and read back.\<close>

definition good_stream ::
    "'m stream_env \<Rightarrow> 'm channel_opts \<Rightarrow> 'm srv_op list \<times> goerr option \<Rightarrow> bool" where
  "good_stream se opts run \<longleftrightarrow>
     sends_ok (marshal_msg (se_nil se) (codec opts)) (payload_ok opts) (fst run) \<and>
     stream_mds (header_mds (fst run)) \<and>
     (let tr = stream_trailer se (trailer_mds (fst run)) (snd run)
      in case c_MarshalTrailer (codec opts) tr of
           Inl _ \<Rightarrow> False
         | Inr tb \<Rightarrow> payload_ok opts True tb \<and> c_UnmarshalTrailer (codec opts) tb = Inr tr) \<and>
     (let api = env_api (se_http se)
      in wire_code (api_codes api) OK \<and>
         (case snd run of None \<Rightarrow> True | Some e \<Rightarrow> wire_code (api_codes api) (st_code (error_status api e))))"

definition stream_media :: "'m http_env \<Rightarrow> bool" where
  "stream_media env \<longleftrightarrow>
     (\<forall>ct \<in> {ApplicationJson, StreamRpcContentType_V1, EventStreamContentType}. parse_media env ct = ct)"

lemma sent_payloads:
  assumes "sends_ok marshal ok ops"
  shows "\<forall>m \<in> set (sent_msgs ops). \<exists>b. marshal (WMsg (Some m)) = Inr b \<and> ok False b"
proof
  fix m assume "m \<in> set (sent_msgs ops)"
  then have "OpSendMsg (Some m) \<in> set ops" by (induction ops rule: sent_msgs.induct) auto
  with assms show "\<exists>b. marshal (WMsg (Some m)) = Inr b \<and> ok False b"
    by (cases "marshal (WMsg (Some m))") (auto simp: sends_ok_def)
qed

lemma server_io_selected:
  assumes "stream_media (se_http se)" and "GetCodecV2 (se_http se) (codecName opts) = Some (codec opts)"
    and "codecName opts = protoName \<or> codecName opts = jsonCodecName" and "se_flush se = None"
  shows "getServerStreamReaderAndWriter se (stream_type opts) = Ret (Some (server_io se opts))"
proof -
  have "ApplicationJson \<noteq> StreamRpcContentType_V1" "protoName \<noteq> jsonCodecName" by code_simp+
  with assms show ?thesis
    by (auto simp: getServerStreamReaderAndWriter_def stream_type_def server_io_def stream_media_def
        registered_def)
qed

text \<open>The client's choice, from the response's content type.\<close>

definition client_in :: "'m channel_opts \<Rightarrow> 'm stream_in" where
  "client_in opts =
     \<lparr>si_read = (if codecName opts = jsonCodecName then newSSEReader else newSizePrefixedReader),
      si_codec = codec opts\<rparr>"

lemma client_in_selected:
  assumes "stream_media env" and "GetCodecV2 env (codecName opts) = Some (codec opts)"
    and "codecName opts = protoName \<or> codecName opts = jsonCodecName"
  shows "getClientStreamReader env (parse_media env (io_type (server_io se opts))) = Ret (Some (client_in opts))"
proof -
  have "EventStreamContentType \<noteq> StreamRpcContentType_V1" "protoName \<noteq> jsonCodecName" by code_simp+
  with assms show ?thesis
    by (auto simp: getClientStreamReader_def server_io_def client_in_def stream_media_def registered_def)
qed

subsection \<open>The reply is complete\<close>

context stream_format
begin

text \<open>The response of \<open>handleStream\<close>, as \<open>handleStream_response\<close> describes it, read by the client.\<close>

lemma response_complete:
  assumes str: "streaming K (Inr rp) si (rp_Body rp)" "si_read si = decode" "si_codec si = cdc"
    and head: "asMetadata (rp_Header rp) = Inr md"
    and body: "rp_Body rp = rd (stream_body ms tr) EOF"
    and msgs: "\<forall>m \<in> set ms. \<exists>b. marshal (WMsg (Some m)) = Inr b \<and> ok False b"
    and marshal: "\<And>m. marshal (WMsg (Some m)) = c_Marshal cdc m" and cdc: "message_codec cdc"
    and tr: "marshal (WTrailer tr) = Inr tb" "ok True tb" "c_UnmarshalTrailer cdc tb = Inr tr"
  shows "\<exists>val. complete_reply K (Inr rp) val (map (wire_of marshal) ms) tr \<and>
    map val (map (wire_of marshal) ms) = ms"
proof -
  define val where "val x = projr (decode_msg cdc x undefined)" for x
  have dec: "decode_msg cdc (wire_of marshal m) out = Inr m" if "m \<in> set ms" for m out
  proof -
    from bspec [OF msgs that] obtain b where "marshal (WMsg (Some m)) = Inr b" by (elim exE conjE)
    with cdc show ?thesis
      by (simp add: decode_msg_def wire_of_def payload_of_def marshal message_codec_def)
  qed
  have ok: "\<forall>m \<in> set ms. ok False (payload_of marshal (WMsg (Some m)))"
    using msgs by (auto simp: payload_of_def)
  have trailer: "payload_of marshal (WTrailer tr) = tb" using tr(1) by (simp add: payload_of_def)
  from reads_stream_body [OF ok, of tr EOF] obtain r1 where
    r1: "reads_to decode (rp_Body rp) (map (wire_of marshal) ms) r1"
      "decode r1 = (Inr \<lparr>sm_data = tb, sm_isTrailer = True\<rparr>, rd [] EOF)"
    unfolding trailer body [symmetric] using tr(2) by blast
  have vals: "\<forall>x \<in> set (map (wire_of marshal) ms). \<forall>m. decode_msg cdc x m = Inr (val x)"
    using dec by (auto simp: val_def)
  with r1 have "streaming K (Inr rp) si (rp_Body rp) \<and>
      reads_to (si_read si) (rp_Body rp) (map (wire_of marshal) ms) r1 \<and>
      si_read si r1 = (Inr \<lparr>sm_data = tb, sm_isTrailer = True\<rparr>, rd [] EOF) \<and>
      sm_isTrailer \<lparr>sm_data = tb, sm_isTrailer = True\<rparr> \<and>
      c_UnmarshalTrailer (si_codec si) (sm_data \<lparr>sm_data = tb, sm_isTrailer = True\<rparr>) = Inr tr \<and>
      (\<forall>x \<in> set (map (wire_of marshal) ms). \<forall>m. decode_msg (si_codec si) x m = Inr (val x))"
    using str tr(3) by simp
  with head have "complete_reply K (Inr rp) val (map (wire_of marshal) ms) tr"
    unfolding complete_reply_def by blast
  moreover have "map val (map (wire_of marshal) ms) = ms"
    using dec by (simp add: val_def map_idI)
  ultimately show ?thesis by blast
qed

end

lemma server_writes:
  "io_write (server_io se opts) =
     (if codecName opts = jsonCodecName then newSSEWriter (marshal_msg (se_nil se) (codec opts)) None
      else newSizePrefixedWriter (marshal_msg (se_nil se) (codec opts)))"
  by (simp add: server_io_def)

text \<open>The response for a good run.\<close>

definition response_bytes :: "'m stream_env \<Rightarrow> 'm channel_opts \<Rightarrow> 'm list \<Rightarrow> http_trailer \<Rightarrow> bytes" where
  "response_bytes se opts ms tr =
     (if codecName opts = jsonCodecName
      then sse_writer.stream_body (marshal_msg (se_nil se) (codec opts)) ms tr
      else sp_writer.stream_body (marshal_msg (se_nil se) (codec opts)) ms tr)"

lemma served_response:
  assumes "rq_Method r = ''POST''"
    and "getServerStreamReaderAndWriter se (h_get (rq_Header r) ''Content-Type'') = Ret (Some (server_io se opts))"
    and "contextFromHeaders (rq_Header r) = Inr ctx"
    and run: "stream_run svr svc desc streamInt (server_io se opts) (rq_Body r) ctx = (ops, err)"
    and good: "good_stream se opts (ops, err)"
  obtains w where "handleStream se svr svc desc streamInt None r = Ret w" "rw_status w = Some 200"
    "rw_body w = response_bytes se opts (sent_msgs ops) (stream_trailer se (trailer_mds ops) err)"
    "rw_sent w = add_headers (h_set [] ''Content-Type'' (io_type (server_io se opts))) (header_mds ops)"
proof -
  let ?tr = "stream_trailer se (trailer_mds ops) err"
  obtain tb where tb: "c_MarshalTrailer (codec opts) ?tr = Inr tb" "payload_ok opts True tb"
    using good by (auto simp: good_stream_def Let_def split: sum.splits)
  have sends: "sends_ok (marshal_msg (se_nil se) (codec opts)) (payload_ok opts) ops"
    using good by (simp add: good_stream_def)
  from run have ops: "ops = fst (stream_run svr svc desc streamInt (server_io se opts) (rq_Body r) ctx)"
    and err: "err = snd (stream_run svr svc desc streamInt (server_io se opts) (rq_Body r) ctx)" by simp_all
  show ?thesis
  proof (cases "codecName opts = jsonCodecName")
    case True
    then have "io_write (server_io se opts) = newSSEWriter (marshal_msg (se_nil se) (codec opts)) None"
      by (simp add: server_writes)
    note writes = this
    have "sends_ok (marshal_msg (se_nil se) (codec opts)) sse_ok ops"
      "marshal_msg (se_nil se) (codec opts) (WTrailer ?tr) = Inr tb" "sse_ok True tb"
      using sends tb True by (simp_all add: payload_ok_def)
    note ready = this
    obtain w where "handleStream se svr svc desc streamInt None r = Ret w" "rw_status w = Some 200"
      "rw_body w = sse_writer.stream_body (marshal_msg (se_nil se) (codec opts)) (sent_msgs ops) ?tr"
      "rw_sent w = add_headers (h_set [] ''Content-Type'' (io_type (server_io se opts))) (header_mds ops)"
      by (rule sse_writer.handleStream_response [OF assms(1-3) writes refl refl
        ops [unfolded stream_run_def Let_def fst_conv] ready(1) err [unfolded stream_run_def Let_def snd_conv]
        refl ready(2,3)])
    with True show ?thesis by (intro that [of w]) (simp_all add: response_bytes_def)
  next
    case False
    then have "io_write (server_io se opts) = newSizePrefixedWriter (marshal_msg (se_nil se) (codec opts))"
      by (simp add: server_writes)
    note writes = this
    have "sends_ok (marshal_msg (se_nil se) (codec opts)) sp_ok ops"
      "marshal_msg (se_nil se) (codec opts) (WTrailer ?tr) = Inr tb" "sp_ok True tb"
      using sends tb False by (simp_all add: payload_ok_def)
    note ready = this
    obtain w where "handleStream se svr svc desc streamInt None r = Ret w" "rw_status w = Some 200"
      "rw_body w = sp_writer.stream_body (marshal_msg (se_nil se) (codec opts)) (sent_msgs ops) ?tr"
      "rw_sent w = add_headers (h_set [] ''Content-Type'' (io_type (server_io se opts))) (header_mds ops)"
      by (rule sp_writer.handleStream_response [OF assms(1-3) writes refl refl
        ops [unfolded stream_run_def Let_def fst_conv] ready(1) err [unfolded stream_run_def Let_def snd_conv]
        refl ready(2,3)])
    with False show ?thesis by (intro that [of w]) (simp_all add: response_bytes_def)
  qed
qed

text \<open>What the handler's error is for the client.\<close>

definition stream_final :: "status_api \<Rightarrow> goerr option \<Rightarrow> goerr" where
  "stream_final api err = (case err of None \<Rightarrow> EOF | Some e \<Rightarrow> StatusErr (error_status api e))"

lemma trailer_err_final:
  assumes "good_stream se opts (ops, err)" and "k_http K = se_http se"
  shows "trailer_err K (stream_trailer se mds err) = stream_final (env_api (se_http se)) err"
proof (cases err)
  case None
  then show ?thesis
    using assms(2) by (simp add: trailer_err_def stream_trailer_def stream_final_def Let_def)
next
  case (Some e)
  let ?t = "api_codes (env_api (se_http se))" and ?st = "error_status (env_api (se_http se)) e"
  have wire: "wire_code ?t OK" "wire_code ?t (st_code ?st)"
    using assms(1) Some by (simp_all add: good_stream_def Let_def)
  have "code_num ?t (st_code ?st) \<noteq> code_num ?t OK"
    using wire error_status_not_OK [of "env_api (se_http se)" e] unfolding wire_code_def by metis
  with Some wire assms(2) show ?thesis
    by (simp add: trailer_err_def stream_trailer_def stream_final_def Let_def wire_code_def)
qed

lemma served_complete:
  assumes env: "k_http K = se_http se" "stream_media (se_http se)"
      "GetCodecV2 (se_http se) (codecName opts) = Some (codec opts)"
      "codecName opts = protoName \<or> codecName opts = jsonCodecName"
    and cdc: "message_codec (codec opts)"
    and good: "good_stream se opts (ops, err)"
    and w: "rw_status w = Some 200"
      "rw_body w = response_bytes se opts (sent_msgs ops) (stream_trailer se (trailer_mds ops) err)"
      "rw_sent w = add_headers (h_set [] ''Content-Type'' (io_type (server_io se opts))) (header_mds ops)"
    and reply: "reply_carried w rp"
  obtains val ms md where
    "complete_reply K (Inr rp) val ms (stream_trailer se (trailer_mds ops) err)" "map val ms = sent_msgs ops"
    "asMetadata (rp_Header rp) = Inr md"
    "\<And>k. mget (md_joined (header_mds ops)) k \<noteq> [] \<Longrightarrow> mget md k = mget (md_joined (header_mds ops)) k"
proof -
  let ?tr = "stream_trailer se (trailer_mds ops) err" and ?marshal = "marshal_msg (se_nil se) (codec opts)"
  obtain tb where tb: "?marshal (WTrailer ?tr) = Inr tb" "payload_ok opts True tb"
      "c_UnmarshalTrailer (codec opts) tb = Inr ?tr"
    using good by (auto simp: good_stream_def Let_def split: sum.splits)
  have msgs: "\<forall>m \<in> set (sent_msgs ops). \<exists>b. ?marshal (WMsg (Some m)) = Inr b \<and> payload_ok opts False b"
    using good by (intro sent_payloads) (simp add: good_stream_def)
  have mds: "stream_mds (header_mds ops)" using good by (simp add: good_stream_def)
  have ct: "field_value (io_type (server_io se opts))" "io_type (server_io se opts) \<noteq> []"
    by (simp_all add: server_io_def) (simp_all add: content_types)
  have final: "final_response w = w" using w(1) by (simp add: final_response_def)
  have rp: "rp_StatusCode rp = 200" "carried (rw_sent w) (rp_Header rp)" "rp_Body rp = rd (rw_body w) EOF"
    using reply w(1) unfolding reply_carried_def final by simp_all
  note header = stream_response_header [OF mds ct rp(2) [unfolded w(3)] rp(1)]
  from header(2) obtain md where md: "asMetadata (rp_Header rp) = Inr md"
    "\<And>k. mget (md_joined (header_mds ops)) k \<noteq> [] \<Longrightarrow> mget md k = mget (md_joined (header_mds ops)) k" by blast
  have str: "streaming K (Inr rp) (client_in opts) (rp_Body rp)"
    using header(3,4) client_in_selected [OF env(2-4)] env(1) by (simp add: streaming_def)
  have "\<exists>val. complete_reply K (Inr rp) val (map (wire_of ?marshal) (sent_msgs ops)) ?tr \<and>
      map val (map (wire_of ?marshal) (sent_msgs ops)) = sent_msgs ops"
  proof (cases "codecName opts = jsonCodecName")
    case True
    with rp(3) w(2) have "rp_Body rp = rd (sse_writer.stream_body ?marshal (sent_msgs ops) ?tr) EOF"
      by (simp add: response_bytes_def)
    from sse_format.response_complete [OF str _ _ md(1) this _ _ cdc tb(1) _ tb(3)] True msgs tb(2)
    show ?thesis by (simp add: client_in_def payload_ok_def)
  next
    case False
    with rp(3) w(2) have "rp_Body rp = rd (sp_writer.stream_body ?marshal (sent_msgs ops) ?tr) EOF"
      by (simp add: response_bytes_def)
    from sp_format.response_complete [OF str _ _ md(1) this _ _ cdc tb(1) _ tb(3)] False msgs tb(2)
    show ?thesis by (simp add: client_in_def payload_ok_def)
  qed
  with md that show ?thesis by blast
qed

subsection \<open>The request's body\<close>

definition request_encode :: "'m channel_opts \<Rightarrow> bytes \<Rightarrow> bytes" where
  "request_encode opts = (if codecName opts = jsonCodecName then json_encode False else sp_encode False)"

definition request_ok :: "'m channel_opts \<Rightarrow> bytes \<Rightarrow> bool" where
  "request_ok opts = (if codecName opts = jsonCodecName then json_ok False else sp_ok False)"

lemma write_bytes_None: "write_bytes b w = (None, w1) \<Longrightarrow> wr_out w1 = wr_out w @ b"
  by (auto simp: write_bytes_def split: option.splits if_splits)

lemma newSizePrefixedWriter_None:
  "newSizePrefixedWriter marshal m False w = (None, w1) \<Longrightarrow>
   \<exists>b. marshal m = Inr b \<and> wr_out w1 = wr_out w @ sp_encode False b"
  by (auto simp: newSizePrefixedWriter_def writeProtoMessage_def writeSizePreface_def Let_def sp_encode_def
      dest!: write_bytes_None split: sum.splits if_splits prod.splits option.splits)

lemma newJSONWriter_None:
  "newJSONWriter marshal m False w = Ret (None, w1) \<Longrightarrow>
   \<exists>b. marshal m = Inr b \<and> wr_out w1 = wr_out w @ json_encode False b"
  by (auto simp: newJSONWriter_def json_encode_def dest!: write_bytes_None split: sum.splits)

text \<open>The channel's writer writes the encoded payloads, and never panics for a message.\<close>

lemma client_writer:
  fixes opts :: "'m channel_opts" and out_md :: "md option" and t :: "64 word option" and nil_err :: goerr
  defines "put \<equiv> snd (getHeadersAndWriterForClientStreamingRequest out_md t nil_err opts)"
  shows "writes_as put (request_encode opts) (\<lambda>m. payload_of (marshal_msg nil_err (codec opts)) (WMsg m))"
    and "\<not> panics (put (WMsg m) False w)"
proof -
  show "writes_as put (request_encode opts) (\<lambda>m. payload_of (marshal_msg nil_err (codec opts)) (WMsg m))"
    unfolding writes_as_def put_def getHeadersAndWriterForClientStreamingRequest_def Let_def
    by (auto simp: request_encode_def payload_of_def dest!: newSizePrefixedWriter_None newJSONWriter_None
        split: if_splits)
  show "\<not> panics (put (WMsg m) False w)"
    unfolding put_def getHeadersAndWriterForClientStreamingRequest_def Let_def
    by (simp add: newJSONWriter_def split: sum.splits)
qed

lemma request_reachable:
  assumes "http_reachable K reply (newClientStream rs copts mem) s" and "writes_as (k_writer K) enc payload"
  shows "request_inv enc payload s"
  using assms(1) unfolding http_reachable_def
proof (induction rule: rtranclp_induct)
  case base
  then show ?case by (simp add: request_inv_def newClientStream_def)
next
  case (step s s')
  then show ?case using request_inv_step [OF _ assms(2)] by blast
qed

text \<open>Successive calls of the server's \<open>RecvMsg\<close>.\<close>

fun hs_recvs :: "'m stream_io \<Rightarrow> 'm \<Rightarrow> nat \<Rightarrow> http_sstream \<Rightarrow> (goerr + 'm) list" where
  "hs_recvs sio m 0 s = []"
| "hs_recvs sio m (Suc n) s = (case hs_RecvMsg sio m s of (x, s1) \<Rightarrow> x # hs_recvs sio m n s1)"

context framing
begin

definition frames_of :: "bytes list \<Rightarrow> bytes" where
  "frames_of ps = concat (map (encode False) ps)"

lemma hs_recvs_end:
  assumes "io_read sio = decode" and "hs_respStream s" and "hs_r s = rd [] e"
  shows "hs_recvs sio m j s = replicate j (Inl e)"
  using assms(2,3)
proof (induction j arbitrary: s)
  case (Suc j)
  have "hs_RecvMsg sio m s = (Inl e, s\<lparr>hs_recvd := hs_recvd s + 1, hs_r := rd [] e\<rparr>)"
    using Suc.prems assms(1) by (simp add: hs_RecvMsg_def decode_end)
  with Suc show ?case by simp
qed simp

text \<open>A stream of requests.\<close>

lemma hs_recvs_stream:
  assumes "io_read sio = decode" and "hs_respStream s"
    and "hs_r s = rd (frames_of (map p ms)) e"
    and "\<forall>x \<in> set ms. ok False (p x) \<and> (\<forall>out. c_Unmarshal (io_codec sio) (p x) out = Inr x)"
  shows "hs_recvs sio m (length ms + j) s = map Inr ms @ replicate j (Inl e)"
  using assms(2-4)
proof (induction ms arbitrary: s)
  case Nil
  then show ?case using hs_recvs_end [OF assms(1)] by (simp add: frames_of_def)
next
  case (Cons x ms)
  have "hs_RecvMsg sio m s =
      (Inr x, s\<lparr>hs_recvd := hs_recvd s + 1, hs_r := rd (frames_of (map p ms)) e\<rparr>)"
    using Cons.prems assms(1) by (simp add: hs_RecvMsg_def frames_of_def decode_encode decode_msg_def)
  with Cons show ?case by simp
qed

text \<open>A single request.\<close>

lemma hs_RecvMsg_single:
  assumes "io_read sio = decode" and "\<not> hs_respStream s" and "hs_recvd s = 0"
    and "hs_r s = rd (frames_of (map p ms)) EOF"
    and "\<forall>x \<in> set ms. ok False (p x) \<and> (\<forall>out. c_Unmarshal (io_codec sio) (p x) out = Inr x)"
  obtains s1 where "hs_RecvMsg sio m s =
      (case ms of [] \<Rightarrow> Inl EOF | [x] \<Rightarrow> Inr x | _ \<Rightarrow> Inl too_many_requests_err, s1)"
    "\<not> hs_respStream s1" "hs_recvd s1 = 1"
proof (cases ms)
  case Nil
  with assms that show ?thesis by (simp add: hs_RecvMsg_def frames_of_def decode_end)
next
  case (Cons x xs)
  show ?thesis
  proof (cases xs)
    case Nil
    with Cons assms that show ?thesis
      by (simp add: hs_RecvMsg_def frames_of_def decode_encode [where rest = "[]", simplified] decode_end
          decode_msg_def)
  next
    case (Cons y ys)
    with \<open>ms = x # xs\<close> assms that show ?thesis
      by (simp add: hs_RecvMsg_def frames_of_def decode_encode decode_msg_def)
  qed
qed

lemma hs_recvs_single:
  assumes "io_read sio = decode" and "\<not> hs_respStream s" and "hs_recvd s = 0"
    and "hs_r s = rd (frames_of (map p ms)) EOF"
    and "\<forall>x \<in> set ms. ok False (p x) \<and> (\<forall>out. c_Unmarshal (io_codec sio) (p x) out = Inr x)"
  shows "hs_recvs sio m (Suc j) s =
    (case ms of [] \<Rightarrow> Inl EOF | [x] \<Rightarrow> Inr x | _ \<Rightarrow> Inl too_many_requests_err) # replicate j (Inl EOF)"
proof -
  obtain s1 where s1: "hs_RecvMsg sio m s =
      (case ms of [] \<Rightarrow> Inl EOF | [x] \<Rightarrow> Inr x | _ \<Rightarrow> Inl too_many_requests_err, s1)"
    "\<not> hs_respStream s1" "hs_recvd s1 = 1"
    by (rule hs_RecvMsg_single [OF assms])
  have "hs_recvs sio m j s1 = replicate j (Inl EOF)"
    using s1(2,3) by (induction j) (simp_all add: hs_RecvMsg_def)
  with s1(1) show ?thesis by simp
qed

end

end
