(* ===== verification/Http_Stream_Properties.thy ===== *)
theory Http_Stream_Properties
  imports Http_Stream_Call
begin

text \<open>
  The properties of streaming calls over HTTP, with a concrete service for the witnesses.
\<close>

lemma NewStream_parts:
  assumes "http_NewStream env iv nil_err peer ch out_md t mth rs copts mem = Inr (K, s0)"
  obtains opts out where "channelOptions env ch = Inr opts"
    "ApplyPerRPCCreds (iv_md iv) out_md (GetCallOptions copts)
       (iv_url iv (the (ch_BaseURL ch)) mth) (iv_secure iv) = Inr out"
    "s0 = newClientStream rs (GetCallOptions copts) mem" "k_http K = env" "k_details K = codec opts"
    "k_writer K = snd (getHeadersAndWriterForClientStreamingRequest out t nil_err opts)"
    "k_header K = fst (getHeadersAndWriterForClientStreamingRequest out t nil_err opts)"
  using assms by (auto simp: http_NewStream_def Let_def split: sum.splits option.splits prod.splits)

lemma outgoing_stream_headers:
  "fst (getHeadersAndWriterForClientStreamingRequest out t nil_err opts) =
   fst (getHeadersAndWriterForClientStreamingRequest (Some (outgoing out)) t nil_err opts)"
  by (simp add: stream_headers_eq headersFromContext_eq outgoing_def split: option.splits)

lemma NewStream_header:
  assumes "http_NewStream env iv nil_err peer ch out_md t mth rs copts mem = Inr (K, s0)"
    and "channelOptions env ch = Inr opts"
    and "ApplyPerRPCCreds (iv_md iv) out_md (GetCallOptions copts)
        (iv_url iv (the (ch_BaseURL ch)) mth) (iv_secure iv) = Inr out"
  shows "k_header K = fst (getHeadersAndWriterForClientStreamingRequest (Some (outgoing out)) t nil_err opts)"
  using assms outgoing_stream_headers [of out t nil_err opts]
  by (auto simp: http_NewStream_def Let_def split: option.splits prod.splits)

text \<open>A channel whose codec is one of the two registered ones.\<close>

definition stream_channel :: "'m http_env \<Rightarrow> 'm http_channel \<Rightarrow> 'm channel_opts \<Rightarrow> bool" where
  "stream_channel env ch opts \<longleftrightarrow>
     channelOptions env ch = Inr opts \<and> GetCodecV2 env (codecName opts) = Some (codec opts) \<and>
     (codecName opts = protoName \<or> codecName opts = jsonCodecName) \<and> stream_media env \<and>
     message_codec (codec opts)"

subsection \<open>A concrete service\<close>

text \<open>A codec for small numbers and for trailers without metadata and details.\<close>

definition number_codec :: "nat wire_codec" where
  "number_codec = square_codec\<lparr>
     c_MarshalTrailer := (\<lambda>t. if tr_Metadata t = [] \<and> tr_Details t = [] \<and> 0 \<le> tr_Code t \<and> tr_Code t < 256
        then Inr (of_int (tr_Code t) # bytes_of (tr_Message t)) else Inl (OtherErr ''unsupported'')),
     c_UnmarshalTrailer := (\<lambda>b. case b of
        [] \<Rightarrow> Inl (OtherErr ''bad length'', \<lparr>tr_Metadata = [], tr_Code = 0, tr_Message = '''', tr_Details = []\<rparr>)
      | c # msg \<Rightarrow> Inr \<lparr>tr_Metadata = [], tr_Code = uint c, tr_Message = string_of msg, tr_Details = []\<rparr>)\<rparr>"

definition number_http :: "nat http_env" where
  "number_http = \<lparr>parse_media = id, GetCodecV2 = (\<lambda>n. if n = protoName then Some number_codec else None),
     env_api = demo_api\<rparr>"

definition number_opts :: "nat channel_opts" where
  "number_opts = \<lparr>codecName = protoName, codec = number_codec\<rparr>"

definition number_channel :: "nat http_channel" where
  "number_channel = \<lparr>ch_BaseURL = Some ''http://host'', ch_Transport = True, ch_opts = Some number_opts\<rparr>"

definition number_se :: "nat stream_env" where
  "number_se = \<lparr>se_http = number_http, se_nil = OtherErr ''nil'', se_flush = None,
     se_md = \<lparr>md_New = (\<lambda>_. []), md_Join = concat\<rparr>, se_after = closed_body\<rparr>"

text \<open>Reads up to \<open>n\<close> requests and then answers with their squares: half-duplex, as HTTP 1.1
  requires.\<close>

fun answer_all :: "nat list \<Rightarrow> goerr option \<Rightarrow> nat handler" where
  "answer_all [] err = HReturn err"
| "answer_all (x # xs) err = HCall (OpSendMsg (Some (x * x))) (\<lambda>_. answer_all xs err)"

fun square_all :: "nat \<Rightarrow> nat list \<Rightarrow> nat handler" where
  "square_all 0 xs = answer_all xs (Some (status_error ResourceExhausted ''enough''))"
| "square_all (Suc n) xs =
     HRecv 0 (\<lambda>x. case x of
                    Inl e \<Rightarrow> answer_all xs (if e = EOF then None else Some e)
                  | Inr v \<Rightarrow> square_all n (xs @ [v]))"

text \<open>Answers each of the first \<open>n\<close> requests with its square, before it reads the next one.\<close>

fun square_stream :: "nat \<Rightarrow> nat handler" where
  "square_stream 0 = HReturn (Some (status_error ResourceExhausted ''enough''))"
| "square_stream (Suc n) =
     HRecv 0 (\<lambda>x. case x of
                    Inl e \<Rightarrow> HReturn (if e = EOF then None else Some e)
                  | Inr v \<Rightarrow> HCall (OpSendMsg (Some (v * v))) (\<lambda>_. square_stream n))"

definition square_desc :: "(unit, server_ctx, nat handler) stream_handler stream_desc" where
  "square_desc = \<lparr>StreamName = ''Squares'',
     sd_handler = (\<lambda>svr ctx. HCall (OpSetHeader [(''h'', [''1''])]) (\<lambda>_. square_all (Suc (Suc (Suc 0))) [])),
     ServerStreams = True, ClientStreams = True\<rparr>"

definition interleaved_desc :: "(unit, server_ctx, nat handler) stream_handler stream_desc" where
  "interleaved_desc = square_desc\<lparr>sd_handler := (\<lambda>svr ctx. square_stream (Suc (Suc (Suc 0))))\<rparr>"

definition number_call :: "(nat, string) http_call \<times> (nat, string) http_cstream" where
  "number_call = projr (http_NewStream number_http demo_invoke (OtherErr ''nil'') ''peer'' number_channel None None
     ''/svc/Squares'' True [] no_mem)"

definition number_request :: http_request where
  "number_request = \<lparr>rq_Method = ''POST'',
     rq_Header = [(''Content-Type'', [StreamRpcContentType_V1]), (''Accept'', [StreamRpcContentType_V1])],
     rq_Body = rd (sp_encode False [2] @ sp_encode False [3]) EOF, rq_ctx_err = None\<rparr>"

definition number_response :: response_writer where
  "number_response = (case handleStream number_se () ''svc'' square_desc None None number_request of
     Ret w \<Rightarrow> w | Panic _ \<Rightarrow> new_response)"

lemma number_NewStream:
  "http_NewStream number_http demo_invoke (OtherErr ''nil'') ''peer'' number_channel None None
     ''/svc/Squares'' True [] no_mem = Inr (fst number_call, snd number_call)"
  "snd number_call = newClientStream True no_call_options no_mem" "k_http (fst number_call) = number_http"
  by (simp_all add: number_call_def http_NewStream_def channelOptions_def number_channel_def checkChannelParams_def
      GetCallOptions_def ApplyPerRPCCreds_def no_call_options_def demo_invoke_def Let_def split: prod.splits)

lemma number_codec_laws: "message_codec number_codec"
  using square_codec_laws(1) by (simp add: message_codec_def number_codec_def)

lemma number_stream_channel: "stream_channel number_http number_channel number_opts"
  by (simp add: stream_channel_def channelOptions_def number_channel_def checkChannelParams_def number_opts_def
      number_http_def number_codec_laws stream_media_def)

lemma number_reads:
  "newSizePrefixedReader (rd (sp_encode False [2] @ sp_encode False [3]) EOF) =
     (Inr \<lparr>sm_data = [2], sm_isTrailer = False\<rparr>, rd (sp_encode False [3]) EOF)"
  "newSizePrefixedReader (rd (sp_encode False [3]) EOF) =
     (Inr \<lparr>sm_data = [3], sm_isTrailer = False\<rparr>, rd [] EOF)"
  "newSizePrefixedReader (rd [] EOF) = (Inl EOF, rd [] EOF)"
  using size_prefixed.decode_encode [of False "[2]" "sp_encode False [3]" EOF]
    size_prefixed.decode_encode [of False "[3]" "[]" EOF] size_prefixed.decode_end [of EOF]
  by (simp_all add: sp_ok_def maxMessageSize_def)

lemma number_sends:
  "n < 256 \<Longrightarrow> newSizePrefixedWriter (marshal_msg e number_codec) (WMsg (Some n)) False \<lparr>wr_out = [], wr_room = None\<rparr> =
     (None, \<lparr>wr_out = sp_encode False [of_nat n], wr_room = None\<rparr>)"
  by (subst sp_writer.put_ok [where b = "[of_nat n]"])
    (simp_all add: number_codec_def square_codec_def sp_ok_def maxMessageSize_def)

lemma number_unmarshal:
  "c_Unmarshal number_codec [w] out = Inr (unat w)" "c_Marshal number_codec m = c_Marshal square_codec m"
  by (simp_all add: number_codec_def square_codec_def)

lemma number_io:
  "io_read (server_io number_se number_opts) = newSizePrefixedReader"
  "io_write (server_io number_se number_opts) = newSizePrefixedWriter (marshal_msg (OtherErr ''nil'') number_codec)"
  "io_codec (server_io number_se number_opts) = number_codec"
  by (simp_all add: server_io_def number_opts_def number_se_def protoName_def jsonCodecName_def)

lemma number_sent:
  "hs_SendMsg (server_io number_se number_opts) (Some 4) s =
     (None, (s\<lparr>hs_headersSent := True, hs_w := rw_Write (sp_encode False [4]) (hs_w s),
       hs_r := hs_after s (hs_r s)\<rparr>))"
  "hs_SendMsg (server_io number_se number_opts) (Some 9) s =
     (None, (s\<lparr>hs_headersSent := True, hs_w := rw_Write (sp_encode False [9]) (hs_w s),
       hs_r := hs_after s (hs_r s)\<rparr>))"
  if "\<not> hs_writeFailed s" "hs_room s = None"
  using that number_sends [of 4 "OtherErr ''nil''"] number_sends [of 9 "OtherErr ''nil''"]
  by (simp_all add: hs_SendMsg_def stream_write_def number_io sp_encode_def)

lemma number_ran:
  "stream_run () ''svc'' square_desc None (server_io number_se number_opts) (rq_Body number_request) ctx =
     ([OpSetHeader [(''h'', [''1''])], OpSendMsg (Some 4), OpSendMsg (Some 9)], None)"
  by (simp add: stream_run_def square_desc_def number_request_def hs_RecvMsg_def number_reads number_sent
      hs_SetHeader_def hs_setHeader_def decode_msg_def number_io number_unmarshal Let_def)

text \<open>The handler that answers before it reads on: its second read fails over HTTP 1.1, and so
  does the call; where the body stays open it answers both requests.\<close>

lemma interleaved_read_fails:
  "stream_run () ''svc'' interleaved_desc None (server_io number_se number_opts) (rq_Body number_request) ctx =
     ([OpSendMsg (Some 4)], Some (OtherErr ''http: invalid Read on closed Body''))"
  "stream_run () ''svc'' interleaved_desc None (server_io (number_se\<lparr>se_after := open_body\<rparr>) number_opts)
      (rq_Body number_request) ctx = ([OpSendMsg (Some 4), OpSendMsg (Some 9)], None)"
proof -
  have io: "server_io (number_se\<lparr>se_after := open_body\<rparr>) number_opts = (server_io number_se number_opts)\<lparr>io_after := open_body\<rparr>"
    by (simp add: server_io_def number_se_def)
  have sent: "hs_SendMsg (sio\<lparr>io_after := f\<rparr>) m s = hs_SendMsg sio m s"
    "hs_RecvMsg (sio\<lparr>io_after := f\<rparr>) d s = hs_RecvMsg sio d s" for f m s d and sio :: "nat stream_io"
    by (simp_all add: hs_SendMsg_def stream_write_def hs_RecvMsg_def Let_def split: sum.split prod.split)
  have after: "io_after (server_io number_se number_opts) = closed_body" by (simp add: server_io_def number_se_def)
  show "stream_run () ''svc'' interleaved_desc None (server_io number_se number_opts) (rq_Body number_request) ctx =
     ([OpSendMsg (Some 4)], Some (OtherErr ''http: invalid Read on closed Body''))"
    using size_prefixed.decode_end [of "OtherErr ''http: invalid Read on closed Body''"]
    by (simp add: stream_run_def interleaved_desc_def square_desc_def number_request_def hs_RecvMsg_def number_reads
        number_sent decode_msg_def number_io number_unmarshal Let_def after closed_body_def)
  show "stream_run () ''svc'' interleaved_desc None (server_io (number_se\<lparr>se_after := open_body\<rparr>) number_opts)
      (rq_Body number_request) ctx = ([OpSendMsg (Some 4), OpSendMsg (Some 9)], None)"
    unfolding io
    by (simp add: stream_run_def interleaved_desc_def square_desc_def number_request_def sent hs_RecvMsg_def
        number_reads number_sent decode_msg_def number_io number_unmarshal Let_def open_body_def)
qed

lemma number_good:
  "good_stream number_se number_opts ([OpSetHeader [(''h'', [''1''])], OpSendMsg (Some 4), OpSendMsg (Some 9)], None)"
proof -
  have "stream_mds [[(''h'', [''1''])]]" by code_simp
  moreover have "wire_code grpc_codes OK" by (simp add: wire_code_grpc_codes)
  moreover have "code_num grpc_codes OK = 0" by code_simp
  ultimately show ?thesis
    by (auto simp: good_stream_def sends_ok_def number_se_def number_opts_def number_codec_def square_codec_def
        stream_trailer_def number_http_def demo_api_def payload_ok_def sp_ok_def maxMessageSize_def
        asTrailerProto_def protoName_def jsonCodecName_def)
qed

lemma number_carried: "carried (k_header (fst number_call)) (rq_Header number_request)"
proof -
  have "k_header (fst number_call) = rq_Header number_request" by code_simp
  moreover have "sendable (rq_Header number_request)" by code_simp
  ultimately show ?thesis by (simp add: carried_refl)
qed

lemma number_served:
  "handleStream number_se () ''svc'' square_desc None None number_request = Ret number_response"
  "rw_status number_response = Some 200"
  "rw_body number_response = response_bytes number_se number_opts [4, 9] (stream_trailer number_se [] None)"
  "rw_sent number_response = add_headers (h_set [] ''Content-Type'' StreamRpcContentType_V1) [[(''h'', [''1''])]]"
proof -
  have req: "rq_Method number_request = ''POST''" by (simp add: number_request_def)
  obtain ctx where ctx: "contextFromHeaders (rq_Header number_request) = Inr ctx"
  proof (cases "contextFromHeaders (rq_Header number_request)")
    case (Inl e)
    moreover have "\<not> isl (contextFromHeaders (rq_Header number_request))" by code_simp
    ultimately show ?thesis by simp
  qed
  have ct: "h_get (rq_Header number_request) ''Content-Type'' = stream_type number_opts" by code_simp
  have sel: "getServerStreamReaderAndWriter number_se (h_get (rq_Header number_request) ''Content-Type'') =
      Ret (Some (server_io number_se number_opts))"
    unfolding ct by (rule server_io_selected)
      (use number_stream_channel in \<open>simp_all add: stream_channel_def number_se_def\<close>)
  have ty: "io_type (server_io number_se number_opts) = StreamRpcContentType_V1" by code_simp
  obtain w where "handleStream number_se () ''svc'' square_desc None None number_request = Ret w"
    "rw_status w = Some 200" "rw_body w = response_bytes number_se number_opts [4, 9] (stream_trailer number_se [] None)"
    "rw_sent w = add_headers (h_set [] ''Content-Type'' StreamRpcContentType_V1) [[(''h'', [''1''])]]"
    by (rule served_response [OF req sel ctx number_ran number_good]) (simp add: ty)
  moreover from this(1) have "w = number_response" by (simp add: number_response_def)
  ultimately show "handleStream number_se () ''svc'' square_desc None None number_request = Ret number_response"
    "rw_status number_response = Some 200"
    "rw_body number_response = response_bytes number_se number_opts [4, 9] (stream_trailer number_se [] None)"
    "rw_sent number_response = add_headers (h_set [] ''Content-Type'' StreamRpcContentType_V1) [[(''h'', [''1''])]]"
    by simp_all
qed

lemma number_replied: "reply_carried number_response (loopback_reply number_response)"
proof -
  have "sendable (rw_sent number_response)" unfolding number_served(4) by code_simp
  with number_served(2) show ?thesis
    by (simp add: reply_carried_def loopback_reply_def Let_def carried_refl final_response_def)
qed

text \<open>The client's call can run to its end.\<close>

lemma number_complete:
  obtains val ms where "complete_reply (fst number_call) (Inr (loopback_reply number_response)) val ms
      (stream_trailer number_se [] None)" "map val ms = [4, 9]"
proof -
  have env: "k_http (fst number_call) = se_http number_se" "stream_media (se_http number_se)"
      "GetCodecV2 (se_http number_se) (codecName number_opts) = Some (codec number_opts)"
      "codecName number_opts = protoName \<or> codecName number_opts = jsonCodecName" "message_codec (codec number_opts)"
    using number_stream_channel number_NewStream(3) by (simp_all add: stream_channel_def number_se_def)
  have "io_type (server_io number_se number_opts) = StreamRpcContentType_V1" by code_simp
  with number_served(3,4) have w:
    "rw_body number_response = response_bytes number_se number_opts
       (sent_msgs [OpSetHeader [(''h'', [''1''])], OpSendMsg (Some 4), OpSendMsg (Some 9)])
       (stream_trailer number_se (trailer_mds [OpSetHeader [(''h'', [''1''])], OpSendMsg (Some 4), OpSendMsg (Some 9)]) None)"
    "rw_sent number_response = add_headers (h_set [] ''Content-Type'' (io_type (server_io number_se number_opts)))
       (header_mds [OpSetHeader [(''h'', [''1''])], OpSendMsg (Some 4), OpSendMsg (Some 9)])"
    by simp_all
  show ?thesis
    by (rule served_complete [OF env number_good number_served(2) w number_replied]) (rule that, simp_all)
qed

lemma number_finishes:
  "can_go (fst number_call) (Inr (loopback_reply number_response)) (snd number_call)
     (finished (fst number_call) (stream_trailer number_se [] None))"
proof -
  obtain val ms where complete: "complete_reply (fst number_call) (Inr (loopback_reply number_response)) val ms
      (stream_trailer number_se [] None)" by (rule number_complete)
  have "running (fst number_call) (Inr (loopback_reply number_response)) val ms
      (stream_trailer number_se [] None) (snd number_call)"
    unfolding number_NewStream(2) running_def
    using call_inv_start by (auto simp: newClientStream_def stream_inv_def)
  with stream_finishes [OF complete] show ?thesis by blast
qed

subsection \<open>The call\<close>

text \<open>C16. A streaming call over HTTP from end to end, for either format. Let a request with the headers of
  \<open>NewStream\<close> reach \<open>handleStream\<close>, and let its response reach the client. The handler runs on the
  body of the request as the connection provides it: once it has begun to answer, its reads get
  what \<open>se_after\<close> leaves of the body, which over HTTP 1.1 is an error
  (\<open>interleaved_read_fails\<close>), so that full-duplex handlers fail there, and over HTTP 2 all of it. Then in every
  interleaving of \<open>doHttpCall\<close> with the caller, as long as the context is not done, the calls
  of \<open>RecvMsg\<close> have returned the messages that the handler sent, in order and from the first
  on, and after the last of them the handler's status, or \<open>io.EOF\<close> when it succeeded; from then
  on \<open>Trailer\<close> gives the handler's trailers, and \<open>Header\<close>, once it returns, its headers. The
  handler has seen the client's metadata and its deadline.\<close>

theorem http_stream_call:
  assumes "http_NewStream env iv nil_err peer ch out_md time_left mth True copts mem = Inr (K, s0)"
    and "stream_channel env ch opts"
    and "ApplyPerRPCCreds (iv_md iv) out_md (GetCallOptions copts)
        (iv_url iv (the (ch_BaseURL ch)) mth) (iv_secure iv) = Inr out"
    and "valid_md (outgoing out)" and "''grpc-timeout'' \<notin> fst ` set (outgoing out)"
    and "''accept'' \<notin> fst ` set (outgoing out)"
    and "se_http se = env" and "se_flush se = None"
    and "rq_Method r = ''POST''" and "carried (k_header K) (rq_Header r)"
    and "\<forall>ctx. good_stream se opts (stream_run svr svc desc streamInt (server_io se opts) (rq_Body r) ctx)"
    and "handleStream se svr svc desc streamInt None r = Ret w" and "reply_carried w rp"
    and "http_reachable K (Inr rp) s0 s" and "hc_ctx s = None"
  shows "\<exists>ctx ops err k j.
    stream_run svr svc desc streamInt (server_io se opts) (rq_Body r) ctx = (ops, err) \<and>
    (\<forall>k. mget (outgoing out) k \<noteq> [] \<longrightarrow> mget (sc_md ctx) k = mget (outgoing out) k) \<and>
    sc_timeout ctx = map_option (\<lambda>d. word_of_int (timeout_millis d) * 1000000) time_left \<and>
    hc_results s = map Inr (take k (sent_msgs ops)) @ replicate j (Inl (stream_final (env_api env) err)) \<and>
    (0 < j \<longrightarrow> k = length (sent_msgs ops) \<and>
       hc_Trailer s = Some (metadataFromProto (asTrailerProto (md_Join (se_md se) (trailer_mds ops))))) \<and>
    (hc_Header s \<noteq> None \<longrightarrow>
       (\<exists>md. hc_Header s = Some (Some md, None) \<and>
          (\<forall>k. mget (md_joined (header_mds ops)) k \<noteq> [] \<longrightarrow>
             mget md k = mget (md_joined (header_mds ops)) k)))"
proof -
  have ch: "channelOptions env ch = Inr opts" "GetCodecV2 env (codecName opts) = Some (codec opts)"
    "codecName opts = protoName \<or> codecName opts = jsonCodecName" "stream_media env" "message_codec (codec opts)"
    using assms(2) by (simp_all add: stream_channel_def)
  have K: "s0 = newClientStream True (GetCallOptions copts) mem" "k_http K = env"
    "k_header K = fst (getHeadersAndWriterForClientStreamingRequest (Some (outgoing out)) time_left nil_err opts)"
    by (rule NewStream_parts [OF assms(1)], simp, rule NewStream_parts [OF assms(1)], simp)
      (rule NewStream_header [OF assms(1) ch(1) assms(3)])
  obtain ctx where ctx: "contextFromHeaders (rq_Header r) = Inr ctx"
    "\<And>k. mget (outgoing out) k \<noteq> [] \<Longrightarrow> mget (sc_md ctx) k = mget (outgoing out) k"
    "sc_timeout ctx = map_option (\<lambda>d. word_of_int (timeout_millis d) * 1000000) time_left"
    "h_get (rq_Header r) ''Content-Type'' = stream_type opts"
    by (rule stream_request_context [OF assms(4-6) assms(10) [unfolded K(3)]]) (rule that)
  obtain ops err where run: "stream_run svr svc desc streamInt (server_io se opts) (rq_Body r) ctx = (ops, err)"
    by fastforce
  with assms(11) have good: "good_stream se opts (ops, err)" by metis
  have sio: "getServerStreamReaderAndWriter se (h_get (rq_Header r) ''Content-Type'') = Ret (Some (server_io se opts))"
    unfolding ctx(4) using ch assms(7,8) by (intro server_io_selected) simp_all
  from served_response [OF assms(9) sio ctx(1) run good] assms(12) have w: "rw_status w = Some 200"
    "rw_body w = response_bytes se opts (sent_msgs ops) (stream_trailer se (trailer_mds ops) err)"
    "rw_sent w = add_headers (h_set [] ''Content-Type'' (io_type (server_io se opts))) (header_mds ops)"
    by fastforce+
  have env: "k_http K = se_http se" "stream_media (se_http se)"
    "GetCodecV2 (se_http se) (codecName opts) = Some (codec opts)" using K(2) ch assms(7) by simp_all
  obtain val ms md where complete:
    "complete_reply K (Inr rp) val ms (stream_trailer se (trailer_mds ops) err)" "map val ms = sent_msgs ops"
    "asMetadata (rp_Header rp) = Inr md"
    "\<And>k. mget (md_joined (header_mds ops)) k \<noteq> [] \<Longrightarrow> mget md k = mget (md_joined (header_mds ops)) k"
    by (rule served_complete [OF env ch(3,5) good w assms(13)]) (rule that)
  obtain k j where kj:
    "hc_results s = map (Inr \<circ> val) (take k ms) @ replicate j (Inl (trailer_err K (stream_trailer se (trailer_mds ops) err)))"
    "0 < j \<Longrightarrow> k = length ms \<and> hc_Trailer s = Some (metadataFromProto (tr_Metadata (stream_trailer se (trailer_mds ops) err)))"
    "hc_Header s \<noteq> None \<Longrightarrow> hc_Header s = Some (Some md, None)"
    by (rule stream_results [OF assms(14) [unfolded K(1)] complete(1) assms(15) refl complete(3)]) (rule that)
  have "map (Inr \<circ> val) (take k ms) = map Inr (take k (sent_msgs ops))" "length ms = length (sent_msgs ops)"
    unfolding complete(2) [symmetric] by (simp_all add: take_map)
  moreover have "tr_Metadata (stream_trailer se mds err) = asTrailerProto (md_Join (se_md se) mds)" for mds
    by (simp add: stream_trailer_def Let_def split: option.splits)
  ultimately show ?thesis
    using run ctx(2,3) kj complete(4) trailer_err_final [OF good env(1)] assms(7)
    by - (rule exI [of _ ctx], rule exI [of _ ops], rule exI [of _ err], rule exI [of _ k], rule exI [of _ j], auto)
qed

theorem http_stream_call_witness:
  "\<exists>s j. http_reachable (fst number_call) (Inr (loopback_reply number_response)) (snd number_call) s \<and>
     hc_results s = [Inr 4, Inr 9] @ replicate (Suc j) (Inl EOF)"
proof -
  let ?K = "fst number_call" and ?reply = "Inr (loopback_reply number_response) :: goerr + http_reply"
  have hyps: "ApplyPerRPCCreds (iv_md demo_invoke) None (GetCallOptions [])
        (iv_url demo_invoke (the (ch_BaseURL number_channel)) ''/svc/Squares'') (iv_secure demo_invoke) = Inr None"
    "valid_md (outgoing None)" "''grpc-timeout'' \<notin> fst ` set (outgoing None)"
    "''accept'' \<notin> fst ` set (outgoing None)" "se_http number_se = number_http" "se_flush number_se = None"
    "rq_Method number_request = ''POST''"
    by (simp_all add: ApplyPerRPCCreds_def GetCallOptions_def no_call_options_def outgoing_def number_se_def
        number_request_def)
  have good: "\<forall>ctx. good_stream number_se number_opts (stream_run () ''svc'' square_desc None
      (server_io number_se number_opts) (rq_Body number_request) ctx)"
    by (simp add: number_ran number_good)
  note call = http_stream_call [OF number_NewStream(1) number_stream_channel hyps(1-7) number_carried good
      number_served(1) number_replied, unfolded number_ran]
  obtain s where s: "http_reachable ?K ?reply (snd number_call) s" "finished ?K (stream_trailer number_se [] None) s"
    using number_finishes by (auto simp: can_go_def)
  then have "hc_ctx s = None" by (simp add: finished_def)
  from call [OF s(1) this] obtain k j where
    kj: "hc_results s = map Inr (take k [4, 9]) @ replicate j (Inl EOF)" "0 < j \<longrightarrow> k = 2"
    unfolding stream_final_def by (elim exE conjE) (rule that, auto)
  have "hc_results s \<noteq> [] \<and> last (hc_results s) = Inl EOF"
    using s(2) trailer_err_final [OF number_good, of ?K "[]"] number_NewStream(3)
    by (simp add: finished_def number_se_def stream_final_def)
  with kj(1) have "j \<noteq> 0" by (cases j) (auto simp: last_map)
  with kj s(1) show ?thesis by (intro exI [of _ s] exI [of _ "j - 1"]) simp
qed

end
