(* ===== verification/Http_Stream_Results.thy ===== *)
theory Http_Stream_Results
  imports Http_Stream_Properties
begin

text \<open>
  More properties of streaming calls over HTTP: what a result of \<open>RecvMsg\<close> says about the reply,
  whatever the reply is; that a complete reply is read to its end; the client's panic; and what the
  server receives.
\<close>

subsection \<open>Success is never made up\<close>

text \<open>The numbers of the codes tell \<open>OK\<close> from the others that an \<open>int32\<close> can stand for.\<close>

definition OK_apart :: "code_table \<Rightarrow> bool" where
  "OK_apart t \<longleftrightarrow>
     (\<forall>stat. codeFromHttpStatus stat \<noteq> OK \<longrightarrow> code_num t (codeFromHttpStatus stat) \<noteq> code_num t OK) \<and>
     (\<forall>n. - (2 ^ 31) \<le> n \<and> n < 2 ^ 31 \<and> code_of_num t n \<noteq> OK \<longrightarrow>
        code_num t (code_of_num t n) \<noteq> code_num t OK)"

lemma named_code_num: "c \<noteq> OK \<Longrightarrow> (\<And>w. c \<noteq> OtherCode w) \<Longrightarrow> code_num grpc_codes c \<noteq> code_num grpc_codes OK"
  by (cases c) (auto simp: grpc_codes_def named_codes_def)

lemma code_of_num_cases:
  obtains (named) "\<And>w. code_of_num grpc_codes n \<noteq> OtherCode w"
  | (other) "code_of_num grpc_codes n = OtherCode (word_of_int n)" "n \<noteq> 0"
proof (cases "map_of (map prod.swap named_codes) n")
  case None
  then have "n \<noteq> 0" by (auto simp: named_codes_def)
  with None show ?thesis by (intro other) (simp_all add: grpc_codes_def)
next
  case (Some c)
  then have "(n, c) \<in> set (map prod.swap named_codes)" by (rule map_of_SomeD)
  then have "\<And>w. c \<noteq> OtherCode w" by (auto simp: named_codes_def)
  with Some show ?thesis by (intro named) (simp add: grpc_codes_def)
qed

lemma OK_apart_grpc_codes: "OK_apart grpc_codes"
  unfolding OK_apart_def
proof (intro conjI allI impI)
  fix stat assume "codeFromHttpStatus stat \<noteq> OK"
  then show "code_num grpc_codes (codeFromHttpStatus stat) \<noteq> code_num grpc_codes OK"
    by (rule named_code_num) (auto simp: codeFromHttpStatus_def split: if_splits)
next
  fix n :: int assume n: "- (2 ^ 31) \<le> n \<and> n < 2 ^ 31 \<and> code_of_num grpc_codes n \<noteq> OK"
  show "code_num grpc_codes (code_of_num grpc_codes n) \<noteq> code_num grpc_codes OK"
  proof (cases n rule: code_of_num_cases)
    case named
    with n show ?thesis by (intro named_code_num) auto
  next
    case other
    have "sint (word_of_int n :: 32 word) = n" using n by (simp add: sint_sbintrunc' signed_take_bit_int_eq_self)
    with other show ?thesis by (simp add: grpc_codes_def named_codes_def)
  qed
qed

lemma parse_int_range: "parse_int s 32 = Some n \<Longrightarrow> - (2 ^ 31) \<le> n \<and> n < 2 ^ 31"
  by (auto simp: parse_int_def Let_def split: if_splits)

lemma statFromResponse_code:
  assumes "statFromResponse api cdc rp = Some st"
  shows "st_code st \<noteq> OK"
    and "(\<exists>stat. st_code st = codeFromHttpStatus stat) \<or>
      (\<exists>s n. parse_int s 32 = Some n \<and> st_code st = code_of_num (api_codes api) n)"
  using assms unfolding statFromResponse_def Let_def
  by (auto split: prod.splits if_splits option.splits) blast+

text \<open>So a failed status line never counts as a success.\<close>

lemma status_end_not_OK:
  assumes "status_end K reply tr" and "OK_apart (api_codes (env_api (k_http K)))"
  shows "tr_Code tr \<noteq> code_num (api_codes (env_api (k_http K))) OK"
proof -
  let ?t = "api_codes (env_api (k_http K))"
  from assms(1) obtain rp st where st: "statFromResponse (env_api (k_http K)) (k_details K) rp = Some st"
    "tr_Code tr = code_num ?t (st_code st)" by (auto simp: status_end_def)
  note code = statFromResponse_code [OF st(1)]
  with assms(2) parse_int_range have "code_num ?t (st_code st) \<noteq> code_num ?t OK"
    unfolding OK_apart_def by metis
  with st(2) show ?thesis by simp
qed

text \<open>C19. A streaming call over HTTP never reports a clean end that the server did not send. If some
  call of \<open>RecvMsg\<close> has returned \<open>io.EOF\<close>, then the round trip itself failed with \<open>io.EOF\<close>, or the
  reply's body has been read through to a trailer with code \<open>OK\<close>, and every message before that
  trailer was handed to the caller. A body that ends early, a trailer that does not decode, and a
  failed status line all give another error.\<close>

theorem http_stream_no_false_success:
  assumes "http_reachable K reply (newClientStream rs copts mem) s"
    and "OK_apart (api_codes (env_api (k_http K)))" and "Inl EOF \<in> set (hc_results s)"
  shows "reply = Inl EOF \<or>
    (trailer_end K reply (hc_took s) (hc_tr s) \<and>
     tr_Code (hc_tr s) = code_num (api_codes (env_api (k_http K))) OK)"
proof -
  have "eof_inv K reply s" using call_inv_reachable [OF assms(1)] by (simp add: call_inv_def)
  with assms(3) have "reply = Inl EOF \<or> end_ok K reply (hc_took s) (hc_tr s)" by (auto simp: eof_inv_def)
  with status_end_not_OK [OF _ assms(2)] show ?thesis by (auto simp: end_ok_def)
qed

lemma number_apart: "OK_apart (api_codes (env_api (k_http (fst number_call))))"
  by (simp add: number_NewStream(3) number_http_def demo_api_def OK_apart_grpc_codes)

theorem http_stream_no_false_success_witness:
  "\<exists>s. http_reachable (fst number_call) (Inr (loopback_reply number_response)) (snd number_call) s \<and>
     Inl EOF \<in> set (hc_results s) \<and>
     trailer_end (fst number_call) (Inr (loopback_reply number_response)) (hc_took s) (hc_tr s)"
proof -
  from number_finishes obtain s where s:
    "http_reachable (fst number_call) (Inr (loopback_reply number_response)) (snd number_call) s"
    "finished (fst number_call) (stream_trailer number_se [] None) s" by (auto simp: can_go_def)
  from s(2) have "hc_results s \<noteq> []" "last (hc_results s) = Inl EOF"
    using trailer_err_final [OF number_good, of "fst number_call" "[]"] number_NewStream(3)
    by (simp_all add: finished_def number_se_def stream_final_def)
  then have "Inl EOF \<in> set (hc_results s)" by (metis last_in_set)
  with http_stream_no_false_success [OF s(1) [unfolded number_NewStream(2)] number_apart this] s(1)
  show ?thesis by auto
qed

subsection \<open>A single response\<close>

text \<open>C20. A call that expects one response succeeds only when the server has sent exactly one and a
  trailer with code \<open>OK\<close>. If the first \<open>RecvMsg\<close> has returned a message, then that message is the
  only one of the body, it decodes to the returned value, and after it came the trailer.\<close>

theorem http_stream_single_response:
  assumes "http_reachable K reply (newClientStream False copts mem) s"
    and "OK_apart (api_codes (env_api (k_http K)))" and "hc_results s = Inr v # rest"
  shows "\<exists>si body msg m. streaming K reply si body \<and> hc_took s = [msg] \<and>
    decode_msg (si_codec si) msg m = Inr v \<and> trailer_end K reply [msg] (hc_tr s) \<and>
    tr_Code (hc_tr s) = code_num (api_codes (env_api (k_http K))) OK"
proof -
  have "call_inv K reply s \<and> \<not> hc_respStream s" using call_inv_reachable [OF assms(1)] by simp
  then have "single_inv K reply s" by (simp add: call_inv_def)
  with assms(3) have one: "only_message K reply (hc_took s) v" "end_ok K reply (hc_took s) (hc_tr s)"
    by (auto simp: single_inv_def)
  from one(1) obtain si body msg m where "streaming K reply si body" "hc_took s = [msg]"
    "decode_msg (si_codec si) msg m = Inr v" by (auto simp: only_message_def)
  with one(2) status_end_not_OK [OF _ assms(2)] show ?thesis
    by (intro exI [of _ si] exI [of _ body] exI [of _ msg] exI [of _ m]) (auto simp: end_ok_def)
qed

text \<open>A call that expects one response, step by step.\<close>

definition one_reply :: http_reply where
  "one_reply = \<lparr>rp_StatusCode = 200, rp_Status = ''200 OK'',
     rp_Header = [(''Content-Type'', [StreamRpcContentType_V1])],
     rp_Body = rd (sp_encode False [4] @ sp_encode True [0]) EOF\<rparr>"

definition number_in :: "nat stream_in" where
  "number_in = \<lparr>si_read = newSizePrefixedReader, si_codec = number_codec\<rparr>"

definition number_K :: "(nat, string) http_call" where "number_K = fst number_call"

lemma one_reads:
  "newSizePrefixedReader (rd (sp_encode False [4] @ sp_encode True [0]) EOF) =
     (Inr \<lparr>sm_data = [4], sm_isTrailer = False\<rparr>, rd (sp_encode True [0]) EOF)"
  "newSizePrefixedReader (rd (sp_encode True [0]) EOF) =
     (Inr \<lparr>sm_data = [0], sm_isTrailer = True\<rparr>, rd [] EOF)"
  using size_prefixed.decode_encode [of False "[4]" "sp_encode True [0]" EOF]
    size_prefixed.decode_encode [of True "[0]" "[]" EOF]
  by (simp_all add: sp_ok_def maxMessageSize_def)

lemma one_streaming: "streaming number_K (Inr one_reply) number_in (rp_Body one_reply)"
proof -
  have "statFromResponse (env_api number_http) (k_details number_K) one_reply = None" by code_simp
  moreover have "h_get (rp_Header one_reply) ''Content-Type'' = StreamRpcContentType_V1" by code_simp
  ultimately show ?thesis
    by (simp add: streaming_def number_K_def number_NewStream(3) getClientStreamReader_def number_http_def
        registered_def number_in_def)
qed

lemma one_result:
  obtains s where "http_reachable number_K (Inr one_reply) (newClientStream False no_call_options no_mem) s"
    "hc_results s = [Inr 4]"
proof -
  let ?K = number_K and ?reply = "Inr one_reply :: goerr + http_reply"
  let ?s0 = "newClientStream False no_call_options no_mem :: (nat, string) http_cstream"
  let ?msg = "\<lparr>sm_data = [4], sm_isTrailer = False\<rparr> :: stream_msg"
  have "\<exists>md. asMetadata (rp_Header one_reply) = Inr md"
  proof (cases "asMetadata (rp_Header one_reply)")
    case (Inl e)
    moreover have "\<not> isl (asMetadata (rp_Header one_reply))" by code_simp
    ultimately show ?thesis by simp
  qed blast
  then obtain md where md: "asMetadata (rp_Header one_reply) = Inr md" by blast
  let ?s1 = "(onReady None (Some md) ?s0)\<lparr>hc_http := HReply one_reply\<rparr>"
  have "http_roundtrip ?K ?reply ?s0 = ?s1"
    using md by (simp add: http_roundtrip_def newClientStream_def no_call_options_def)
  then have "http_step ?K ?reply ?s0 ?s1" using roundtrip [of ?s0 ?K ?reply] by (simp add: newClientStream_def)
  moreover let ?s2 = "?s1\<lparr>hc_http := HReading number_in (rp_Body one_reply)\<rparr>"
  have "http_step ?K ?reply ?s1 ?s2"
    using status [of ?s1 one_reply ?K ?reply] http_status_streaming [OF one_streaming, of ?s1] by simp
  moreover let ?s3 = "?s2\<lparr>hc_http := HOffer number_in ?msg (rd (sp_encode True [0]) EOF)\<rparr>"
  have "http_step ?K ?reply ?s2 ?s3"
    using read [of ?s2 number_in "rp_Body one_reply" ?K ?reply]
    by (simp add: http_read_def number_in_def one_reads one_reply_def)
  moreover let ?s4 = "?s3\<lparr>hc_recv := RWait 0\<rparr>"
  have "http_step ?K ?reply ?s3 ?s4"
    using recv_begin [of ?s3 ?K ?reply 0]
    by (simp add: newClientStream_def onReady_def readErrorIfDone_None_iff)
  moreover let ?s5 = "?s4\<lparr>hc_http := HReading number_in (rd (sp_encode True [0]) EOF), hc_took := [?msg],
      hc_recv := RMore 4\<rparr>"
  have "http_step ?K ?reply ?s4 ?s5"
    using meet [of ?s4 0 number_in ?msg "rd (sp_encode True [0]) EOF" ?K ?reply]
    by (simp add: recv_first_def decode_msg_def number_in_def number_unmarshal newClientStream_def onReady_def)
  moreover let ?s6 = "http_exit None (?s5\<lparr>hc_rErr := None, hc_tr := zero_trailer\<rparr>)"
  have tr: "c_UnmarshalTrailer number_codec [0] = Inr zero_trailer"
    by (simp add: number_codec_def zero_trailer_def string_of_def)
  then have "http_step ?K ?reply ?s5 ?s6"
    using read [of ?s5 number_in "rd (sp_encode True [0]) EOF" ?K ?reply]
    by (simp add: http_read_def number_in_def one_reads zero_trailer_def)
  moreover have "readErrorIfDone ?K ?s6 = Some EOF"
    by (simp add: readErrorIfDone_def zero_trailer_def number_K_def number_NewStream(3) number_http_def demo_api_def
        grpc_codes_def named_codes_def)
  then have "http_step ?K ?reply ?s6 (recv_return (Inr 4) ?s6)"
    using closed_again [of ?s6 4 ?K ?reply] by (simp add: recv_last_def)
  ultimately have "http_reachable ?K ?reply ?s0 (recv_return (Inr 4) ?s6)"
    unfolding http_reachable_def by (meson converse_rtranclp_into_rtranclp rtranclp.rtrancl_refl)
  then show ?thesis by (rule that) (simp add: newClientStream_def onReady_def)
qed

theorem http_stream_single_response_witness:
  "\<exists>s. http_reachable number_K (Inr one_reply) (newClientStream False no_call_options no_mem) s \<and>
     hc_results s = [Inr 4] \<and> length (hc_took s) = 1"
proof -
  obtain s where s: "http_reachable number_K (Inr one_reply) (newClientStream False no_call_options no_mem) s"
    "hc_results s = [Inr 4]" by (rule one_result)
  with http_stream_single_response [OF s(1) number_apart [folded number_K_def] s(2)] show ?thesis by auto
qed

subsection \<open>A complete reply is read to its end\<close>

text \<open>C18. A streaming call over HTTP can always be finished. Let the reply be complete: messages that
  decode, then a trailer. From every state that the call has reached, in any interleaving, as long
  as the context is not done, \<open>doHttpCall\<close> and \<open>RecvMsg\<close> can go on to a state in which
  \<open>RecvMsg\<close> has returned the trailer's status, or \<open>io.EOF\<close> for \<open>OK\<close>. No interleaving leads
  to a deadlock.\<close>

theorem http_stream_completes:
  assumes "http_reachable K reply (newClientStream True copts mem) s" and "hc_ctx s = None"
    and "complete_reply K reply val ms tr"
  shows "\<exists>s'. http_reachable K reply s s' \<and> hc_results s' \<noteq> [] \<and>
    last (hc_results s') =
      Inl (if tr_Code tr = code_num (api_codes (env_api (k_http K))) OK then EOF
           else StatusErr \<lparr>st_code = code_of_num (api_codes (env_api (k_http K))) (tr_Code tr),
             st_message = tr_Message tr, st_details = tr_Details tr\<rparr>)"
proof -
  obtain rp md where rp: "reply = Inr rp" "asMetadata (rp_Header rp) = Inr md"
    using assms(3) by (auto simp: complete_reply_def)
  have "running K reply val ms tr s"
    using call_inv_reachable [OF assms(1)] stream_reachable [OF assms(1,3) rp] assms(2)
    by (simp add: running_def)
  from stream_finishes [OF assms(3) this] show ?thesis
    by (auto simp: can_go_def finished_def trailer_err_def Let_def)
qed

theorem http_stream_completes_witness:
  "\<exists>s'. http_reachable (fst number_call) (Inr (loopback_reply number_response)) (snd number_call) s' \<and>
     last (hc_results s') = Inl EOF"
proof -
  obtain val ms where complete: "complete_reply (fst number_call) (Inr (loopback_reply number_response)) val ms
      (stream_trailer number_se [] None)" by (rule number_complete)
  have "tr_Code (stream_trailer number_se [] None) =
      code_num (api_codes (env_api (k_http (fst number_call)))) OK"
    by (simp add: number_NewStream(3) number_se_def stream_trailer_def Let_def)
  moreover have "http_reachable (fst number_call) (Inr (loopback_reply number_response)) (snd number_call)
      (snd number_call)" by (simp add: http_reachable_def)
  moreover have "hc_ctx (snd number_call) = None" by (simp add: number_NewStream(2) newClientStream_def)
  ultimately show ?thesis
    using http_stream_completes [OF _ _ complete, of no_call_options no_mem "snd number_call"]
    by (auto simp: number_NewStream(2))
qed

subsection \<open>The client's panic\<close>

lemma send_never_panics:
  assumes "http_NewStream env iv nil_err peer ch out_md t mth rs copts mem = Inr (K, s0)"
  shows "\<not> panics (send_write K taken m s)"
proof -
  obtain opts out where
    "k_writer K = snd (getHeadersAndWriterForClientStreamingRequest out t nil_err opts)"
    by (rule NewStream_parts [OF assms])
  then have "\<not> panics (k_writer K (WMsg m) False w)" for w by (simp add: client_writer(2))
  from this [of "\<lparr>wr_out = [], wr_room = pipe_room taken (hc_pipe s)\<rparr>"] show ?thesis
    by (cases "k_writer K (WMsg m) False \<lparr>wr_out = [], wr_room = pipe_room taken (hc_pipe s)\<rparr>")
      (auto simp: send_write_def)
qed

lemma unsupported_panics:
  assumes "unsupported K reply"
  shows "\<exists>s. http_reachable K reply (newClientStream rs copts mem) s \<and> http_panicked K s"
proof -
  let ?s0 = "newClientStream rs copts mem"
  from assms obtain rp md where rp: "reply = Inr rp" "asMetadata (rp_Header rp) = Inr md"
    "statFromResponse (env_api (k_http K)) (k_details K) rp = None"
    "\<And>si. getClientStreamReader (k_http K)
       (parse_media (k_http K) (h_get (rp_Header rp) ''Content-Type'')) \<noteq> Ret (Some si)"
    unfolding unsupported_def by blast
  let ?s1 = "http_roundtrip K reply ?s0"
  have s1: "hc_http ?s1 = HReply rp" "hc_ready ?s1 = 0"
    using rp(1,2) by (auto simp: http_roundtrip_def newClientStream_def)
  have "http_step K reply ?s0 ?s1" by (rule roundtrip) (simp add: newClientStream_def)
  moreover have "http_step K reply ?s1 (http_status K rp ?s1)" by (rule status [OF s1(1)])
  moreover have "http_panicked K (http_status K rp ?s1)"
    using rp(3,4) s1(2) by (auto simp: http_panicked_def http_status_def Let_def split: go.splits option.splits)
  ultimately show ?thesis
    unfolding http_reachable_def by (meson converse_rtranclp_into_rtranclp rtranclp.rtrancl_refl)
qed

text \<open>C21. When the client of a streaming call panics. Some interleaving of a call made by
  \<open>NewStream\<close> leads to a panic exactly when the reply has a success status and headers that
  convert to metadata, but no supported media type: \<open>doHttpCall\<close> then calls \<open>onReady\<close> a second
  time and the wait group's counter gets negative (or the codec of the media type is not
  registered). In particular \<open>RecvMsg\<close> never finds \<open>rCh\<close> closed before the call is done, and
  \<open>SendMsg\<close> never asks the JSON writer for a trailer.\<close>

theorem http_stream_panics:
  assumes "http_NewStream env iv nil_err peer ch out_md t mth rs copts mem = Inr (K, s0)"
  shows "(\<exists>s. http_reachable K reply s0 s \<and> http_panicked K s) \<longleftrightarrow> unsupported K reply"
proof
  have s0: "s0 = newClientStream rs (GetCallOptions copts) mem" by (rule NewStream_parts [OF assms])
  show "unsupported K reply \<Longrightarrow> \<exists>s. http_reachable K reply s0 s \<and> http_panicked K s"
    unfolding s0 by (rule unsupported_panics)
  assume "\<exists>s. http_reachable K reply s0 s \<and> http_panicked K s"
  then obtain s where s: "http_reachable K reply s0 s" "http_panicked K s" by blast
  have "call_inv K reply s" using call_inv_reachable [OF s(1) [unfolded s0]] by blast
  then have inv: "http_inv K reply s" "recv_inv s" by (simp_all add: call_inv_def)
  from s(2) send_never_panics [OF assms] have "\<exists>p. hc_http s = HPanicked p"
    using inv(2) by (auto simp: http_panicked_def recv_inv_def split: http_pos.splits recv_pos.splits option.splits)
  with inv(1) show "unsupported K reply" by (auto simp: http_inv_def)
qed

definition text_reply :: http_reply where
  "text_reply = \<lparr>rp_StatusCode = 200, rp_Status = ''200 OK'',
     rp_Header = [(''Content-Type'', [''text/html''])], rp_Body = rd [] EOF\<rparr>"

theorem http_stream_panics_witness:
  "\<exists>s. http_reachable (fst number_call) (Inr text_reply) (snd number_call) s \<and> http_panicked (fst number_call) s"
proof -
  have "statFromResponse (env_api number_http) (k_details (fst number_call)) text_reply = None" by code_simp
  moreover have "\<not> isl (asMetadata (rp_Header text_reply))" by code_simp
  moreover have "h_get (rp_Header text_reply) ''Content-Type'' = ''text/html''" by code_simp
  moreover have "''text/html'' \<noteq> StreamRpcContentType_V1" "''text/html'' \<noteq> EventStreamContentType" by code_simp+
  ultimately have "unsupported (fst number_call) (Inr text_reply)"
    by (auto simp: unsupported_def number_NewStream(3) getClientStreamReader_def number_http_def isl_def
        split: sum.splits)
      (metis sum.exhaust)
  with http_stream_panics [OF number_NewStream(1)] show ?thesis by blast
qed

subsection \<open>What the server receives\<close>

lemma sent_request:
  assumes "http_NewStream env iv nil_err peer ch out_md t mth rs copts mem = Inr (K, s0)"
    and "stream_channel env ch opts" and "http_reachable K reply s0 s" and "hc_wErr s = None"
    and sent: "\<forall>m \<in> set (hc_sent s). \<exists>x b. m = Some x \<and> c_Marshal (codec opts) x = Inr b \<and> request_ok opts b"
  obtains p where "pp_data (hc_pipe s) = concat (map (request_encode opts) (map p (map the (hc_sent s))))"
    "\<forall>x \<in> set (map the (hc_sent s)). request_ok opts (p x) \<and> (\<forall>out. c_Unmarshal (codec opts) (p x) out = Inr x)"
proof -
  define p where "p x = payload_of (marshal_msg nil_err (codec opts)) (WMsg (Some x))" for x
  have ch: "channelOptions env ch = Inr opts" "message_codec (codec opts)"
    using assms(2) by (simp_all add: stream_channel_def)
  obtain opts' out where new: "channelOptions env ch = Inr opts'"
    "s0 = newClientStream rs (GetCallOptions copts) mem"
    "k_writer K = snd (getHeadersAndWriterForClientStreamingRequest out t nil_err opts')"
    by (rule NewStream_parts [OF assms(1)])
  have opts': "opts' = opts" using new(1) ch(1) by simp
  have writes: "writes_as (k_writer K) (request_encode opts)
      (\<lambda>m. payload_of (marshal_msg nil_err (codec opts)) (WMsg m))"
    unfolding new(3) opts' by (rule client_writer(1))
  from request_reachable [OF assms(3) [unfolded new(2)] writes] assms(4)
  have "pp_data (hc_pipe s) = concat (map (\<lambda>m. request_encode opts
      (payload_of (marshal_msg nil_err (codec opts)) (WMsg m))) (hc_sent s))"
    by (simp add: request_inv_def)
  also have "\<dots> = concat (map (request_encode opts) (map p (map the (hc_sent s))))"
    using sent by (fastforce simp: p_def intro!: arg_cong [of _ _ concat])
  finally have data: "pp_data (hc_pipe s) = concat (map (request_encode opts) (map p (map the (hc_sent s))))" .
  have "request_ok opts (p x) \<and> (\<forall>out. c_Unmarshal (codec opts) (p x) out = Inr x)"
    if "x \<in> set (map the (hc_sent s))" for x
  proof -
    from that sent obtain b where "c_Marshal (codec opts) x = Inr b" "request_ok opts b" by fastforce
    with ch(2) show ?thesis by (simp add: p_def payload_of_def message_codec_def)
  qed
  with data show ?thesis by (intro that) auto
qed

text \<open>C22. What the server's handler receives of a streaming call over HTTP, for either format. When
  every \<open>SendMsg\<close> of the client has succeeded so far and the client closes its side, then successive
  calls of the server's \<open>RecvMsg\<close> return the sent messages, in order, and \<open>io.EOF\<close> ever
  after. If the method takes a single request, the first call returns it, an \<open>InvalidArgument\<close> error
  when there are several, or \<open>io.EOF\<close> when there is none, and later calls return \<open>io.EOF\<close>.\<close>

theorem http_stream_requests:
  assumes "http_NewStream env iv nil_err peer ch out_md t mth rs copts mem = Inr (K, s0)"
    and "stream_channel env ch opts" and "http_reachable K reply s0 s" and "hc_wErr s = None"
    and sent: "\<forall>m \<in> set (hc_sent s). \<exists>x b. m = Some x \<and> c_Marshal (codec opts) x = Inr b \<and> request_ok opts b"
    and "se_http se = env" and "se_flush se = None"
    and sel: "getServerStreamReaderAndWriter se (stream_type opts) = Ret (Some sio)"
    and body: "hs_r str = rd (pp_data (hc_pipe s)) EOF" "hs_recvd str = 0"
  shows "(hs_respStream str \<longrightarrow> hs_recvs sio m (length (hc_sent s) + j) str =
      map Inr (map the (hc_sent s)) @ replicate j (Inl EOF)) \<and>
    (\<not> hs_respStream str \<longrightarrow> hs_recvs sio m (Suc j) str =
      (case map the (hc_sent s) of [] \<Rightarrow> Inl EOF | [x] \<Rightarrow> Inr x | _ \<Rightarrow> Inl too_many_requests_err) #
      replicate j (Inl EOF))"
proof -
  obtain p where p: "pp_data (hc_pipe s) = concat (map (request_encode opts) (map p (map the (hc_sent s))))"
    "\<forall>x \<in> set (map the (hc_sent s)). request_ok opts (p x) \<and> (\<forall>out. c_Unmarshal (codec opts) (p x) out = Inr x)"
    by (rule sent_request [OF assms(1-5)])
  have "sio = server_io se opts"
    using sel server_io_selected [of se opts] assms(2,6,7) by (simp add: stream_channel_def)
  then have sio: "io_codec sio = codec opts" "io_read sio =
      (if codecName opts = jsonCodecName then newJSONReader else newSizePrefixedReader)"
    by (simp_all add: server_io_def)
  let ?ms = "map the (hc_sent s)"
  show ?thesis
  proof (cases "codecName opts = jsonCodecName")
    case True
    then have "io_read sio = newJSONReader" "hs_r str = rd (json.frames_of (map p ?ms)) EOF"
      "\<forall>x \<in> set ?ms. json_ok False (p x) \<and> (\<forall>out. c_Unmarshal (io_codec sio) (p x) out = Inr x)"
      using sio body(1) p by (simp_all add: json.frames_of_def request_encode_def request_ok_def)
    from json.hs_recvs_stream [OF this(1) _ this(2,3), of m j] json.hs_recvs_single [OF this(1) _ body(2) this(2,3), of m j]
    show ?thesis by simp
  next
    case False
    then have "io_read sio = newSizePrefixedReader" "hs_r str = rd (size_prefixed.frames_of (map p ?ms)) EOF"
      "\<forall>x \<in> set ?ms. sp_ok False (p x) \<and> (\<forall>out. c_Unmarshal (io_codec sio) (p x) out = Inr x)"
      using sio body(1) p by (simp_all add: size_prefixed.frames_of_def request_encode_def request_ok_def)
    from size_prefixed.hs_recvs_stream [OF this(1) _ this(2,3), of m j]
      size_prefixed.hs_recvs_single [OF this(1) _ body(2) this(2,3), of m j]
    show ?thesis by simp
  qed
qed

lemma number_sender:
  obtains s where "http_reachable (fst number_call) reply (snd number_call) s" "hc_wErr s = None"
    "hc_sent s = [Some 2]" "pp_data (hc_pipe s) = sp_encode False [2]"
proof -
  let ?K = "fst number_call" and ?s0 = "snd number_call"
  let ?s1 = "?s0\<lparr>hc_send := Some (Some 2)\<rparr>"
  have s0: "hc_send ?s0 = None" "readErrorIfDone ?K ?s0 = None" "hc_wErr ?s0 = None"
    "hc_pipe ?s0 = \<lparr>pp_data = [], pp_wclosed = False, pp_rerr = None\<rparr>" "hc_sent ?s0 = []" "hc_sends ?s0 = []"
    by (simp_all add: number_NewStream(2) newClientStream_def readErrorIfDone_None_iff)
  have "k_writer ?K = (\<lambda>m t w. Ret (newSizePrefixedWriter (marshal_msg (OtherErr ''nil'') number_codec) m t w))"
    by (simp add: number_call_def http_NewStream_def channelOptions_def number_channel_def checkChannelParams_def
        GetCallOptions_def ApplyPerRPCCreds_def no_call_options_def demo_invoke_def number_opts_def Let_def
        getHeadersAndWriterForClientStreamingRequest_def protoName_def jsonCodecName_def split: prod.splits)
  then have "send_write ?K 0 (Some 2) ?s1 =
      Ret (?s1\<lparr>hc_wErr := None, hc_send := None, hc_sends := [None], hc_sent := [Some 2],
        hc_pipe := \<lparr>pp_data = sp_encode False [2], pp_wclosed = False, pp_rerr = None\<rparr>\<rparr>)" (is "_ = Ret ?s2")
    using s0 number_sends [of 2 "OtherErr ''nil''"] by (simp add: send_write_def pipe_room_def)
  from send_end [OF _ this, of reply] have "http_step ?K reply ?s1 ?s2" by simp
  moreover have "http_step ?K reply ?s0 ?s1" by (rule send_begin) (use s0 in simp_all)
  ultimately have "http_reachable ?K reply ?s0 ?s2"
    unfolding http_reachable_def by (meson converse_rtranclp_into_rtranclp rtranclp.rtrancl_refl)
  then show ?thesis by (rule that) simp_all
qed

theorem http_stream_requests_witness:
  "hs_recvs (server_io number_se number_opts) 0 2
     \<lparr>hs_respStream = True, hs_r = rd (sp_encode False [2]) EOF, hs_recvd = 0, hs_w = new_response,
      hs_room = None, hs_after = closed_body, hs_headersSent = False, hs_writeFailed = False, hs_tr = []\<rparr> = [Inr 2, Inl EOF]"
proof -
  obtain s where s: "http_reachable (fst number_call) (Inl EOF) (snd number_call) s" "hc_wErr s = None"
    "hc_sent s = [Some 2]" "pp_data (hc_pipe s) = sp_encode False [2]" by (rule number_sender)
  have "\<forall>m \<in> set (hc_sent s). \<exists>x b. m = Some x \<and> c_Marshal (codec number_opts) x = Inr b \<and> request_ok number_opts b"
    by (simp add: s(3) number_opts_def number_unmarshal square_codec_def request_ok_def protoName_def
        jsonCodecName_def sp_ok_def maxMessageSize_def)
  moreover have "getServerStreamReaderAndWriter number_se (stream_type number_opts) =
      Ret (Some (server_io number_se number_opts))"
    by (rule server_io_selected) (use number_stream_channel in \<open>simp_all add: stream_channel_def number_se_def\<close>)
  ultimately show ?thesis
    using http_stream_requests [OF number_NewStream(1) number_stream_channel s(1,2), of number_se
        "server_io number_se number_opts"
        "\<lparr>hs_respStream = True, hs_r = rd (sp_encode False [2]) EOF, hs_recvd = 0, hs_w = new_response,
          hs_room = None, hs_after = closed_body, hs_headersSent = False, hs_writeFailed = False, hs_tr = []\<rparr>" 0 1]
    by (simp add: s(3,4) number_se_def numeral_2_eq_2)
qed

end
