(* ===== verification/Transport_Handler.thy ===== *)
theory Transport_Handler
  imports Inproc_Properties Http_Stream_Results
begin

text \<open>
  What a streaming handler does for a list of requests, independently of a transport, and that
  both transports make it do just that: the server of the in-process channel in every
  interleaving, and \<open>handleStream\<close> as long as it does not read a request's body that HTTP has
  closed.
\<close>

subsection \<open>A handler on a list of requests\<close>

text \<open>The result of a call: it succeeds, except for setting headers that have gone out already.
  \<open>fl\<close> says whether they have.\<close>

definition call_result :: "bool \<Rightarrow> 'm srv_op \<Rightarrow> goerr option" where
  "call_result fl a =
     (case a of
        OpSetHeader _ \<Rightarrow> if fl then Some (OtherErr ''headers already sent'') else None
      | OpSendHeader _ \<Rightarrow> if fl then Some (OtherErr ''headers already sent'') else None
      | _ \<Rightarrow> None)"

text \<open>The calls that a handler makes and its error, when its calls of \<open>RecvMsg\<close> return the
  requests and then \<open>io.EOF\<close>.\<close>

primrec handler_on :: "'m handler \<Rightarrow> bool \<Rightarrow> 'm list \<Rightarrow> 'm srv_op list \<times> goerr option" where
  "handler_on (HReturn err) = (\<lambda>fl reqs. ([], err))"
| "handler_on (HCall a k) = (\<lambda>fl reqs.
     case handler_on (k (call_result fl a)) (fl \<or> flushes a) reqs of (ops, err) \<Rightarrow> (a # ops, err))"
| "handler_on (HRecv m k) = (\<lambda>fl reqs.
     handler_on (k (case reqs of [] \<Rightarrow> Inl EOF | x # _ \<Rightarrow> Inr x)) fl (tl reqs))"

text \<open>Every message that is sent is one of \<open>A\<close>.\<close>

definition sends :: "'m set \<Rightarrow> 'm srv_op \<Rightarrow> bool" where
  "sends A a \<longleftrightarrow> (case a of OpSendMsg m \<Rightarrow> m \<in> Some ` A | _ \<Rightarrow> True)"

abbreviation sends_in :: "'m set \<Rightarrow> 'm srv_op list \<Rightarrow> bool" where
  "sends_in A ops \<equiv> list_all (sends A) ops"

lemma sends_in_msgs: "sends_in A ops \<Longrightarrow> set (sent_msgs ops) \<subseteq> A"
  by (induction ops rule: sent_msgs.induct) (auto simp: sends_def)

subsection \<open>The server of the in-process channel\<close>

text \<open>A cloner whose copies do not depend on what was in the destination.\<close>

locale overwriting_cloner = faithful_cloner +
  assumes copy_any: "m \<in> A \<Longrightarrow> Copy cl out m = Inr m"

interpretation codec_overwrites: overwriting_cloner "CodecCloner env cc" "reproduced_by_codec env cc" for cc
  by unfold_locales (auto simp: CodecCloner_def CopyFunc_def reproduced_by_codec_def Copy_def)

text \<open>The requests that the client has put on the channel.\<close>

definition request_msgs :: "'m frame list \<Rightarrow> 'm list" where
  "request_msgs fs = map (\<lambda>f. the (f_data f)) fs"

lemma request_msgs_simps [simp]:
  "request_msgs [] = []" "request_msgs (fs @ gs) = request_msgs fs @ request_msgs gs"
  "request_msgs (f # fs) = the (f_data f) # request_msgs fs" "length (request_msgs fs) = length fs"
  by (simp_all add: request_msgs_def)

definition only_data :: "'m frame list \<Rightarrow> bool" where
  "only_data fs \<longleftrightarrow> (\<forall>f \<in> set fs. \<exists>m. f = data_frame m)"

definition requests_inv :: "('m, 'p) rpc \<Rightarrow> bool" where
  "requests_inv r \<longleftrightarrow> only_data (r_reqs r) \<and> (case r_send r of Some (f, w) \<Rightarrow> only_data [f] | None \<Rightarrow> True)"

lemma client_SendMsg_data: "client_SendMsg cl s m = (Inr f, s') \<Longrightarrow> only_data [f]"
  by (auto simp: client_SendMsg_def only_data_def split: if_splits option.splits sum.splits)

lemma requests_inv_step: "rpc_step cl r r' \<Longrightarrow> requests_inv r \<Longrightarrow> requests_inv r'"
  by (induction rule: rpc_step.induct)
    (auto simp: requests_inv_def only_data_def dest: client_SendMsg_data [unfolded only_data_def] split: option.splits)

text \<open>The requests that a client may still have sent when it has closed its side.\<close>

definition may_send :: "('m, 'p) rpc \<Rightarrow> 'm list \<Rightarrow> bool" where
  "may_send r reqs \<longleftrightarrow>
     (if closed (r_req r) then reqs = request_msgs (r_reqs r) else prefix (request_msgs (r_reqs r)) reqs)"

lemma may_send_step: "rpc_step cl r r' \<Longrightarrow> chan_inv r \<Longrightarrow> may_send r' reqs \<Longrightarrow> may_send r reqs"
proof (induction rule: rpc_step.induct)
  case (recv_select r s m k c ch)
  then show ?case by (auto simp: may_send_def dest: closed_read)
next
  case (send_select r f w ch)
  then have "\<not> closed (r_req r)" "closed ch = closed (r_req r)"
    by (auto simp: chan_inv_def dest: closed_write)
  with send_select show ?case
    by (auto simp: may_send_def split: if_splits dest: append_prefixD)
next
  case (close_send r cs ch)
  then show ?case
    by (auto simp: may_send_def client_CloseSend_def close_chan_def split: if_splits)
qed (auto simp: may_send_def)

text \<open>What the handler will still do, from where the server goroutine is.\<close>

definition rest_of :: "'m cloner \<Rightarrow> 'm srv_pos \<Rightarrow> bool \<Rightarrow> 'm list \<Rightarrow> 'm srv_op list \<times> goerr option" where
  "rest_of cl pos fl reqs =
     (case pos of
        AtHandler s h \<Rightarrow> handler_on h fl reqs
      | InOp p w k \<Rightarrow> handler_on (k (fst (snd (quiet (pending p w))))) fl reqs
      | InRecv s m None k \<Rightarrow> handler_on (HRecv m k) fl reqs
      | InRecv s m (Some c) k \<Rightarrow>
          handler_on (k (fst (server_RecvMsg cl s m (read_result None c)))) fl reqs
      | InFinish p w err \<Rightarrow> ([], err)
      | Exited err \<Rightarrow> ([], err))"

definition follows :: "'m cloner \<Rightarrow> 'm handler \<Rightarrow> 'm list \<Rightarrow> ('m, 'p) rpc \<Rightarrow> bool" where
  "follows cl h reqs r \<longleftrightarrow>
     handler_on h False reqs =
       (case rest_of cl (r_srv r) (list_ex flushes (r_log r)) (drop (length (r_sgot r)) reqs) of
          (ops, err) \<Rightarrow> (r_log r @ ops, err))"

lemma v_flushed_iff: "v_flushed (view_of cl ops) \<longleftrightarrow> list_ex flushes ops"
proof -
  have "v_flushed (foldl (view_op cl) v ops) \<longleftrightarrow> v_flushed v \<or> list_ex flushes ops" for v
  proof (induction ops arbitrary: v)
    case (Cons a ops)
    then show ?case by (cases a) (auto simp: flushes_def Let_def split: option.splits sum.splits)
  qed simp
  from this [of empty_view] show ?thesis by (simp add: view_of_def empty_view_def)
qed

context overwriting_cloner
begin

lemma quiet_result:
  assumes "stream_view s fs v" and "sends A a"
  shows "fst (snd (quiet (op_prog cl a s))) = call_result (v_flushed v) a"
proof (cases a)
  case (OpSendMsg m)
  with assms(2) obtain x where "m = Some x" "Clone cl x = Inr x"
    by (auto simp: sends_def clone_ok)
  moreover have "ss_state s \<noteq> streamStateClosed" using assms(1) by (auto simp: stream_view_def)
  ultimately show ?thesis using OpSendMsg by (simp add: quiet_SendMsg call_result_def Let_def)
qed (use assms(1) in \<open>cases "ss_state s"; auto simp: stream_view_def SetHeader_def SendHeader_def
      setHeader_def TrySetTrailer_def SetTrailer_def Let_def call_result_def\<close>)+

lemma follows_step:
  assumes "rpc_step cl r r'" and "chan_inv r" "requests_inv r" "sent_inv cl r" "sent_inv cl r'"
    and "may_send r reqs" "set reqs \<subseteq> A" "sends_in A (fst (handler_on h False reqs))"
    and "follows cl h reqs r"
  shows "follows cl h reqs r'"
  using assms
proof (induction rule: rpc_step.induct)
  case (call r s a k)
  from call.hyps call.prems(3) have "stream_view s (r_sent r) (view_of cl (r_log r))"
    by (simp add: sent_inv_def)
  moreover from call.prems(7,8) call.hyps have "sends A a"
    by (auto simp: follows_def rest_of_def split: prod.splits)
  ultimately have "fst (snd (quiet (op_prog cl a s))) = call_result (list_ex flushes (r_log r)) a"
    using quiet_result by (simp add: v_flushed_iff)
  note result = this
  let ?fl = "list_ex flushes (r_log r)"
  obtain ops err where rest:
    "handler_on (k (call_result ?fl a)) (?fl \<or> flushes a) (drop (length (r_sgot r)) reqs) = (ops, err)"
    by fastforce
  with call.hyps call.prems(8) have "handler_on h False reqs = (r_log r @ a # ops, err)"
    by (simp add: follows_def rest_of_def)
  with rest show ?case by (simp add: follows_def rest_of_def result)
next
  case (op r p w k p' w' ch d fs)
  then have "r_sctx r = None" "w \<in> {None, Some Sent}" by (auto simp: sent_inv_def)
  with op.hyps prog_step_quiet [of p w "r_resp r" "r_done r" "r_sent r" p' w' ch d fs]
  have "snd (quiet (pending p' w')) = snd (quiet (pending p w))" by simp
  with op.hyps op.prems(8) show ?case by (simp add: follows_def rest_of_def)
next
  case (recv_select r s m k c ch)
  then have ctx: "r_sctx r = None" by (simp add: sent_inv_def)
  let ?rem = "drop (length (r_sgot r)) reqs"
  from recv_select.prems have fifo: "r_reqs r = r_sgot r @ buf (r_req r)"
    by (simp add: chan_inv_def fifo_def)
  show ?case
  proof (cases "buf (r_req r)")
    case Nil
    with recv_select.hyps ctx have c: "c = Got None" "closed (r_req r)"
      by (auto simp: read_cases_def split: if_splits)
    with recv_select.prems(5) fifo Nil have "?rem = []" by (simp add: may_send_def)
    with recv_select.hyps recv_select.prems(8) c show ?thesis
      by (simp add: follows_def rest_of_def server_RecvMsg_def)
  next
    case (Cons f fs)
    with recv_select.hyps ctx have c: "c = Got (Some f)" by (auto simp: read_cases_def split: if_splits)
    from Cons fifo recv_select.prems(2) obtain d where d: "f = data_frame d"
      by (auto simp: requests_inv_def only_data_def)
    from recv_select.prems(5) fifo Cons d
    have "prefix (request_msgs (r_sgot r) @ d # request_msgs fs) reqs"
      by (auto simp: may_send_def split: if_splits)
    then obtain rs where rs: "reqs = request_msgs (r_sgot r) @ d # rs" by (auto simp: prefix_def)
    with recv_select.prems(6) have "d \<in> A" by auto
    then have "fst (server_RecvMsg cl s m (read_result None c)) = Inr d"
      by (simp add: c d server_RecvMsg_def copy_any)
    with recv_select.hyps recv_select.prems(8) c rs show ?thesis
      by (simp add: follows_def rest_of_def)
  qed
next
  case (recv_return r s m c k res s')
  then have "r_sctx r = None" by (simp add: sent_inv_def)
  with recv_return show ?case by (simp add: follows_def rest_of_def)
qed (auto simp: follows_def rest_of_def)

lemma follows_reachable:
  assumes "rpc_reachable cl (start_rpc rs co mem csh ssh h) r" and "r_cctx r = None"
    and "may_send r reqs" "set reqs \<subseteq> A" "sends_in A (fst (handler_on h False reqs))"
  shows "follows cl h reqs r"
proof -
  let ?r0 = "start_rpc rs co mem csh ssh h"
  have "requests_inv r \<and> (r_cctx r = None \<longrightarrow> may_send r reqs \<longrightarrow> follows cl h reqs r)"
    using assms(1) unfolding rpc_reachable_def
  proof (induction rule: rtranclp_induct)
    case base
    then show ?case
      by (simp add: requests_inv_def only_data_def follows_def rest_of_def start_rpc_def)
  next
    case (step r r')
    then have inv: "rpc_inv cl r" "rpc_inv cl r'"
      using rpc_inv_reachable rtranclp.rtrancl_into_rtrancl [OF step.hyps] by (auto simp: rpc_reachable_def)
    have "follows cl h reqs r'" if "r_cctx r' = None" "may_send r' reqs"
    proof -
      from rpc_step_cctx [OF step.hyps(2) that(1)] have "r_cctx r = None" .
      moreover have "may_send r reqs"
        using may_send_step [OF step.hyps(2) _ that(2)] inv(1) by (simp add: rpc_inv_def)
      ultimately show ?thesis
        using step inv that assms(4,5) by (intro follows_step [OF step.hyps(2)]) (auto simp: rpc_inv_def)
    qed
    with step requests_inv_step [OF step.hyps(2)] show ?case by blast
  qed
  with assms(2,3) show ?thesis by blast
qed

text \<open>Once the handler has returned, whatever requests the client may still send.\<close>

lemma handler_returned:
  assumes "rpc_reachable cl (start_rpc rs co mem csh ssh h) r" and "r_cctx r = None"
    and "may_send r reqs" "set reqs \<subseteq> A" "sends_in A (fst (handler_on h False reqs))"
    and "r_srv r = Exited err \<or> (\<exists>p w. r_srv r = InFinish p w err)"
  shows "handler_on h False reqs = (r_log r, err)"
  using follows_reachable [OF assms(1-5)] assms(6) by (auto simp: follows_def rest_of_def)

end

subsection \<open>The server of the HTTP transport\<close>

text \<open>A handler that reads nothing more once it has begun to answer, on these requests: half-duplex.\<close>

primrec reads_first :: "'m handler \<Rightarrow> bool \<Rightarrow> 'm list \<Rightarrow> bool" where
  "reads_first (HReturn err) = (\<lambda>fl reqs. True)"
| "reads_first (HCall a k) = (\<lambda>fl reqs. reads_first (k (call_result fl a)) (fl \<or> flushes a) reqs)"
| "reads_first (HRecv m k) = (\<lambda>fl reqs.
     \<not> fl \<and> reads_first (k (case reqs of [] \<Rightarrow> Inl EOF | x # _ \<Rightarrow> Inr x)) fl (tl reqs))"

text \<open>A stream whose \<open>RecvMsg\<close> returns the requests and then \<open>io.EOF\<close>, until the response is begun
  or, if the connection leaves the request's body open, for ever.\<close>

definition serving :: "'m stream_io \<Rightarrow> ('m list \<Rightarrow> http_sstream \<Rightarrow> bool) \<Rightarrow> bool" where
  "serving sio S \<longleftrightarrow>
     (\<forall>reqs s m. S reqs s \<longrightarrow>
        (\<exists>s1. hs_RecvMsg sio m s = (case reqs of [] \<Rightarrow> Inl EOF | x # _ \<Rightarrow> Inr x, s1) \<and> S (tl reqs) s1)) \<and>
     (\<forall>reqs s a. S reqs s \<longrightarrow> flushes a \<longrightarrow> hs_after s = open_body \<longrightarrow> S reqs (snd (http_op sio a s))) \<and>
     (\<forall>reqs s a. S reqs s \<longrightarrow> \<not> flushes a \<longrightarrow> S reqs (snd (http_op sio a s)))"

lemma stream_write_kept:
  "hs_after s = open_body \<Longrightarrow> hs_r (snd (stream_write sio m t s)) = hs_r s"
  "hs_after (snd (stream_write sio m t s)) = hs_after s"
  "hs_respStream (snd (stream_write sio m t s)) = hs_respStream s"
  "hs_recvd (snd (stream_write sio m t s)) = hs_recvd s"
  by (simp_all add: stream_write_def case_prod_unfold Let_def open_body_def)

lemma http_op_kept:
  "hs_after (snd (http_op sio a s)) = hs_after s"
  "hs_respStream (snd (http_op sio a s)) = hs_respStream s" "hs_recvd (snd (http_op sio a s)) = hs_recvd s"
  "\<not> flushes a \<or> hs_after s = open_body \<Longrightarrow> hs_r (snd (http_op sio a s)) = hs_r s"
  by (cases a; simp add: hs_SetHeader_def hs_SendHeader_def hs_setHeader_def hs_SetTrailer_def
      hs_SendMsg_def Let_def case_prod_unfold stream_write_kept flushes_def; simp add: open_body_def)+

lemma hs_RecvMsg_after: "hs_after (snd (hs_RecvMsg sio m s)) = hs_after s"
  by (simp add: hs_RecvMsg_def Let_def split: prod.split sum.split)

context framing
begin

definition serves :: "'m stream_io \<Rightarrow> ('m \<Rightarrow> bytes) \<Rightarrow> 'm list \<Rightarrow> http_sstream \<Rightarrow> bool" where
  "serves sio p reqs s \<longleftrightarrow>
     hs_r s = rd (frames_of (map p reqs)) EOF \<and>
     (\<forall>x \<in> set reqs. ok False (p x) \<and> (\<forall>out. c_Unmarshal (io_codec sio) (p x) out = Inr x)) \<and>
     (hs_respStream s \<or> (if hs_recvd s = 0 then length reqs \<le> 1 else reqs = []))"

lemma serves_serving:
  assumes "io_read sio = decode"
  shows "serving sio (serves sio p)"
  unfolding serving_def
proof (intro conjI allI impI)
  fix reqs s m
  assume s: "serves sio p reqs s"
  show "\<exists>s1. hs_RecvMsg sio m s = (case reqs of [] \<Rightarrow> Inl EOF | x # _ \<Rightarrow> Inr x, s1) \<and> serves sio p (tl reqs) s1"
  proof (cases reqs)
    case Nil
    with s have at_end: "hs_r s = rd [] EOF" by (simp add: serves_def frames_of_def)
    with s Nil assms show ?thesis
      by (cases "hs_respStream s") (simp_all add: serves_def hs_RecvMsg_def frames_of_def decode_end)
  next
    case (Cons x xs)
    with s assms have "decode (hs_r s) = (Inr \<lparr>sm_data = p x, sm_isTrailer = False\<rparr>, rd (frames_of (map p xs)) EOF)"
      "c_Unmarshal (io_codec sio) (p x) m = Inr x"
      by (simp_all add: serves_def frames_of_def decode_encode)
    note read = this
    show ?thesis
    proof (cases "hs_respStream s")
      case True
      with s assms Cons read show ?thesis by (simp add: serves_def hs_RecvMsg_def decode_msg_def)
    next
      case False
      with s Cons have "hs_recvd s = 0" "xs = []" by (auto simp: serves_def split: if_splits)
      with False assms Cons read show ?thesis
        by (simp add: serves_def hs_RecvMsg_def decode_msg_def frames_of_def decode_end)
    qed
  qed
qed (simp_all add: serves_def http_op_kept)

end

context stream_writer
begin

lemma http_op_result:
  assumes "io_write sio = put" and "in_order s" and "sends_ok marshal ok [a]"
  shows "fst (http_op sio a s) = call_result (hs_headersSent s) a"
proof (cases a)
  case (OpSendMsg x)
  with assms(3) obtain m b where m: "x = Some m" "marshal (WMsg (Some m)) = Inr b" "ok False b"
    by (auto simp: sends_ok_def split: sum.splits)
  from stream_write_out [OF assms(1) m(2,3), of "s\<lparr>hs_headersSent := True\<rparr>"] assms(2) OpSendMsg m(1)
  show ?thesis by (simp add: in_order_def hs_SendMsg_def call_result_def)
qed (simp_all add: hs_SetHeader_def hs_SendHeader_def hs_setHeader_def call_result_def Let_def)

lemma http_follows:
  assumes "io_write sio = put" and "serving sio S" and "in_order s"
    and "S reqs s \<or> hs_headersSent s \<and> hs_after s \<noteq> open_body"
    and "hs_after s = open_body \<or> reads_first h (hs_headersSent s) reqs"
    and "sends_ok marshal ok (http_log sio h s)"
  shows "handler_on h (hs_headersSent s) reqs = (http_log sio h s, fst (http_run sio h s))"
  using assms(3-)
proof (induction h arbitrary: s reqs)
  case (HReturn e)
  then show ?case by simp
next
  case (HCall a k)
  obtain e s1 where op: "http_op sio a s = (e, s1)" by fastforce
  with HCall.prems have ok: "sends_ok marshal ok [a]" "sends_ok marshal ok (http_log sio (k e) s1)"
    by (auto simp: sends_ok_def)
  from http_op_result [OF assms(1) HCall.prems(1) ok(1)] op
  have e: "e = call_result (hs_headersSent s) a" by simp
  from http_op_effect [OF assms(1) HCall.prems(1) ok(1) op]
  have in_order: "in_order s1" and sent: "hs_headersSent s1 = (hs_headersSent s \<or> flushes a)"
    by (simp_all add: op_effect_def)
  have after: "hs_after s1 = hs_after s" using http_op_kept(1) [of sio a s] op by simp
  have "S reqs s1" if "S reqs s" "\<not> flushes a \<or> hs_after s = open_body"
    using assms(2) that op by (metis serving_def snd_conv)
  then have "S reqs s1 \<or> hs_headersSent s1 \<and> hs_after s1 \<noteq> open_body"
    using HCall.prems(2) sent after by auto
  moreover have "hs_after s1 = open_body \<or> reads_first (k e) (hs_headersSent s1) reqs"
    using HCall.prems(3) sent after e by auto
  ultimately have "handler_on (k e) (hs_headersSent s \<or> flushes a) reqs =
      (http_log sio (k e) s1, fst (http_run sio (k e) s1))"
    using HCall.IH [OF rangeI in_order _ _ ok(2), of reqs] sent by simp
  with op e show ?case by simp
next
  case (HRecv m k)
  let ?x = "case reqs of [] \<Rightarrow> Inl EOF | x # _ \<Rightarrow> Inr x"
  from HRecv.prems(2,3) have "S reqs s" by auto
  with assms(2) obtain s1 where rv: "hs_RecvMsg sio m s = (?x, s1)" "S (tl reqs) s1"
    unfolding serving_def by blast
  note kept = hs_RecvMsg_kept [OF rv(1)]
  have after: "hs_after s1 = hs_after s" using hs_RecvMsg_after [of sio m s] rv(1) by simp
  with HRecv.prems rv kept have "handler_on (k ?x) (hs_headersSent s1) (tl reqs) =
      (http_log sio (k ?x) s1, fst (http_run sio (k ?x) s1))"
    by (intro HRecv.IH) auto
  with kept rv show ?case by simp
qed

end

end
