(* ===== verification/Transport_Properties.thy ===== *)
theory Transport_Properties
  imports Transport_Handler
begin

text \<open>
  The two transports compared: a half-duplex streaming handler behaves the same behind either, with
  a concrete handler for the witness.
\<close>

subsection \<open>The server's run over HTTP\<close>

lemma sends_ok_sends_in:
  assumes "sends_ok marshal ok ops" and "set (sent_msgs ops) \<subseteq> A"
  shows "sends_in A ops"
proof -
  have "sends A a" if "a \<in> set ops" for a
  proof (cases a)
    case (OpSendMsg m)
    with assms(1) that obtain x where m: "m = Some x" by (auto simp: sends_ok_def)
    from that have "x \<in> set (sent_msgs ops)" unfolding OpSendMsg m
      by (induction ops rule: sent_msgs.induct) auto
    with assms(2) OpSendMsg m show ?thesis by (auto simp: sends_def)
  qed (simp_all add: sends_def)
  then show ?thesis by (simp add: list_all_iff)
qed

lemma http_server_follows:
  assumes "http_NewStream env iv nil_err peer ch out_md t mth rs copts mem = Inr (K, s0)"
    and "stream_channel env ch opts" and "http_reachable K reply s0 s" and "hc_wErr s = None"
    and reqs: "hc_sent s = map Some reqs"
      "\<forall>x \<in> set reqs. \<exists>b. c_Marshal (codec opts) x = Inr b \<and> request_ok opts b"
      "ClientStreams desc \<or> length reqs \<le> 1"
    and run: "stream_run svr svc desc None (server_io se opts) (rd (pp_data (hc_pipe s)) EOF) ctx = (ops, err)"
    and good: "sends_ok (marshal_msg (se_nil se) (codec opts)) (payload_ok opts) ops"
    and body: "se_after se = open_body \<or> reads_first (sd_handler desc svr ctx) False reqs"
  shows "handler_on (sd_handler desc svr ctx) False reqs = (ops, err)"
proof -
  let ?sio = "server_io se opts" and ?marshal = "marshal_msg (se_nil se) (codec opts)"
  obtain p where p: "pp_data (hc_pipe s) = concat (map (request_encode opts) (map p reqs))"
    "\<forall>x \<in> set reqs. request_ok opts (p x) \<and> (\<forall>out. c_Unmarshal (codec opts) (p x) out = Inr x)"
    by (rule sent_request [OF assms(1-4)]) (use reqs(1,2) in \<open>auto simp: comp_def\<close>)
  define str where "str = \<lparr>hs_respStream = ClientStreams desc, hs_r = rd (pp_data (hc_pipe s)) EOF, hs_recvd = 0,
    hs_w = rw_Set ''Content-Type'' (io_type ?sio) new_response, hs_room = None, hs_after = io_after ?sio,
    hs_headersSent = False, hs_writeFailed = False, hs_tr = []\<rparr>"
  have ops: "ops = http_log ?sio (sd_handler desc svr ctx) str"
    "err = fst (http_run ?sio (sd_handler desc svr ctx) str)"
    using run unfolding stream_run_def str_def Let_def by auto
  have str: "in_order str" "\<not> hs_headersSent str" by (simp_all add: in_order_def str_def)
  have cod: "io_codec ?sio = codec opts" "io_after ?sio = se_after se" by (simp_all add: server_io_def)
  have half: "hs_after str = open_body \<or> reads_first (sd_handler desc svr ctx) (hs_headersSent str) reqs"
    using body str(2) by (simp add: str_def cod)
  show ?thesis
  proof (cases "codecName opts = jsonCodecName")
    case True
    then have io: "io_read ?sio = newJSONReader" "io_write ?sio = newSSEWriter ?marshal None"
      by (simp_all add: server_io_def)
    have "json.serves ?sio p reqs str"
      using p reqs(3) True by (simp add: json.serves_def str_def cod request_ok_def request_encode_def json.frames_of_def)
    moreover have "sends_ok ?marshal sse_ok (http_log ?sio (sd_handler desc svr ctx) str)"
      using good True by (simp add: ops(1) payload_ok_def)
    ultimately show ?thesis
      using sse_writer.http_follows [OF io(2) json.serves_serving [OF io(1)] str(1) _ half] str(2) ops by simp
  next
    case False
    then have io: "io_read ?sio = newSizePrefixedReader" "io_write ?sio = newSizePrefixedWriter ?marshal"
      by (simp_all add: server_io_def)
    have "size_prefixed.serves ?sio p reqs str"
      using p reqs(3) False
      by (simp add: size_prefixed.serves_def str_def cod request_ok_def request_encode_def size_prefixed.frames_of_def)
    moreover have "sends_ok ?marshal sp_ok (http_log ?sio (sd_handler desc svr ctx) str)"
      using good False by (simp add: ops(1) payload_ok_def)
    ultimately show ?thesis
      using sp_writer.http_follows [OF io(2) size_prefixed.serves_serving [OF io(1)] str(1) _ half] str(2) ops by simp
  qed
qed

subsection \<open>The same handler behind both\<close>

text \<open>C17. A half-duplex streaming handler behaves the same behind the two transports. Let the client
  of an HTTP call send some requests, and let the client of an in-process call send the same, or the
  first of them if it has not closed its side. Suppose that on these requests the handler reads
  nothing more once it has sent headers or a message, as HTTP 1.1 requires, or that the
  connection leaves the request's body open for reading, as HTTP 2 does. Suppose further that
  the method takes several requests or gets one at most, and the codecs carry the messages. Then, in every interleaving in which the in-process
  call is not cancelled and is read to its end, the handler has made the same calls in the
  same order, and returned the same error, as \<open>handleStream\<close> lets it; so the in-process client
  receives the messages, header and trailers that the HTTP response carries, and then the error
  (with a context error turned into a status) or \<open>io.EOF\<close>.\<close>

theorem transport_independence:
  assumes "rpc_reachable (CodecCloner penv cc)
        (start_rpc True co cmem csh ssh (sd_handler desc svr ctx)) r"
    and "r_cctx r = None" and "Inl EOF \<in> set (r_reads r)"
    and "if cs_sendClosed (r_cs r) then request_msgs (r_reqs r) = reqs
         else prefix (request_msgs (r_reqs r)) reqs"
    and "http_NewStream env iv nil_err peer ch out_md t mth rs copts mem = Inr (K, s0)"
    and "stream_channel env ch opts" and "http_reachable K reply s0 s" and "hc_wErr s = None"
    and "hc_sent s = map Some reqs"
    and "\<forall>x \<in> set reqs. x \<in> reproduced_by_codec penv cc \<and>
           (\<exists>b. c_Marshal (codec opts) x = Inr b \<and> request_ok opts b)"
    and "ClientStreams desc \<or> length reqs \<le> 1"
    and "stream_run svr svc desc None (server_io se opts) (rd (pp_data (hc_pipe s)) EOF) ctx = (ops, err)"
    and "sends_ok (marshal_msg (se_nil se) (codec opts)) (payload_ok opts) ops"
    and "set (sent_msgs ops) \<subseteq> reproduced_by_codec penv cc" and "m \<in> reproduced_by_codec penv cc"
    and "se_after se = open_body \<or> reads_first (sd_handler desc svr ctx) False reqs"
  shows "r_log r = ops \<and> (r_srv r = Exited err \<or> (\<exists>p w. r_srv r = InFinish p w err)) \<and>
    (\<exists>s'. recv_calls (CodecCloner penv cc) zero m (length (sent_msgs ops) + eof_count (r_reads r))
        (new_client_stream True co cmem csh) (r_reads r) =
      (map Inr (sent_msgs ops) @ replicate (eof_count (r_reads r))
         (Inl (case err of None \<Rightarrow> EOF | Some e \<Rightarrow> TranslateContextError e)), s') \<and>
      (let hs = md_joined (header_mds ops); ts = md_joined (trailer_mds ops) in
         cs_headers s' = (if hs = [] then None else Some hs) \<and>
         client_Trailer s' = (if ts = [] then None else Some ts)))"
proof -
  let ?h = "sd_handler desc svr ctx"
  have on: "handler_on ?h False reqs = (ops, err)"
    by (rule http_server_follows [OF assms(5-9) _ assms(11-13) assms(16)]) (use assms(10) in blast)
  have "sends_in (reproduced_by_codec penv cc) ops" by (rule sends_ok_sends_in [OF assms(13,14)])
  then have sends: "sends_in (reproduced_by_codec penv cc) (fst (handler_on ?h False reqs))"
    by (simp add: on)
  have inv: "chan_inv r" using rpc_inv_reachable [OF assms(1)] by (simp add: rpc_inv_def)
  then have may: "may_send r reqs"
    using assms(4) by (auto simp: may_send_def chan_inv_def split: if_splits)
  have "set reqs \<subseteq> reproduced_by_codec penv cc" using assms(10) by blast
  note returned = codec_overwrites.handler_returned [OF assms(1,2) may this sends]
  from read_all [OF rpc_inv_reachable [OF assms(1)] assms(2,3)] obtain err1 where
    err1: "r_srv r = Exited err1 \<or> (\<exists>p w. r_srv r = InFinish p w err1)" by blast
  from returned [OF this] on have eq: "r_log r = ops" "err1 = err" by simp_all
  from codec_cloner.rpc_delivers [OF assms(1-3,15), of zero] assms(14) eq(1) obtain err2 s' where
    s': "r_srv r = Exited err2 \<or> (\<exists>p w. r_srv r = InFinish p w err2)"
    "recv_calls (CodecCloner penv cc) zero m (length (sent_msgs ops) + eof_count (r_reads r))
        (new_client_stream True co cmem csh) (r_reads r) =
      (map Inr (sent_msgs ops) @ replicate (eof_count (r_reads r))
         (Inl (case err2 of None \<Rightarrow> EOF | Some e \<Rightarrow> TranslateContextError e)), s')"
    "let hs = md_joined (header_mds ops); ts = md_joined (trailer_mds ops) in
         cs_headers s' = (if hs = [] then None else Some hs) \<and>
         client_Trailer s' = (if ts = [] then None else Some ts)"
    by (auto simp: Let_def simp del: recv_calls.simps)
  from err1 s'(1) eq(2) have "err2 = err" by auto
  with eq err1 s'(2,3) show ?thesis by blast
qed

text \<open>The service of squares behind both transports, with the request 2.\<close>

definition squares_start :: "(nat, string) rpc" where
  "squares_start = start_rpc True no_call_options no_mem None None
     (sd_handler square_desc () \<lparr>sc_md = [], sc_timeout = None\<rparr>)"

definition half_schedule :: "nat choice list" where
  "half_schedule = [ChSend (Some 2), ChSendGo 0, ChSendGo 0, ChCloseSend] @ replicate 12 (ChServer 0) @
     [ChRead 0] @ replicate 7 (ChServer 0) @ replicate 5 (ChRead 0)"

definition squares_end :: "(nat, string) rpc" where
  "squares_end = the (rpc_run demo_cloner half_schedule squares_start)"

lemma squares_run: "rpc_run demo_cloner half_schedule squares_start \<noteq> None"
  by code_simp

lemma squares_reachable:
  "rpc_reachable (CodecCloner nat_env nat_codec)
     (start_rpc True no_call_options no_mem None None
       (sd_handler square_desc () \<lparr>sc_md = [], sc_timeout = None\<rparr>)) squares_end"
  using rpc_run_reachable [of demo_cloner half_schedule squares_start squares_end] squares_run
  by (auto simp: squares_end_def squares_start_def demo_cloner_def)

lemma squares_facts:
  "r_cctx squares_end = None" "Inl EOF \<in> set (r_reads squares_end)" "cs_sendClosed (r_cs squares_end)"
  "request_msgs (r_reqs squares_end) = [2]" "eof_count (r_reads squares_end) = 1"
  by code_simp+

lemma squares_served:
  "stream_run () ''svc'' square_desc None (server_io number_se number_opts) (rd (sp_encode False [2]) EOF)
     \<lparr>sc_md = [], sc_timeout = None\<rparr> = ([OpSetHeader [(''h'', [''1''])], OpSendMsg (Some 4)], None)"
proof -
  have "newSizePrefixedReader (rd (sp_encode False [2]) EOF) =
      (Inr \<lparr>sm_data = [2], sm_isTrailer = False\<rparr>, rd [] EOF)"
    using size_prefixed.decode_encode [of False "[2]" "[]" EOF] by (simp add: sp_ok_def maxMessageSize_def)
  then show ?thesis
    by (simp add: stream_run_def square_desc_def hs_RecvMsg_def number_reads(3) number_sent hs_SetHeader_def
        hs_setHeader_def decode_msg_def number_io number_unmarshal Let_def)
qed

theorem transport_independence_witness:
  "r_log squares_end = [OpSetHeader [(''h'', [''1''])], OpSendMsg (Some 4)] \<and>
   (\<exists>s'. recv_calls (CodecCloner nat_env nat_codec) (\<lambda>_. 0) 0 2
      (new_client_stream True no_call_options no_mem None) (r_reads squares_end) = ([Inr 4, Inl EOF], s'))"
proof -
  obtain s where s: "http_reachable (fst number_call) (Inl EOF) (snd number_call) s" "hc_wErr s = None"
    "hc_sent s = map Some [2]" "pp_data (hc_pipe s) = sp_encode False [2]"
    by (rule number_sender [of "Inl EOF"]) simp
  have reqs: "\<forall>x \<in> set [2]. x \<in> reproduced_by_codec nat_env nat_codec \<and>
      (\<exists>b. c_Marshal (codec number_opts) x = Inr b \<and> request_ok number_opts b)"
    by (simp add: nat_reproduced number_opts_def number_unmarshal square_codec_def request_ok_def protoName_def
        jsonCodecName_def sp_ok_def maxMessageSize_def)
  have sent: "sends_ok (marshal_msg (se_nil number_se) (codec number_opts)) (payload_ok number_opts)
      [OpSetHeader [(''h'', [''1''])], OpSendMsg (Some 4)]"
    using number_good by (auto simp: good_stream_def sends_ok_def)
  have "ClientStreams square_desc \<or> length [2] \<le> 1" "(0 :: nat) \<in> reproduced_by_codec nat_env nat_codec"
    "set (sent_msgs [OpSetHeader [(''h'', [''1''])], OpSendMsg (Some 4)]) \<subseteq> reproduced_by_codec nat_env nat_codec"
    by (simp_all add: nat_reproduced)
  note last = this
  have first: "if cs_sendClosed (r_cs squares_end) then request_msgs (r_reqs squares_end) = [2]
      else prefix (request_msgs (r_reqs squares_end)) [2]" by (simp add: squares_facts)
  have half: "se_after number_se = open_body \<or>
      reads_first (sd_handler square_desc () \<lparr>sc_md = [], sc_timeout = None\<rparr>) False [2]"
    by (simp add: square_desc_def call_result_def flushes_def)
  from transport_independence [OF squares_reachable squares_facts(1,2) first number_NewStream(1)
      number_stream_channel s(1-3) reqs last(1) squares_served [folded s(4)] sent last(3,2) half, of "\<lambda>_. 0"]
  show ?thesis by (auto simp: squares_facts(5) numeral_2_eq_2 simp del: recv_calls.simps)
qed

end
