(* ===== verification/Inproc_Stream_Call.thy ===== *)
theory Inproc_Stream_Call
  imports Transport_Properties Inproc_Unary_Properties
begin

text \<open>
  A streaming call over the in-process channel from the registration of its service to what the
  client receives: the lookup of \<open>NewStream\<close>, the steps of the call, and the client's calls put
  together.
\<close>

lemma NewStream_found:
  assumes "full_method method = Ret m"
    and "ApplyPerRPCCreds api (cx_outgoing ctx) (GetCallOptions opts) (''inproc:0'' @ m) True = Inr out"
    and "split_method m = Ret (svc, mth)"
  shows "ic_NewStream api pc c ctx serverStreams method opts mem =
    Ret (let mem = SetPeer (GetCallOptions opts) inprocessPeer mem;
             svrCtx = server_context c m (NewOutgoingContext out ctx)
         in case hm_get (handlers c) svc of
              None \<Rightarrow> Inl (no_service_err svc, mem)
            | Some (sd, svr) \<Rightarrow>
                (case FindStreamingMethod mth (Streams sd) of
                   None \<Rightarrow> Inl (no_method_err svc mth, mem)
                 | Some md \<Rightarrow>
                     (let info = \<lparr>FullMethod = m, IsClientStream = ClientStreams md, IsServerStream = ServerStreams md\<rparr>;
                          h = (case streamInterceptor c of
                                 Some i \<Rightarrow> i svr svrCtx info (sd_handler md)
                               | None \<Rightarrow> sd_handler md svr svrCtx)
                      in Inr (cloner_or pc c,
                           sh_begin (clientStatsHandler c) (ClientStreams md) (ServerStreams md),
                           sh_begin (serverStatsHandler c) (ClientStreams md) (ServerStreams md),
                           start_rpc serverStreams (GetCallOptions opts) mem (clientStatsHandler c)
                             (serverStatsHandler c) h))))"
  using assms by (simp add: ic_NewStream_def dispatch_def Let_def split: option.splits prod.splits)

text \<open>C1. A streaming call over the in-process channel from end to end. Let a service be registered on
  a channel with a codec cloner, and open one of its streams by name. In every
  interleaving of the server goroutine with the client's reads, writes and \<open>CloseSend\<close>, if
  the client has read to the end and its context is not done, then the handler that was
  registered, wrapped in the channel's interceptor, has run on the requests that the
  client has sent (or on any that continue them, if the client has not closed its side), with
  the client's outgoing metadata as incoming metadata unless a stats handler has changed its context; and the client's calls of \<open>RecvMsg\<close> give
  the messages that it sends for those requests, in order, and then its error (with a context
  error turned into a status), or \<open>io.EOF\<close> if it returns nil. \<open>Trailer\<close> and the caller's variables
  for headers and trailers hold the joined metadata that it sets. The hypotheses on messages say
  that the codec decodes what it encodes.\<close>

theorem inproc_stream_call:
  assumes "ic_RegisterService implements c0 desc (Some svr) = Ret c"
    and "FindStreamingMethod mth (Streams desc) = Some md"
    and "CHR ''/'' \<notin> set (ServiceName desc)" and "ServiceName desc \<noteq> []"
    and "ApplyPerRPCCreds api (cx_outgoing ctx) (GetCallOptions opts)
           (''inproc:0/'' @ ServiceName desc @ ''/'' @ mth) True = Inr md_out"
    and "ic_NewStream api pc c ctx True (''/'' @ ServiceName desc @ ''/'' @ mth) opts mem = Ret (Inr (cl, cev, sev, r0))"
    and "cloner_or pc c = CodecCloner penv cc"
    and "rpc_reachable cl r0 r" and "r_cctx r = None" and "Inl EOF \<in> set (r_reads r)"
    and "svrCtx = server_context c (''/'' @ ServiceName desc @ ''/'' @ mth) (NewOutgoingContext md_out ctx)"
    and "handler_on (case streamInterceptor c of
             Some i \<Rightarrow> i svr svrCtx \<lparr>FullMethod = ''/'' @ ServiceName desc @ ''/'' @ mth,
                 IsClientStream = ClientStreams md, IsServerStream = ServerStreams md\<rparr> (sd_handler md)
           | None \<Rightarrow> sd_handler md svr svrCtx) False reqs = (ops, err)"
    and "if cs_sendClosed (r_cs r) then request_msgs (r_reqs r) = reqs
         else prefix (request_msgs (r_reqs r)) reqs"
    and "set reqs \<subseteq> reproduced_by_codec penv cc" and "sends_in (reproduced_by_codec penv cc) ops"
    and "m \<in> reproduced_by_codec penv cc"
  shows "(clientStatsHandler c = None \<and> serverStatsHandler c = None \<longrightarrow> cx_incoming svrCtx = md_out) \<and>
    r_log r = ops \<and>
    (\<exists>s'. recv_calls (CodecCloner penv cc) zero m (length (sent_msgs ops) + eof_count (r_reads r))
        (new_client_stream True (GetCallOptions opts) (SetPeer (GetCallOptions opts) inprocessPeer mem)
          (clientStatsHandler c)) (r_reads r) =
      (map Inr (sent_msgs ops) @ replicate (eof_count (r_reads r))
         (Inl (case err of None \<Rightarrow> EOF | Some e \<Rightarrow> TranslateContextError e)), s') \<and>
      (let hs = md_joined (header_mds ops); ts = md_joined (trailer_mds ops) in
         client_Trailer s' = (if ts = [] then None else Some ts) \<and>
         cs_mem s' = (if ts = [] then id else SetTrailers (GetCallOptions opts) ts)
            ((if hs = [] then id else SetHeaders (GetCallOptions opts) hs)
              (SetPeer (GetCallOptions opts) inprocessPeer mem))))"
proof -
  let ?m = "''/'' @ ServiceName desc @ ''/'' @ mth" and ?A = "reproduced_by_codec penv cc"
  let ?mem = "SetPeer (GetCallOptions opts) inprocessPeer mem"
  define h where "h = (case streamInterceptor c of
      Some i \<Rightarrow> i svr svrCtx \<lparr>FullMethod = ?m, IsClientStream = ClientStreams md,
        IsServerStream = ServerStreams md\<rparr> (sd_handler md)
    | None \<Rightarrow> sd_handler md svr svrCtx)"
  have on: "handler_on h False reqs = (ops, err)" using assms(12) by (simp add: h_def)
  have name: "full_method ?m = Ret ?m" "split_method ?m = Ret (ServiceName desc, mth)"
    using full_method_split(2,3) [OF assms(3,4)] by simp_all
  have "hm_get (handlers c) (ServiceName desc) = Some (desc, svr)"
    using ic_RegisterService_get [OF assms(1)] by simp
  with NewStream_found [OF name(1) _ name(2), of api ctx opts md_out pc c True mem] assms(2,5,6,7,11)
  have r0: "cl = CodecCloner penv cc"
    "r0 = start_rpc True (GetCallOptions opts) ?mem (clientStatsHandler c) (serverStatsHandler c) h"
    by (auto simp: Let_def h_def cong: option.case_cong)
  note reach = assms(8) [unfolded r0]
  have "chan_inv r" using rpc_inv_reachable [OF reach] by (simp add: rpc_inv_def)
  then have may: "may_send r reqs"
    using assms(13) by (auto simp: may_send_def chan_inv_def split: if_splits)
  have sends: "sends_in ?A (fst (handler_on h False reqs))" using assms(15) on by simp
  from read_all [OF rpc_inv_reachable [OF reach] assms(9,10)] obtain err1 where
    err1: "r_srv r = Exited err1 \<or> (\<exists>p w. r_srv r = InFinish p w err1)" by blast
  from codec_overwrites.handler_returned [OF reach assms(9) may assms(14) sends this] on
  have eq: "r_log r = ops" "err1 = err" by simp_all
  have "set (sent_msgs (r_log r)) \<subseteq> ?A" unfolding eq(1) by (rule sends_in_msgs [OF assms(15)])
  from codec_cloner.rpc_delivers [OF reach assms(9,10,16) this, of zero] err1 eq show ?thesis
    by (auto simp: Let_def assms(11) server_context_untagged NewOutgoingContext_def simp del: recv_calls.simps)
qed

subsection \<open>A concrete call\<close>

definition squares_md :: "(unit, go_ctx, nat handler) stream_handler stream_desc" where
  "squares_md = \<lparr>StreamName = ''Squares'',
     sd_handler = (\<lambda>svr ctx. HCall (OpSetHeader [(''h'', [''1''])]) (\<lambda>_. square_stream 3)),
     ServerStreams = True, ClientStreams = True\<rparr>"

definition squares_sd ::
    "((unit, nat) unary_args, unit, unit, nat unary_run, unit, go_ctx, nat handler) svc" where
  "squares_sd = \<lparr>ServiceName = ''svc'', HandlerType = Some ''Squares'', Methods = [], Streams = [squares_md],
     svc_metadata = ''''\<rparr>"

definition squares_ic :: "(unit, unit, unit, nat) inproc_channel" where
  "squares_ic = zero_channel\<lparr>handlers := Some [(''svc'', squares_sd, ())]\<rparr>"

definition squares_h :: "nat handler" where
  "squares_h = HCall (OpSetHeader [(''h'', [''1''])]) (\<lambda>_. square_stream 3)"

definition squares_rpc :: "(nat, inproc_peer) rpc" where
  "squares_rpc = start_rpc True (GetCallOptions [HeaderCallOption 0])
     (SetPeer (GetCallOptions [HeaderCallOption 0]) inprocessPeer square_mem) None None squares_h"

definition squares_schedule :: "nat choice list" where
  "squares_schedule = [ChSend (Some 2), ChSendGo 0, ChSendGo 0, ChCloseSend] @ replicate 9 (ChServer 0) @
     [ChRead 0] @ replicate 10 (ChServer 0) @ replicate 5 (ChRead 0)"

definition squares_done :: "(nat, inproc_peer) rpc" where
  "squares_done = the (rpc_run demo_cloner squares_schedule squares_rpc)"

lemma squares_registered:
  "ic_RegisterService (\<lambda>_ _. True) zero_channel squares_sd (Some ()) = Ret squares_ic"
  by (simp add: ic_RegisterService_def RegisterService_def zero_channel_def squares_sd_def squares_ic_def
      hm_get_def)

lemma squares_opened:
  "ic_NewStream square_api (CodecCloner nat_env nat_codec) squares_ic square_ctx True ''/svc/Squares''
     [HeaderCallOption 0] square_mem = Ret (Inr (CodecCloner nat_env nat_codec, [], [], squares_rpc))"
proof -
  have "full_method ''/svc/Squares'' = Ret ''/svc/Squares''"
    "split_method ''/svc/Squares'' = Ret (''svc'', ''Squares'')" by code_simp+
  moreover have "hm_get (handlers squares_ic) ''svc'' = Some (squares_sd, ())"
    "FindStreamingMethod ''Squares'' (Streams squares_sd) = Some squares_md"
    by (simp_all add: squares_ic_def hm_get_def squares_sd_def squares_md_def)
  ultimately show ?thesis
    by (subst NewStream_found [where svc = "''svc''" and mth = "''Squares''" and m = "''/svc/Squares''"
          and out = "cx_outgoing square_ctx"])
      (simp_all add: ApplyPerRPCCreds_def GetCallOptions_def no_call_options_def squares_ic_def zero_channel_def
        cloner_or_def squares_rpc_def squares_h_def squares_md_def sh_begin_def Let_def)
qed

lemma squares_done_run: "rpc_run demo_cloner squares_schedule squares_rpc \<noteq> None"
  by code_simp

lemma squares_done_facts:
  "r_cctx squares_done = None" "Inl EOF \<in> set (r_reads squares_done)" "cs_sendClosed (r_cs squares_done)"
  "request_msgs (r_reqs squares_done) = [2]" "eof_count (r_reads squares_done) = 1"
  by code_simp+

theorem inproc_stream_call_witness:
  "\<exists>s'. recv_calls (CodecCloner nat_env nat_codec) (\<lambda>_. 0) 0 2
      (new_client_stream True (GetCallOptions [HeaderCallOption 0])
        (SetPeer (GetCallOptions [HeaderCallOption 0]) inprocessPeer square_mem) None)
      (r_reads squares_done) = ([Inr 4, Inl EOF], s') \<and>
    md_at (cs_mem s') 0 = [(''h'', [''1''])]"
proof -
  let ?cl = "CodecCloner nat_env nat_codec" and ?opts = "[HeaderCallOption 0]"
  have reach: "rpc_reachable ?cl squares_rpc squares_done"
    using rpc_run_reachable [of demo_cloner squares_schedule squares_rpc squares_done] squares_done_run
    by (auto simp: squares_done_def demo_cloner_def)
  have sd: "FindStreamingMethod ''Squares'' (Streams squares_sd) = Some squares_md"
    "CHR ''/'' \<notin> set (ServiceName squares_sd)" "ServiceName squares_sd \<noteq> []"
    "''/svc/Squares'' = ''/'' @ ServiceName squares_sd @ ''/'' @ ''Squares''"
    by (simp_all add: squares_sd_def squares_md_def)
  have creds: "ApplyPerRPCCreds square_api (cx_outgoing square_ctx) (GetCallOptions ?opts) u True =
      Inr (cx_outgoing square_ctx)" for u
    by (simp add: ApplyPerRPCCreds_def GetCallOptions_def no_call_options_def)
  have cl: "cloner_or ?cl squares_ic = ?cl" "clientStatsHandler squares_ic = None"
    by (simp_all add: cloner_or_def squares_ic_def zero_channel_def)
  have on: "handler_on (case streamInterceptor squares_ic of
      Some i \<Rightarrow> i () (server_context squares_ic (''/'' @ ServiceName squares_sd @ ''/'' @ ''Squares'')
        (NewOutgoingContext (cx_outgoing square_ctx) square_ctx))
        \<lparr>FullMethod = ''/'' @ ServiceName squares_sd @ ''/'' @ ''Squares'',
         IsClientStream = ClientStreams squares_md, IsServerStream = ServerStreams squares_md\<rparr> (sd_handler squares_md)
    | None \<Rightarrow> sd_handler squares_md () (server_context squares_ic (''/'' @ ServiceName squares_sd @ ''/'' @ ''Squares'')
        (NewOutgoingContext (cx_outgoing square_ctx) square_ctx)))
      False [2] = ([OpSetHeader [(''h'', [''1''])], OpSendMsg (Some 4)], None)"
    by (simp add: squares_ic_def zero_channel_def squares_md_def call_result_def flushes_def numeral_3_eq_3)
  have reqs: "if cs_sendClosed (r_cs squares_done) then request_msgs (r_reqs squares_done) = [2]
      else prefix (request_msgs (r_reqs squares_done)) [2]" by (simp add: squares_done_facts)
  have msgs: "set [2 :: nat] \<subseteq> reproduced_by_codec nat_env nat_codec"
    "sends_in (reproduced_by_codec nat_env nat_codec) [OpSetHeader [(''h'', [''1''])], OpSendMsg (Some 4)]"
    "(0 :: nat) \<in> reproduced_by_codec nat_env nat_codec"
    by (simp_all add: nat_reproduced sends_def)
  from inproc_stream_call [OF squares_registered sd(1-3) creds squares_opened [unfolded sd(4)] cl(1) reach
      squares_done_facts(1,2) refl on reqs msgs, of "\<lambda>_. 0"]
  show ?thesis
    by (auto simp: cl(2) squares_done_facts(5) md_joined_def mappend_def GetCallOptions_def no_call_options_def
        numeral_2_eq_2 simp del: recv_calls.simps)
qed

subsection \<open>Well-formed states\<close>

text \<open>Every frame is where its kind belongs: the client's own are data frames, also the one that the
  handler's \<open>RecvMsg\<close> has just taken; the server's obey the frame protocol; and the channels are
  closed by their owners only (\<open>chan_inv\<close>, part of \<open>rpc_inv\<close>).\<close>

definition rpc_typed :: "'m cloner \<Rightarrow> ('m, 'p) rpc \<Rightarrow> bool" where
  "rpc_typed cl r \<longleftrightarrow> rpc_inv cl r \<and> requests_inv r \<and>
     (case r_srv r of InRecv s m (Some (Got (Some f))) k \<Rightarrow> only_data [f] | _ \<Rightarrow> True)"

lemma rpc_typed_start: "rpc_typed cl (start_rpc rs co mem csh ssh h)"
  by (simp add: rpc_typed_def rpc_inv_start) (simp add: start_rpc_def requests_inv_def only_data_def)

lemma rpc_typed_step:
  assumes "rpc_step cl r r'" and "rpc_typed cl r"
  shows "rpc_typed cl r'"
proof -
  from assms have inv: "rpc_inv cl r" "requests_inv r" by (simp_all add: rpc_typed_def)
  from assms(1) inv(1) have "case r_srv r' of InRecv s m (Some (Got (Some f))) k \<Rightarrow> only_data [f] | _ \<Rightarrow> True"
    using assms(2)
  proof (induction rule: rpc_step.induct)
    case (recv_select r s m k c ch)
    then have fifo: "r_reqs r = r_sgot r @ buf (r_req r)" and data: "only_data (r_reqs r)"
      by (simp_all add: rpc_typed_def rpc_inv_def chan_inv_def fifo_def requests_inv_def)
    have "only_data [f]" if "c = Got (Some f)" for f
    proof -
      from recv_select.hyps(2) that have "f \<in> set (buf (r_req r))"
        by (cases "buf (r_req r)") (auto simp: read_cases_def split: if_splits)
      with fifo data show ?thesis by (auto simp: only_data_def)
    qed
    then show ?case by (auto split: rd_case.splits option.splits)
  qed (auto simp: rpc_typed_def)
  with rpc_inv_step [OF assms(1) inv(1)] requests_inv_step [OF assms(1) inv(2)] show ?thesis
    by (simp add: rpc_typed_def)
qed

lemma received_data:
  "only_data [f] \<Longrightarrow>
   \<exists>d. f = data_frame d \<and> fst (server_RecvMsg cl s m (read_result e (Got (Some f)))) =
     (case e of None \<Rightarrow> Copy cl m d | Some e \<Rightarrow> Inl e)"
  by (cases e) (auto simp: only_data_def server_RecvMsg_def)

text \<open>C5. The states of a streaming in-process call are well-formed, like those of a well-typed
  program, from its start and after every step of it, whatever the handler, the order of the steps
  and the cancellations: frames are where their kind belongs and the channels are closed by their
  owners only. In every state that the call reaches, each frame that the client has read is
  of a known kind, and what the handler's \<open>RecvMsg\<close> takes from the channel is a message, which it
  copies unless its context is done: the branches for errors and for empty frames are never
  taken.\<close>

theorem stream_rpc_typed:
  assumes "rpc_reachable cl (start_rpc rs co mem csh ssh h) r"
  shows "rpc_typed cl r \<and> kindUnknown \<notin> kind ` set (read_frames (r_reads r)) \<and>
    (\<forall>s m f k. r_srv r = InRecv s m (Some (Got (Some f))) k \<longrightarrow>
       (\<exists>d. f = data_frame d \<and> fst (server_RecvMsg cl s m (read_result (r_sctx r) (Got (Some f)))) =
          (case r_sctx r of None \<Rightarrow> Copy cl m d | Some e \<Rightarrow> Inl e)))"
proof -
  from assms [unfolded rpc_reachable_def] have typed: "rpc_typed cl r"
    by (induction rule: rtranclp_induct) (auto intro: rpc_typed_step rpc_typed_start)
  then have "frame_protocol (read_frames (r_reads r))" by (simp add: rpc_typed_def rpc_inv_def)
  then have "kindUnknown \<notin> kind ` set (read_frames (r_reads r))" by (simp add: frame_protocol_def)
  moreover have "only_data [f]" if "r_srv r = InRecv s m (Some (Got (Some f))) k" for s m f k
    using typed that by (simp add: rpc_typed_def)
  ultimately show ?thesis using typed by (intro conjI allI impI received_data) simp_all
qed

theorem stream_rpc_typed_witness:
  "rpc_typed demo_cloner squares_done \<and> kindUnknown \<notin> kind ` set (read_frames (r_reads squares_done))"
proof -
  have "rpc_reachable demo_cloner squares_rpc squares_done"
    using rpc_run_reachable [of demo_cloner squares_schedule squares_rpc squares_done] squares_done_run
    by (auto simp: squares_done_def)
  from stream_rpc_typed [OF this [unfolded squares_rpc_def]] show ?thesis by blast
qed

end
