(* ===== verification/Intercept_Client.thy ===== *)
theory Intercept_Client
  imports Intercept_Chain
begin

text \<open>
  Client-side interception of \<open>intercept.go\<close>.

  An interface value of type \<open>grpc.ClientConnInterface\<close> is a value of \<open>conn\<close>: gRPC's own
  \<open>*grpc.ClientConn\<close>, another channel, a user's \<open>WrappedClientConn\<close> (whose \<open>Unwrap\<close> may
  return nil), or the \<open>*interceptedChannel\<close> of this package. What the first three do when
  they are called is a parameter.
\<close>

datatype ('c, 'a, 'r, 's) conn =
    GrpcConn 'c
  | OtherConn 'c
  | WrappedConn 'c "('c, 'a, 'r, 's) conn option"
  | InterceptedConn "('c, 'a, 'r, 's) conn" "('a, 'c, 'r) client_int option" "('a, 'c, 's) client_int option"

definition InterceptClientConnUnary ::
    "('c, 'a, 'r, 's) conn \<Rightarrow> ('a, 'c, 'r) client_int list \<Rightarrow> ('c, 'a, 'r, 's) conn" where
  "InterceptClientConnUnary ch unaryInt =
     (if unaryInt = [] then ch
      else case ch of
             InterceptedConn ch' u s \<Rightarrow>
               InterceptedConn ch'
                 (Some (chainUnaryClient (case u of None \<Rightarrow> unaryInt | Some i \<Rightarrow> unaryInt @ [i]))) s
           | _ \<Rightarrow> InterceptedConn ch (Some (chainUnaryClient unaryInt)) None)"

definition InterceptClientConnStream ::
    "('c, 'a, 'r, 's) conn \<Rightarrow> ('a, 'c, 's) client_int list \<Rightarrow> ('c, 'a, 'r, 's) conn" where
  "InterceptClientConnStream ch streamInt =
     (if streamInt = [] then ch
      else case ch of
             InterceptedConn ch' u s \<Rightarrow>
               InterceptedConn ch' u
                 (Some (chainStreamClient (case s of None \<Rightarrow> streamInt | Some i \<Rightarrow> streamInt @ [i])))
           | _ \<Rightarrow> InterceptedConn ch None (Some (chainStreamClient streamInt)))"

definition InterceptClientConn ::
    "('c, 'a, 'r, 's) conn \<Rightarrow> ('a, 'c, 'r) client_int option \<Rightarrow> ('a, 'c, 's) client_int option \<Rightarrow>
     ('c, 'a, 'r, 's) conn" where
  "InterceptClientConn ch unaryInt streamInt =
     (let ch1 = (case unaryInt of None \<Rightarrow> ch | Some i \<Rightarrow> InterceptClientConnUnary ch [i])
      in case streamInt of None \<Rightarrow> ch1 | Some i \<Rightarrow> InterceptClientConnStream ch1 [i])"

definition InterceptChannel ::
    "('c, 'a, 'r, 's) conn \<Rightarrow> ('a, 'c, 'r) client_int option \<Rightarrow> ('a, 'c, 's) client_int option \<Rightarrow>
     ('c, 'a, 'r, 's) conn" where
  "InterceptChannel ch unaryInt streamInt = InterceptClientConn ch unaryInt streamInt"

text \<open>\<open>Unwrap\<close>, where the type has that method; \<open>unwrap\<close> is the loop that uses it.\<close>

fun conn_Unwrap :: "('c, 'a, 'r, 's) conn \<Rightarrow> ('c, 'a, 'r, 's) conn option" where
  "conn_Unwrap (InterceptedConn ch u s) = Some ch"
| "conn_Unwrap (WrappedConn c w) = w"
| "conn_Unwrap _ = None"

fun unwrap :: "('c, 'a, 'r, 's) conn \<Rightarrow> ('c, 'a, 'r, 's) conn" where
  "unwrap (InterceptedConn ch u s) = unwrap ch"
| "unwrap (WrappedConn c (Some ch)) = unwrap ch"
| "unwrap ch = ch"

text \<open>The type assertion \<open>.(*grpc.ClientConn)\<close>.\<close>

fun as_ClientConn :: "('c, 'a, 'r, 's) conn \<Rightarrow> 'c option" where
  "as_ClientConn (GrpcConn c) = Some c"
| "as_ClientConn _ = None"

text \<open>\<open>Invoke\<close> and \<open>NewStream\<close>; \<open>base\<close> is what the channels of other packages do. The unary
  side unwraps the channel completely for the interceptor's connection argument, the stream
  side does not.\<close>

fun conn_Invoke :: "('c \<Rightarrow> 'a \<Rightarrow> 'r) \<Rightarrow> ('c, 'a, 'r, 's) conn \<Rightarrow> 'a \<Rightarrow> 'r" where
  "conn_Invoke base (InterceptedConn ch None s) a = conn_Invoke base ch a"
| "conn_Invoke base (InterceptedConn ch (Some u) s) a =
     u a (as_ClientConn (unwrap ch)) (\<lambda>a cc. conn_Invoke base ch a)"
| "conn_Invoke base (GrpcConn c) a = base c a"
| "conn_Invoke base (OtherConn c) a = base c a"
| "conn_Invoke base (WrappedConn c w) a = base c a"

fun conn_NewStream :: "('c \<Rightarrow> 'a \<Rightarrow> 's) \<Rightarrow> ('c, 'a, 'r, 's) conn \<Rightarrow> 'a \<Rightarrow> 's" where
  "conn_NewStream base (InterceptedConn ch u None) a = conn_NewStream base ch a"
| "conn_NewStream base (InterceptedConn ch u (Some s)) a =
     s a (as_ClientConn ch) (\<lambda>a cc. conn_NewStream base ch a)"
| "conn_NewStream base (GrpcConn c) a = base c a"
| "conn_NewStream base (OtherConn c) a = base c a"
| "conn_NewStream base (WrappedConn c w) a = base c a"

subsection \<open>Lemmas\<close>

text \<open>What an RPC on a channel does after the interceptors that are being added: the
  interceptors the channel already had, with the connection they are handed, and then the
  channel inside.\<close>

fun unary_rest :: "('c \<Rightarrow> 'a \<Rightarrow> 'r) \<Rightarrow> ('c, 'a, 'r, 's) conn \<Rightarrow> ('a, 'c, 'r) invoker" where
  "unary_rest base (InterceptedConn ch (Some u) s) = (\<lambda>a cc. u a cc (\<lambda>a cc. conn_Invoke base ch a))"
| "unary_rest base ch = (\<lambda>a cc. conn_Invoke base ch a)"

fun stream_rest :: "('c \<Rightarrow> 'a \<Rightarrow> 's) \<Rightarrow> ('c, 'a, 'r, 's) conn \<Rightarrow> ('a, 'c, 's) invoker" where
  "stream_rest base (InterceptedConn ch u (Some s)) = (\<lambda>a cc. s a cc (\<lambda>a cc. conn_NewStream base ch a))"
| "stream_rest base ch = (\<lambda>a cc. conn_NewStream base ch a)"

text \<open>The connection that a stream interceptor of an intercepted channel is handed.\<close>

fun stream_target :: "('c, 'a, 'r, 's) conn \<Rightarrow> ('c, 'a, 'r, 's) conn" where
  "stream_target (InterceptedConn ch u s) = ch"
| "stream_target ch = ch"

lemma chainUnaryClient_apply:
  "chainUnaryClient is a cc k = foldr (\<lambda>i k a cc. i a cc k) is k a cc"
  using unary_client.chain_wrap [of "is" k] unfolding client_wrap_def by (metis (mono_tags))

lemma chainStreamClient_apply:
  "chainStreamClient is a cc k = foldr (\<lambda>i k a cc. i a cc k) is k a cc"
  using stream_client.chain_wrap [of "is" k] unfolding client_wrap_def by (metis (mono_tags))

lemma unwrap_base: "conn_Unwrap (unwrap ch) = None"
  by (induction ch rule: unwrap.induct) auto

lemma Invoke_InterceptUnary:
  assumes "is \<noteq> []"
  shows "conn_Invoke base (InterceptClientConnUnary ch is) a =
    foldr (\<lambda>i k a cc. i a cc k) is (unary_rest base ch) a (as_ClientConn (unwrap ch))"
proof (cases ch)
  case (InterceptedConn ch' u s)
  with assms show ?thesis
    by (cases u) (simp_all add: InterceptClientConnUnary_def chainUnaryClient_apply)
qed (use assms in \<open>simp_all add: InterceptClientConnUnary_def chainUnaryClient_apply\<close>)

lemma NewStream_InterceptStream:
  assumes "is \<noteq> []"
  shows "conn_NewStream base (InterceptClientConnStream ch is) a =
    foldr (\<lambda>i k a cc. i a cc k) is (stream_rest base ch) a (as_ClientConn (stream_target ch))"
proof (cases ch)
  case (InterceptedConn ch' u s)
  with assms show ?thesis
    by (cases s) (simp_all add: InterceptClientConnStream_def chainStreamClient_apply)
qed (use assms in \<open>simp_all add: InterceptClientConnStream_def chainStreamClient_apply\<close>)

lemma NewStream_InterceptUnary:
  "conn_NewStream base (InterceptClientConnUnary ch is) a = conn_NewStream base ch a"
proof (cases ch)
  case (InterceptedConn ch' u s)
  then show ?thesis by (cases s) (simp_all add: InterceptClientConnUnary_def)
qed (simp_all add: InterceptClientConnUnary_def)

lemma Invoke_InterceptStream:
  "conn_Invoke base (InterceptClientConnStream ch is) a = conn_Invoke base ch a"
proof (cases ch)
  case (InterceptedConn ch' u s)
  then show ?thesis by (cases u) (simp_all add: InterceptClientConnStream_def)
qed (simp_all add: InterceptClientConnStream_def)

text \<open>Wrapping twice is wrapping once with the second call's interceptors before the first's.\<close>

lemma InterceptUnary_twice:
  "InterceptClientConnUnary (InterceptClientConnUnary ch js) is = InterceptClientConnUnary ch (is @ js)"
proof (cases "is = [] \<or> js = []")
  case True
  then show ?thesis by (cases ch) (auto simp: InterceptClientConnUnary_def split: option.splits)
next
  case False
  then show ?thesis
    by (cases ch)
      (auto simp: InterceptClientConnUnary_def unary_client.chain_append split: option.splits)
qed

lemma InterceptStream_twice:
  "InterceptClientConnStream (InterceptClientConnStream ch js) is = InterceptClientConnStream ch (is @ js)"
proof (cases "is = [] \<or> js = []")
  case True
  then show ?thesis by (cases ch) (auto simp: InterceptClientConnStream_def split: option.splits)
next
  case False
  then show ?thesis
    by (cases ch)
      (auto simp: InterceptClientConnStream_def stream_client.chain_append split: option.splits)
qed

end
