(* ===== verification/Registry_Properties.thy ===== *)
theory Registry_Properties
  imports Intercept_Client Intercept_Server
begin

text \<open>
  The properties of service registration (\<open>Handler_Map\<close>) and of interception
  (\<open>Intercept_Chain\<close>, \<open>Intercept_Client\<close>, \<open>Intercept_Server\<close>), with witnesses.
\<close>

subsection \<open>A concrete service\<close>

text \<open>Calls are lists of numbers; an interceptor puts its mark in front of what it hands on, a
  handler returns what it gets.\<close>

definition mark :: "nat \<Rightarrow> nat list \<Rightarrow> 'i \<Rightarrow> (nat list \<Rightarrow> nat list) \<Rightarrow> nat list" where
  "mark n q info k = k (q @ [n])"

definition echo_method :: "(nat list, nat list, unit, nat list) unary_method method_desc" where
  "echo_method =
     \<lparr>MethodName = ''Echo'',
      md_handler = (\<lambda>w i. case i of None \<Rightarrow> w | Some i \<Rightarrow> i w () (\<lambda>q. q))\<rparr>"

definition echo_desc :: "(nat list, nat list, unit, nat list, nat, nat list, nat list) svc" where
  "echo_desc =
     \<lparr>ServiceName = ''foo.Echo'', HandlerType = Some ''foo.EchoServer'', Methods = [echo_method],
      Streams = [\<lparr>StreamName = ''All'', sd_handler = (\<lambda>h w. h # w), ServerStreams = True,
                  ClientStreams = False\<rparr>],
      svc_metadata = ''foo.proto''\<rparr>"

definition any_implements :: "nat \<Rightarrow> string \<Rightarrow> bool" where
  "any_implements h ty = True"

definition echo_map :: "(nat list, nat list, unit, nat list, nat, nat list, nat list) svc_map" where
  "echo_map = Some [(''foo.Echo'', echo_desc, 7)]"

lemma echo_registered: "RegisterService any_implements (Some []) echo_desc (Some 7) = Ret echo_map"
  by (simp add: RegisterService_def echo_desc_def any_implements_def echo_map_def hm_get_def)

lemma echo_registers:
  "\<exists>m'. registry_RegisterService (RegisterService any_implements) reg (Some []) echo_desc (Some 7) = Ret m'"
proof -
  have "acceptable any_implements echo_desc (Some 7)"
    by (simp add: acceptable_def any_implements_def echo_desc_def)
  from intercepting.register_new [OF _ this, of "Some []" reg] show ?thesis
    by (auto simp: hm_get_def)
qed

subsection \<open>Registration\<close>

text \<open>C28. \<open>RegisterService\<close> of a handler map succeeds exactly when the handler is not nil and
  implements the service's interface, the name is new and the map is not nil, and it panics
  otherwise; when it succeeds, the map keeps its invariant (one entry per name, each under its
  own service name, with a handler of the right type), \<open>QueryService\<close> gives the registered pair
  for that name and the old answer for every other, and \<open>GetServiceInfo\<close> lists exactly the
  registered services.\<close>

theorem handler_map_register:
  assumes "hm_inv implements m"
  shows "(panics (RegisterService implements m desc h) \<longleftrightarrow>
       \<not> (acceptable implements desc h \<and> QueryService m (ServiceName desc) = (None, None) \<and> m \<noteq> None)) \<and>
     (\<forall>m'. RegisterService implements m desc h = Ret m' \<longrightarrow>
        hm_inv implements m' \<and>
        (\<forall>n. QueryService m' n = (if n = ServiceName desc then (Some desc, h) else QueryService m n)) \<and>
        (\<forall>n. map_of (GetServiceInfo m') n = map_option service_info_of (fst (QueryService m' n))))"
proof (intro conjI allI impI)
  show "panics (RegisterService implements m desc h) \<longleftrightarrow>
      \<not> (acceptable implements desc h \<and> QueryService m (ServiceName desc) = (None, None) \<and> m \<noteq> None)"
    by (auto simp: RegisterService_panics_iff QueryService_def split: option.splits)
  fix m' assume reg: "RegisterService implements m desc h = Ret m'"
  from RegisterService_Ret [OF reg] obtain hv where hv: "h = Some hv" by (auto dest!: acceptableD)
  show inv: "hm_inv implements m'" using hm_inv_RegisterService [OF reg assms] .
  show "QueryService m' n = (if n = ServiceName desc then (Some desc, h) else QueryService m n)" for n
    using hm_get_RegisterService [OF reg [unfolded hv]] hv by (simp add: QueryService_def)
  show "map_of (GetServiceInfo m') n = map_option service_info_of (fst (QueryService m' n))" for n
    using GetServiceInfo_get [OF inv, of n] by (auto simp: QueryService_def split: option.splits)
qed

theorem handler_map_register_witness:
  "RegisterService any_implements (Some []) echo_desc (Some 7) = Ret echo_map \<and>
   QueryService echo_map ''foo.Echo'' = (Some echo_desc, Some 7) \<and>
   panics (RegisterService any_implements echo_map echo_desc (Some 7))"
proof -
  have "hm_inv any_implements (Some [] :: (nat list, nat list, unit, nat list, nat, nat list, nat list) svc_map)"
    "hm_inv any_implements echo_map"
    by (simp_all add: hm_inv_def echo_map_def echo_desc_def any_implements_def)
  note reg = handler_map_register [OF this(1), of echo_desc "Some 7"]
    handler_map_register [OF this(2), of echo_desc "Some 7"]
  have "ServiceName echo_desc = ''foo.Echo''" by (simp add: echo_desc_def)
  with reg echo_registered show ?thesis by (auto simp: QueryService_def echo_map_def hm_get_def)
qed

text \<open>\<open>reg.ForEach(other.RegisterService)\<close> copies a handler map, in whatever order Go
  iterates over it: replayed into an empty map no registration panics, and the copy answers
  every \<open>QueryService\<close> like the original.\<close>

lemma handler_map_ForEach_replay:
  assumes "hm_inv implements m" and "iteration_order m xs"
  shows "\<exists>m'. for_each (RegisterService implements) xs (Some []) = Ret m' \<and>
    (\<forall>n. QueryService m' n = QueryService m n)"
  using for_each_replay [OF assms] by (auto simp: QueryService_def)

lemma handler_map_ForEach_replay_instance:
  "\<exists>m'. for_each (RegisterService any_implements) [(''foo.Echo'', echo_desc, 7)] (Some []) = Ret m' \<and>
    (\<forall>n. QueryService m' n = QueryService echo_map n)"
  by (rule handler_map_ForEach_replay)
    (simp_all add: hm_inv_def echo_map_def echo_desc_def any_implements_def iteration_order_def)

subsection \<open>Interception\<close>

lemma client_unary_interception:
  "conn_Invoke base (InterceptClientConnUnary ch is) a =
     (if is = [] then conn_Invoke base ch a
      else foldr (\<lambda>i k a cc. i a cc k) is (unary_rest base ch) a (as_ClientConn (unwrap ch))) \<and>
   conn_NewStream sbase (InterceptClientConnUnary ch is) a = conn_NewStream sbase ch a \<and>
   InterceptClientConnUnary (InterceptClientConnUnary ch js) is = InterceptClientConnUnary ch (is @ js)"
  by (simp add: Invoke_InterceptUnary NewStream_InterceptUnary InterceptUnary_twice)
    (simp add: InterceptClientConnUnary_def)

lemma client_stream_interception:
  "conn_NewStream base (InterceptClientConnStream ch is) a =
     (if is = [] then conn_NewStream base ch a
      else foldr (\<lambda>i k a cc. i a cc k) is (stream_rest base ch) a (as_ClientConn (stream_target ch))) \<and>
   conn_Invoke ubase (InterceptClientConnStream ch is) a = conn_Invoke ubase ch a \<and>
   InterceptClientConnStream (InterceptClientConnStream ch js) is = InterceptClientConnStream ch (is @ js)"
  by (simp add: NewStream_InterceptStream Invoke_InterceptStream InterceptStream_twice)
    (simp add: InterceptClientConnStream_def)

text \<open>\<open>Unwrap\<close> of an intercepted channel is not always the channel that was intercepted, as
  the comments on the functions say: if that one is an intercepted channel itself, its
  interceptors are merged and \<open>Unwrap\<close> gives what is inside it. The chain of \<open>Unwrap\<close> calls
  ends at the same channel either way.\<close>

definition channel_inside :: "('c, 'a, 'r, 's) conn \<Rightarrow> ('c, 'a, 'r, 's) conn" where
  "channel_inside ch = (case ch of InterceptedConn ch' u s \<Rightarrow> ch' | _ \<Rightarrow> ch)"

lemma Unwrap_skips_merged:
  assumes "is \<noteq> []"
  shows "conn_Unwrap (InterceptClientConnUnary ch is) = Some (channel_inside ch) \<and>
    unwrap (InterceptClientConnUnary ch is) = unwrap ch \<and> conn_Unwrap (unwrap ch) = None"
  using assms by (cases ch) (simp_all add: InterceptClientConnUnary_def channel_inside_def unwrap_base)

lemma Unwrap_skips_merged_stream:
  assumes "ss \<noteq> []"
  shows "conn_Unwrap (InterceptClientConnStream ch ss) = Some (channel_inside ch) \<and>
    unwrap (InterceptClientConnStream ch ss) = unwrap ch"
  using assms by (cases ch) (simp_all add: InterceptClientConnStream_def channel_inside_def)

lemma Unwrap_skips_merged_instance:
  "conn_Unwrap (InterceptClientConnUnary
     (InterceptClientConnUnary (GrpcConn (1::nat)) [\<lambda>a cc k. k a cc]) [\<lambda>a cc k. k a cc :: nat]) =
   Some (GrpcConn 1 :: (nat, nat, nat, nat) conn)"
  using Unwrap_skips_merged [of "[\<lambda>a cc k. k a cc]"
      "InterceptClientConnUnary (GrpcConn (1::nat)) [\<lambda>a cc k. k a cc] :: (nat, nat, nat, nat) conn"]
  by (simp add: InterceptClientConnUnary_def channel_inside_def)

lemma as_ClientConn_case: "as_ClientConn ch = (case ch of GrpcConn c \<Rightarrow> Some c | _ \<Rightarrow> None)"
  by (cases ch) simp_all

text \<open>The connection argument, where it is what the documentation of the package says, and where it is
  not: an interceptor on a channel that wraps a \<open>*grpc.ClientConn\<close>, and so is none itself, does
  get a connection for unary calls, but none for streams.\<close>

lemma connection_arguments:
  "as_ClientConn (unwrap (GrpcConn c)) = Some c" "as_ClientConn (unwrap (OtherConn c)) = None"
  "as_ClientConn (unwrap (WrappedConn c (Some (GrpcConn c')))) = Some c'"
  "as_ClientConn (channel_inside (WrappedConn c (Some (GrpcConn c')))) = None"
  by (simp_all add: channel_inside_def)

text \<open>C31. Client interceptors run in the order given, each around the rest, before those the
  channel already had, and these before the channel inside. Unary interceptors do not affect
  streams, nor the other way round. Adding a second list of interceptors to an intercepted channel
  gives the very channel that one call with the second list before the first gives; so
  \<open>Unwrap\<close> of the result is the channel that the interceptors were added to, unless that is an
  intercepted channel itself, in which case it is the one inside. The connection argument of the
  first interceptor is what the code makes of the channel: for unary calls the \<open>*grpc.ClientConn\<close>
  at the end of the chain of \<open>Unwrap\<close> calls, or nil; for streams the channel itself, without its
  interceptors, if it is a \<open>*grpc.ClientConn\<close>, and nil otherwise. In both points the program
  differs from its comments: \<open>doc.go\<close> says that the unary argument is nil for every channel that
  is not a \<open>*grpc.ClientConn\<close>, and \<open>intercept.go\<close> that \<open>Unwrap\<close> gives the channel
  that was intercepted.\<close>

theorem client_interception:
  "(conn_Invoke base (InterceptClientConnUnary ch is) a =
      (if is = [] then conn_Invoke base ch a
       else foldr (\<lambda>i k a cc. i a cc k) is (unary_rest base ch) a
         (case unwrap ch of GrpcConn c \<Rightarrow> Some c | _ \<Rightarrow> None)) \<and>
    conn_NewStream sbase (InterceptClientConnUnary ch is) sa = conn_NewStream sbase ch sa \<and>
    InterceptClientConnUnary (InterceptClientConnUnary ch js) is = InterceptClientConnUnary ch (is @ js) \<and>
    conn_Unwrap (InterceptClientConnUnary ch is) =
      (if is = [] then conn_Unwrap ch else Some (channel_inside ch))) \<and>
   (conn_NewStream sbase (InterceptClientConnStream ch ss) sa =
      (if ss = [] then conn_NewStream sbase ch sa
       else foldr (\<lambda>i k a cc. i a cc k) ss (stream_rest sbase ch) sa
         (case channel_inside ch of GrpcConn c \<Rightarrow> Some c | _ \<Rightarrow> None)) \<and>
    conn_Invoke base (InterceptClientConnStream ch ss) a = conn_Invoke base ch a \<and>
    InterceptClientConnStream (InterceptClientConnStream ch ts) ss = InterceptClientConnStream ch (ss @ ts) \<and>
    conn_Unwrap (InterceptClientConnStream ch ss) =
      (if ss = [] then conn_Unwrap ch else Some (channel_inside ch)))"
proof -
  have unary: "conn_Unwrap (InterceptClientConnUnary ch is) = (if is = [] then conn_Unwrap ch else Some (channel_inside ch))"
    and stream: "conn_Unwrap (InterceptClientConnStream ch ss) = (if ss = [] then conn_Unwrap ch else Some (channel_inside ch))"
    using Unwrap_skips_merged [of "is" ch] Unwrap_skips_merged_stream [of ss ch]
    by (auto simp: InterceptClientConnUnary_def InterceptClientConnStream_def)
  have inside: "stream_target ch = channel_inside ch" by (cases ch) (simp_all add: channel_inside_def)
  show ?thesis
    unfolding as_ClientConn_case [symmetric] inside [symmetric]
    by (intro conjI client_unary_interception [THEN conjunct1]
        client_unary_interception [THEN conjunct2, THEN conjunct1]
        client_unary_interception [THEN conjunct2, THEN conjunct2]
        client_stream_interception [THEN conjunct1]
        client_stream_interception [THEN conjunct2, THEN conjunct1]
        client_stream_interception [THEN conjunct2, THEN conjunct2] unary [folded inside] stream [folded inside])
qed

text \<open>C29. Server interceptors. A unary method that is registered through a registrar with the
  interceptors \<open>us\<close> is found under its name, and a call of it, with or without an interceptor of
  the transport, reaches the original handler with one interceptor that runs the transport's
  first and then \<open>us\<close> in order; a registrar that is given \<open>js\<close> and later \<open>is\<close> runs \<open>is\<close> before
  \<open>js\<close>.\<close>

theorem server_unary_interception:
  assumes "registry_RegisterService (RegisterService implements)
      (WithUnaryInterceptors (WithUnaryInterceptors BaseRegistry js) is) m desc (Some h) = Ret m'"
    and "is @ js \<noteq> []"
  shows "\<exists>d. QueryService m' (ServiceName desc) = (Some d, Some h) \<and>
    FindUnaryMethod n (Methods d) =
      map_option (\<lambda>md. \<lparr>MethodName = n, md_handler = (\<lambda>w i.
          md_handler md w (Some (\<lambda>q info k.
            foldr (\<lambda>u k q. u q info k) (case i of None \<Rightarrow> is @ js | Some t \<Rightarrow> t # is @ js) k q)))\<rparr>)
        (FindUnaryMethod n (Methods desc))"
proof -
  let ?u = "chainUnaryServer (is @ js)"
  have reg: "WithUnaryInterceptors (WithUnaryInterceptors BaseRegistry js) is =
      InterceptingRegistry BaseRegistry (Some ?u) None"
    using assms(2) by (simp only: WithUnary_twice) (simp add: WithUnaryInterceptors_def)
  have "RegisterService implements m (InterceptServer desc (Some ?u) None) (Some h) = Ret m'"
    using assms(1) by (simp add: reg)
  then have "QueryService m' (ServiceName desc) = (Some (InterceptServer desc (Some ?u) None), Some h)"
    by (simp add: QueryService_def hm_get_RegisterService)
  moreover have "intercept_method ?u g = (\<lambda>w i. g w (Some (\<lambda>q info k.
      foldr (\<lambda>u k q. u q info k) (case i of None \<Rightarrow> is @ js | Some t \<Rightarrow> t # is @ js) k q)))" for g :: "('a, 'b, 'c, 'd) unary_method"
    by (auto simp: intercept_method_def chainUnaryServer_apply fun_eq_iff
        intro!: arg_cong [where f = "\<lambda>x. g _ (Some x)"] split: option.splits)
  moreover have "FindUnaryMethod n mds = Some md \<Longrightarrow> MethodName md = n" for mds md
    by (induction mds) (auto split: if_splits)
  ultimately show ?thesis
    by (cases "FindUnaryMethod n (Methods desc)") (auto simp: FindUnaryMethod_intercepted)
qed

theorem server_unary_interception_witness:
  "\<exists>m' d md. registry_RegisterService (RegisterService any_implements)
      (WithUnaryInterceptors (WithUnaryInterceptors BaseRegistry [mark 3]) [mark 1, mark 2])
      (Some []) echo_desc (Some 7) = Ret m' \<and>
    QueryService m' ''foo.Echo'' = (Some d, Some 7) \<and>
    FindUnaryMethod ''Echo'' (Methods d) = Some md \<and>
    md_handler md [] (Some (mark 0)) = [0, 1, 2, 3]"
proof -
  let ?reg = "WithUnaryInterceptors (WithUnaryInterceptors BaseRegistry [mark 3]) [mark 1, mark 2]"
  obtain m' where m': "registry_RegisterService (RegisterService any_implements) ?reg (Some [])
      echo_desc (Some 7) = Ret m'"
    using echo_registers by blast
  from server_unary_interception [OF this, of "''Echo''"] obtain d where
    "QueryService m' (ServiceName echo_desc) = (Some d, Some 7)"
    "FindUnaryMethod ''Echo'' (Methods d) =
      map_option (\<lambda>md. \<lparr>MethodName = ''Echo'', md_handler = (\<lambda>w i.
          md_handler md w (Some (\<lambda>q info k. foldr (\<lambda>u k q. u q info k)
            (case i of None \<Rightarrow> [mark 1, mark 2] @ [mark 3] | Some t \<Rightarrow> t # [mark 1, mark 2] @ [mark 3]) k q)))\<rparr>)
        (FindUnaryMethod ''Echo'' (Methods echo_desc))" by auto
  with m' show ?thesis by (auto simp: echo_desc_def echo_method_def mark_def)
qed

text \<open>C30. The same for stream handlers: the registered handler runs the interceptors in order
  around the original one, with the stream's own full method name and kind.\<close>

theorem server_stream_interception:
  assumes "registry_RegisterService (RegisterService implements)
      (WithStreamInterceptors (WithStreamInterceptors BaseRegistry js) is) m desc (Some h) = Ret m'"
    and "is @ js \<noteq> []" and "FindStreamingMethod n (Streams desc) = Some sd"
  shows "\<exists>d sd'. QueryService m' (ServiceName desc) = (Some d, Some h) \<and>
    FindStreamingMethod n (Streams d) = Some sd' \<and>
    ServerStreams sd' = ServerStreams sd \<and> ClientStreams sd' = ClientStreams sd \<and>
    sd_handler sd' = (let info = \<lparr>FullMethod = ''/'' @ ServiceName desc @ ''/'' @ n,
          IsClientStream = ClientStreams sd, IsServerStream = ServerStreams sd\<rparr>
      in foldr (\<lambda>u k h w. u h w info k) (is @ js) (sd_handler sd))"
proof -
  let ?s = "chainStreamServer (is @ js)"
  have reg: "WithStreamInterceptors (WithStreamInterceptors BaseRegistry js) is =
      InterceptingRegistry BaseRegistry None (Some ?s)"
    using assms(2) by (simp only: WithStream_twice) (simp add: WithStreamInterceptors_def)
  have "RegisterService implements m (InterceptServer desc None (Some ?s)) (Some h) = Ret m'"
    using assms(1) by (simp add: reg)
  then have "QueryService m' (ServiceName desc) = (Some (InterceptServer desc None (Some ?s)), Some h)"
    by (simp add: QueryService_def hm_get_RegisterService)
  moreover have "FindStreamingMethod n sds = Some sd \<Longrightarrow> StreamName sd = n" for sds
    by (induction sds) (auto split: if_splits)
  then have "StreamName sd = n" using assms(3) .
  ultimately show ?thesis
    using assms(3)
    by (auto simp: FindStreamingMethod_intercepted intercept_stream_def chainStreamServer_apply
        Let_def fun_eq_iff)
qed

theorem server_stream_interception_witness:
  "\<exists>m' d sd'. registry_RegisterService (RegisterService any_implements)
      (WithStreamInterceptors (WithStreamInterceptors BaseRegistry [\<lambda>h w info k. k h (w @ [2])])
        [\<lambda>h w info k. k h (w @ [1])]) (Some []) echo_desc (Some 7) = Ret m' \<and>
    FindStreamingMethod ''All'' (Streams d) = Some sd' \<and>
    QueryService m' ''foo.Echo'' = (Some d, Some 7) \<and> sd_handler sd' 7 [] = [7, 1, 2]"
proof -
  let ?reg = "WithStreamInterceptors (WithStreamInterceptors BaseRegistry [\<lambda>h w info k. k h (w @ [2])])
        [\<lambda>h w info k. k h (w @ [1])]"
  obtain m' where m': "registry_RegisterService (RegisterService any_implements) ?reg (Some [])
      echo_desc (Some 7) = Ret m'"
    using echo_registers by blast
  have sd: "FindStreamingMethod ''All'' (Streams echo_desc) = Some (hd (Streams echo_desc))"
    by (simp add: echo_desc_def)
  from server_stream_interception [OF m' _ sd] show ?thesis
    using m' by (fastforce simp: echo_desc_def Let_def)
qed

end
