(* ===== verification/Wire_Properties.thy ===== *)
theory Wire_Properties
  imports Wire_Framing Sse
begin

text \<open>
  The properties of the two stream formats, from the writer's calls to what the reader returns.
\<close>

subsection \<open>Sequences of writes\<close>

text \<open>A caller that stops at the first error.\<close>

fun write_all ::
    "('m \<Rightarrow> bool \<Rightarrow> writer \<Rightarrow> goerr option \<times> writer) \<Rightarrow> ('m \<times> bool) list \<Rightarrow> writer \<Rightarrow> goerr option \<times> writer" where
  "write_all put [] w = (None, w)"
| "write_all put ((m, t) # ms) w =
     (case put m t w of (Some err, w1) \<Rightarrow> (Some err, w1) | (None, w1) \<Rightarrow> write_all put ms w1)"

definition payloads :: "('m \<Rightarrow> goerr + bytes) \<Rightarrow> ('m \<times> bool) list \<Rightarrow> stream_msg list" where
  "payloads marshal ms =
     map (\<lambda>(m, t). \<lparr>sm_data = (case marshal m of Inr b \<Rightarrow> b | Inl _ \<Rightarrow> []), sm_isTrailer = t\<rparr>) ms"

text \<open>Every message marshals to a payload that the framing carries.\<close>

definition carriable :: "('m \<Rightarrow> goerr + bytes) \<Rightarrow> (bool \<Rightarrow> bytes \<Rightarrow> bool) \<Rightarrow> ('m \<times> bool) list \<Rightarrow> bool" where
  "carriable marshal ok ms = list_all (\<lambda>(m, t). case marshal m of Inr b \<Rightarrow> ok t b | Inl _ \<Rightarrow> False) ms"

lemma carriable_payloads:
  "carriable marshal ok ms \<Longrightarrow> \<forall>p \<in> set (payloads marshal ms). ok (sm_isTrailer p) (sm_data p)"
  by (induction ms) (auto simp: carriable_def payloads_def split: sum.splits)

lemma write_all_out:
  assumes "\<And>m t b w. marshal m = Inr b \<Longrightarrow> ok t b \<Longrightarrow> wr_room w = None \<Longrightarrow>
      put m t w = (None, w\<lparr>wr_out := wr_out w @ enc t b\<rparr>)"
    and "carriable marshal ok ms" and "wr_room w = None"
  shows "write_all put ms w =
    (None, w\<lparr>wr_out := wr_out w @ concat (map (\<lambda>p. enc (sm_isTrailer p) (sm_data p)) (payloads marshal ms))\<rparr>)"
  using assms(2,3)
proof (induction ms arbitrary: w)
  case Nil
  then show ?case by (simp add: payloads_def)
next
  case (Cons mt ms)
  obtain m t where mt: "mt = (m, t)" by (cases mt)
  with Cons.prems(1) obtain b where b: "marshal m = Inr b" "ok t b" "carriable marshal ok ms"
    by (auto simp: carriable_def split: sum.splits)
  from assms(1) [OF b(1,2) Cons.prems(2)] Cons.IH [OF b(3)] Cons.prems(2) mt b(1)
  show ?case by (simp add: payloads_def)
qed

subsection \<open>The size-prefixed format\<close>

text \<open>C32. The size-prefixed stream round trip: what \<open>newSizePrefixedWriter\<close> writes for a sequence of
  messages, \<open>newSizePrefixedReader\<close> returns message by message, with the trailer flags, and
  then the end of the stream. The payloads are at most 100 MB, those of trailers not empty.\<close>

theorem size_prefixed_roundtrip:
  assumes "carriable marshal sp_ok ms" and "wr_room w = None" and "wr_out w = []"
  shows "\<exists>w'. write_all (newSizePrefixedWriter marshal) ms w = (None, w') \<and>
    size_prefixed.decodes (length ms + n) (rd (wr_out w') e) =
      (map Inr (payloads marshal ms) @ replicate n (Inl e), rd [] e)"
proof -
  have put: "newSizePrefixedWriter marshal m t w = (None, w\<lparr>wr_out := wr_out w @ sp_encode t b\<rparr>)"
    if "marshal m = Inr b" "sp_ok t b" "wr_room w = None" for m t b and w :: writer
    using writeProtoMessage_out [of marshal m b w t] that
    by (simp add: newSizePrefixedWriter_def sp_ok_def maxMessageSize_def maxInt32_def)
  note out = write_all_out [of marshal sp_ok "newSizePrefixedWriter marshal" sp_encode,
      OF put assms(1,2), unfolded assms(3), folded size_prefixed.encodes_def]
  have "length (payloads marshal ms) = length ms" by (simp add: payloads_def)
  with size_prefixed.decodes_encodes [OF carriable_payloads [OF assms(1)], of n e] out
  show ?thesis by simp
qed

definition echo_marshal :: "bytes \<Rightarrow> goerr + bytes" where
  "echo_marshal b = Inr b"

theorem size_prefixed_roundtrip_witness:
  "\<exists>w'. write_all (newSizePrefixedWriter echo_marshal) [([1, 2], False), ([], False), ([3], True)]
      \<lparr>wr_out = [], wr_room = None\<rparr> = (None, w') \<and>
    size_prefixed.decodes (Suc (Suc (Suc (Suc 0)))) (rd (wr_out w') EOF) =
      ([Inr \<lparr>sm_data = [1, 2], sm_isTrailer = False\<rparr>, Inr \<lparr>sm_data = [], sm_isTrailer = False\<rparr>,
        Inr \<lparr>sm_data = [3], sm_isTrailer = True\<rparr>, Inl EOF], rd [] EOF)"
  using size_prefixed_roundtrip [of echo_marshal "[([1, 2], False), ([], False), ([3], True)]"
      "\<lparr>wr_out = [], wr_room = None\<rparr>" 1 EOF]
  by (simp add: carriable_def echo_marshal_def sp_ok_def maxMessageSize_def payloads_def
      del: size_prefixed.decodes.simps write_all.simps)

text \<open>C33. A size-prefixed stream that breaks off inside a message: the complete messages before it are
  returned, and then \<open>io.ErrUnexpectedEOF\<close>, never a shorter message and never a clean end.\<close>

theorem size_prefixed_truncated:
  assumes "\<forall>m \<in> set ms. sp_ok (sm_isTrailer m) (sm_data m)" and "sp_ok t d"
    and "0 < k" and "k < length (sp_encode t d)"
  shows "fst (size_prefixed.decodes (Suc (length ms))
      (rd (size_prefixed.encodes ms @ take k (sp_encode t d)) EOF)) = map Inr ms @ [Inl UnexpectedEOF]"
  using assms(1)
proof (induction ms)
  case Nil
  from newSizePrefixedReader_truncated [OF assms(2-4)] show ?case
    by (simp add: size_prefixed.encodes_def split_beta)
next
  case (Cons m ms)
  then show ?case by (simp add: size_prefixed.encodes_def size_prefixed.decode_encode split_beta)
qed

theorem size_prefixed_truncated_witness:
  "fst (size_prefixed.decodes 2 (rd (sp_encode False [7] @ take 5 (sp_encode True [1, 2])) EOF)) =
    [Inr \<lparr>sm_data = [7], sm_isTrailer = False\<rparr>, Inl UnexpectedEOF]"
  using size_prefixed_truncated [of "[\<lparr>sm_data = [7], sm_isTrailer = False\<rparr>]" True "[1, 2]" 5]
  by (simp add: sp_ok_def maxMessageSize_def sp_encode_def size_prefixed.encodes_def numeral_2_eq_2)

text \<open>C34. Whatever bytes a peer sends, \<open>newSizePrefixedReader\<close> never returns (nor allocates a buffer
  for) a message of more than 100 MB, and what it returns is exactly the bytes after a four-byte
  preface with the size, whose sign is the trailer flag; the preface whose negation would
  overflow is refused.\<close>

theorem size_prefixed_sound:
  assumes "newSizePrefixedReader r = (Inr m, r1)"
  shows "length (sm_data m) \<le> 104857600 \<and>
    (\<exists>p. length p = 4 \<and> rd_bytes r = p @ sm_data m @ rd_bytes r1 \<and>
       (sm_isTrailer m \<longleftrightarrow> sint (of_be32 p) < 0) \<and> \<bar>sint (of_be32 p)\<bar> = int (length (sm_data m)) \<and>
       sint (of_be32 p) \<noteq> - 2147483648)"
proof -
  from newSizePrefixedReader_sound [OF assms] obtain p where
    "int (length (sm_data m)) \<le> 104857600" "length p = 4" "rd_bytes r = p @ sm_data m @ rd_bytes r1"
    "sm_isTrailer m \<longleftrightarrow> sint (of_be32 p) < 0" "\<bar>sint (of_be32 p)\<bar> = int (length (sm_data m))"
    by (auto simp: maxMessageSize_def)
  then show ?thesis by (intro conjI exI [of _ p]) auto
qed

theorem size_prefixed_sound_witness:
  "length (sm_data \<lparr>sm_data = [7], sm_isTrailer = True\<rparr>) \<le> 104857600"
proof -
  have "newSizePrefixedReader (rd [255, 255, 255, 255, 7] EOF) =
      (Inr \<lparr>sm_data = [7], sm_isTrailer = True\<rparr>, rd [] EOF)" by code_simp
  from conjunct1 [OF size_prefixed_sound [OF this]] show ?thesis .
qed

text \<open>The writer and the reader disagree about the largest message: a message between 100 MB and
  2 GB is sent without an error and refused by the receiver; and a trailer message that
  marshals to nothing arrives as an ordinary message, because its size has no sign.\<close>

lemma size_prefixed_asymmetry:
  assumes "marshal m = Inr b" and "wr_room w = None" and "wr_out w = []"
    and "int (length b) \<le> maxInt32"
  shows "\<exists>w'. newSizePrefixedWriter marshal m t w = (None, w') \<and>
    fst (newSizePrefixedReader (rd (wr_out w') e)) =
      (if int (length b) > maxMessageSize
       then Inl (OtherErr (''bad size preface: indicated size is too large: '' @ show_int (int (length b))))
       else Inr \<lparr>sm_data = b, sm_isTrailer = (t \<and> b \<noteq> [])\<rparr>)"
  using writeProtoMessage_out [of marshal m b w t, OF assms(1,4,2)] newSizePrefixedReader_encode [OF assms(4), of t "[]" e] assms(3)
  by (simp add: newSizePrefixedWriter_def)

lemma size_prefixed_asymmetry_instance:
  "\<exists>w'. newSizePrefixedWriter echo_marshal [] True \<lparr>wr_out = [], wr_room = None\<rparr> = (None, w') \<and>
    fst (newSizePrefixedReader (rd (wr_out w') EOF)) = Inr \<lparr>sm_data = [], sm_isTrailer = False\<rparr>"
  using size_prefixed_asymmetry [of echo_marshal "[]" "[]" "\<lparr>wr_out = [], wr_room = None\<rparr>" True EOF]
  by (simp add: echo_marshal_def maxInt32_def maxMessageSize_def)

subsection \<open>Server-sent events\<close>

text \<open>C35. The event stream round trip: what \<open>newSSEWriter\<close> writes, \<open>newSSEReader\<close> returns, message by
  message and with the trailer flags, provided no payload contains a line feed or ends in a
  carriage return.\<close>

theorem sse_roundtrip:
  assumes "carriable marshal sse_ok ms" and "wr_room w = None" and "wr_out w = []"
  shows "\<exists>w'. write_all (newSSEWriter marshal None) ms w = (None, w') \<and>
    sse.decodes (length ms + n) (rd (wr_out w') e) =
      (map Inr (payloads marshal ms) @ replicate n (Inl e), rd [] e)"
proof -
  have put: "newSSEWriter marshal None m t w = (None, w\<lparr>wr_out := wr_out w @ sse_encode t b\<rparr>)"
    if "marshal m = Inr b" "sse_ok t b" "wr_room w = None" for m t b and w :: writer
    using newSSEWriter_out [of marshal m b w None t] that by simp
  note out = write_all_out [of marshal sse_ok "newSSEWriter marshal None" sse_encode,
      OF put assms(1,2), unfolded assms(3), folded sse.encodes_def]
  have "length (payloads marshal ms) = length ms" by (simp add: payloads_def)
  with sse.decodes_encodes [OF carriable_payloads [OF assms(1)], of n e] out
  show ?thesis by simp
qed

theorem sse_roundtrip_witness:
  "\<exists>w'. write_all (newSSEWriter echo_marshal None) [(bytes_of ''{}'', False), (bytes_of ''x'', True)]
      \<lparr>wr_out = [], wr_room = None\<rparr> = (None, w') \<and>
    sse.decodes (Suc (Suc (Suc 0))) (rd (wr_out w') EOF) =
      ([Inr \<lparr>sm_data = bytes_of ''{}'', sm_isTrailer = False\<rparr>,
        Inr \<lparr>sm_data = bytes_of ''x'', sm_isTrailer = True\<rparr>, Inl EOF], rd [] EOF)"
  using sse_roundtrip [of echo_marshal "[(bytes_of ''{}'', False), (bytes_of ''x'', True)]"
      "\<lparr>wr_out = [], wr_room = None\<rparr>" 1 EOF]
  by (simp add: carriable_def echo_marshal_def sse_ok_def payloads_def line_safe_def bytes_of_def LF_def
      CR_def del: sse.decodes.simps write_all.simps)

lemma read_bytes_suffix:
  "read_bytes d r = (line, err, r1) \<Longrightarrow> rd_bytes r = line @ rd_bytes r1 \<and> rd_end r1 = rd_end r"
proof -
  assume *: "read_bytes d r = (line, err, r1)"
  let ?p = "\<lambda>x. x \<noteq> d"
  have split: "rd_bytes r = takeWhile ?p (rd_bytes r) @ dropWhile ?p (rd_bytes r)" by simp
  show ?thesis
  proof (cases "dropWhile ?p (rd_bytes r)")
    case Nil
    with * split show ?thesis by (auto simp: read_bytes_def)
  next
    case (Cons x xs)
    with * have "line = takeWhile ?p (rd_bytes r) @ [x]" "rd_bytes r1 = xs" "rd_end r1 = rd_end r"
      by (auto simp: read_bytes_def)
    with split Cons show ?thesis by simp
  qed
qed

definition data_len :: "event option \<Rightarrow> nat" where
  "data_len cur = (case cur of None \<Rightarrow> 0 | Some ev \<Rightarrow> length (ev_Data ev))"

lemma trim_right_shorter: "length (trim_right line) \<le> length line"
  using length_dropWhile_le [of _ "rev line"] by (simp add: trim_right_def)

lemma with_type_sel [simp]: "ev_Data (with_type ev) = ev_Data ev" "ev_Type (with_type ev) \<noteq> ''''"
  by (simp_all add: with_type_def)

lemma sse_loop_consumes:
  "sse_loop cur r = (res, r1) \<Longrightarrow>
   \<exists>p. rd_bytes r = p @ rd_bytes r1 \<and> rd_end r1 = rd_end r \<and>
     (case res of
        Inl _ \<Rightarrow> True
      | Inr ev \<Rightarrow> (cur = None \<longrightarrow> p \<noteq> []) \<and> ev_Type ev \<noteq> '''' \<and> length (ev_Data ev) \<le> data_len cur + length p)"
proof (induction cur r arbitrary: res r1 rule: sse_loop.induct)
  case (1 cur r)
  obtain line err r0 where rb: "read_bytes LF r = (line, err, r0)" by (cases "read_bytes LF r") auto
  note suf = read_bytes_suffix [OF rb]
  show ?case
  proof (cases err)
    case (Some e)
    with "1.prems" rb suf show ?thesis
      by (subst (asm) sse_loop.simps)
        (auto simp: data_len_def split: if_splits option.splits intro!: exI [of _ line])
  next
    case None
    have line: "line \<noteq> []"
      using read_bytes_shorter rb None suf by fastforce
    let ?t = "trim_right line"
    have len: "length ?t \<le> length line" by (rule trim_right_shorter)
    have step: ?thesis if eq: "sse_loop (Some c) r0 = (res, r1)"
      and ih: "\<exists>p. rd_bytes r0 = p @ rd_bytes r1 \<and> rd_end r1 = rd_end r0 \<and>
        (case res of Inl _ \<Rightarrow> True
         | Inr ev \<Rightarrow> ev_Type ev \<noteq> '''' \<and> length (ev_Data ev) \<le> length (ev_Data c) + length p)"
      and le: "length (ev_Data c) \<le> data_len cur + length line" for c
    proof -
      from ih obtain p where p: "rd_bytes r0 = p @ rd_bytes r1" "rd_end r1 = rd_end r0"
        "case res of Inl _ \<Rightarrow> True
         | Inr ev \<Rightarrow> ev_Type ev \<noteq> '''' \<and> length (ev_Data ev) \<le> length (ev_Data c) + length p" by blast
      with suf line le show ?thesis
        by (intro exI [of _ "line @ p"]) (auto split: sum.splits)
    qed
    show ?thesis
    proof (cases "has_prefix ?t data_prefix")
      case True
      let ?c = "add_data cur (drop 6 ?t)"
      have "sse_loop (Some ?c) r0 = (res, r1)"
        using "1.prems" rb None True by (subst (asm) sse_loop.simps) simp
      moreover from this have "\<exists>p. rd_bytes r0 = p @ rd_bytes r1 \<and> rd_end r1 = rd_end r0 \<and>
        (case res of Inl _ \<Rightarrow> True
         | Inr ev \<Rightarrow> ev_Type ev \<noteq> '''' \<and> length (ev_Data ev) \<le> length (ev_Data ?c) + length p)"
        using "1.IH"(1) [OF rb [symmetric] refl None refl] True by (cases res) (simp_all add: data_len_def)
      moreover have "length (ev_Data ?c) \<le> data_len cur + length line"
        using len by (auto simp: add_data_def data_len_def split: option.splits)
      ultimately show ?thesis by (rule step)
    next
      case nodata: False
      show ?thesis
      proof (cases "has_prefix ?t event_prefix")
        case True
        let ?c = "set_type cur (string_of (drop 7 ?t))"
        have "sse_loop (Some ?c) r0 = (res, r1)"
          using "1.prems" rb None nodata True by (subst (asm) sse_loop.simps) simp
        moreover from this have "\<exists>p. rd_bytes r0 = p @ rd_bytes r1 \<and> rd_end r1 = rd_end r0 \<and>
          (case res of Inl _ \<Rightarrow> True
           | Inr ev \<Rightarrow> ev_Type ev \<noteq> '''' \<and> length (ev_Data ev) \<le> length (ev_Data ?c) + length p)"
          using "1.IH"(2) [OF rb [symmetric] refl None refl] nodata True by (cases res) (simp_all add: data_len_def)
        moreover have "length (ev_Data ?c) \<le> data_len cur + length line"
          by (auto simp: set_type_def data_len_def split: option.splits)
        ultimately show ?thesis by (rule step)
      next
        case noevent: False
        show ?thesis
        proof (cases "?t = [] \<and> cur = None")
          case True
          then have eq: "sse_loop None r0 = (res, r1)"
            using "1.prems" rb None nodata noevent by (subst (asm) sse_loop.simps) simp
          with "1.IH"(3) [OF rb [symmetric] refl None refl] nodata noevent True obtain p where
            "rd_bytes r0 = p @ rd_bytes r1" "rd_end r1 = rd_end r0"
            "case res of Inl _ \<Rightarrow> True
             | Inr ev \<Rightarrow> p \<noteq> [] \<and> ev_Type ev \<noteq> '''' \<and> length (ev_Data ev) \<le> length p"
            by (cases res) (auto simp: data_len_def)
          with suf line show ?thesis
            by (intro exI [of _ "line @ p"]) (auto split: sum.splits)
        next
          case False
          with "1.prems" rb None nodata noevent suf line show ?thesis
            by (subst (asm) sse_loop.simps)
              (auto simp: data_len_def split: if_splits option.splits intro!: exI [of _ line])
        qed
      qed
    qed
  qed
qed

text \<open>C36. Decoding events always ends, on any input, and makes progress: \<open>Decode\<close> consumes a prefix of
  the input, a nonempty one when it returns an event, the event has a type and its data is no
  longer than what was consumed.\<close>

theorem sse_decode_progress:
  "case sse_Decode r of
     (res, r1) \<Rightarrow>
       \<exists>p. rd_bytes r = p @ rd_bytes r1 \<and> rd_end r1 = rd_end r \<and>
         (case res of
            Inl _ \<Rightarrow> True
          | Inr ev \<Rightarrow> p \<noteq> [] \<and> ev_Type ev \<noteq> '''' \<and> length (ev_Data ev) \<le> length p)"
proof (cases "sse_Decode r")
  case (Pair res r1)
  then obtain p where "rd_bytes r = p @ rd_bytes r1" "rd_end r1 = rd_end r"
    "case res of Inl _ \<Rightarrow> True | Inr ev \<Rightarrow> p \<noteq> [] \<and> ev_Type ev \<noteq> '''' \<and> length (ev_Data ev) \<le> length p"
    using sse_loop_consumes [of None r res r1] by (cases res) (auto simp: sse_Decode_def data_len_def)
  with Pair show ?thesis by auto
qed

lemma newSSEReader_line_feed:
  assumes "line_safe a" and "line_safe b" and "b \<noteq> []"
    and "\<not> has_prefix b data_prefix" and "\<not> has_prefix b event_prefix"
  shows "newSSEReader (rd (sse_encode False (a @ [LF] @ b) @ rest) e) =
    (Inl (OtherErr ''malformed event''), rd (LF # rest) e)"
proof -
  have "LF \<notin> set b" using assms(2) by (simp add: line_safe_def)
  from read_bytes_line [OF this, of "LF # rest" e] trim_right_safe [OF assms(2)] assms(3-5)
  have "sse_loop (Some ev) (rd (b @ LF # LF # rest) e) =
      (Inl (OtherErr ''malformed event''), rd (LF # rest) e)" for ev
    by (simp add: sse_loop.simps [of "Some ev"] Let_def)
  with sse_loop_data [OF assms(1), of None "b @ LF # LF # rest" e] show ?thesis
    by (simp add: newSSEReader_def sse_Decode_def sse_encode_def sse_bytes_def)
qed

lemma newSSEReader_carriage_return:
  assumes "line_safe a"
  shows "newSSEReader (rd (sse_encode False (a @ [CR]) @ rest) e) =
    (Inr \<lparr>sm_data = a, sm_isTrailer = False\<rparr>, rd rest e)"
proof -
  have "trim_right (data_prefix @ a @ [CR, LF]) = trim_right (data_prefix @ a @ [LF])"
    by (simp add: trim_right_def)
  then have trim: "trim_right (data_prefix @ a @ [CR, LF]) = data_prefix @ a"
    using trim_right_prefixed [OF assms, of data_prefix] by simp
  have "LF \<noteq> CR" by (simp add: LF_def CR_def)
  with assms have "LF \<notin> set (data_prefix @ a @ [CR])" by (simp add: line_safe_def)
  from read_bytes_line [OF this, of "LF # rest" e] trim
  have "sse_loop None (rd (data_prefix @ a @ CR # LF # LF # rest) e) =
      (Inr (with_type \<lparr>ev_Type = '''', ev_Data = a\<rparr>), rd rest e)"
    by (simp add: sse_loop.simps [of None] Let_def sse_loop_blank add_data_def)
  then show ?thesis
    by (simp add: newSSEReader_def sse_Decode_def sse_encode_def sse_bytes_def with_type_def)
qed

lemma newSSEReader_no_data:
  "newSSEReader (rd (event_prefix @ bytes_of ''trailer'' @ [LF]) EOF) =
     (Inr \<lparr>sm_data = [], sm_isTrailer = True\<rparr>, rd [] EOF)"
  using sse_loop_event [of "''trailer''" None "[]" EOF]
  by (simp add: newSSEReader_def sse_Decode_def sse_loop.simps [of "Some _"] read_bytes_def
      trim_right_def set_type_def with_type_def)

text \<open>What the event format cannot carry, although the writer accepts it: a line feed in a payload
  makes the event malformed (unless the rest happens to be a valid line), a carriage return at
  its end is lost, and a stream that breaks off after the line with the type is taken for a
  complete trailer event without data.\<close>

lemma sse_limits:
  "(line_safe a \<and> line_safe b \<and> b \<noteq> [] \<and> \<not> has_prefix b data_prefix \<and> \<not> has_prefix b event_prefix \<longrightarrow>
      newSSEReader (rd (sse_encode False (a @ [LF] @ b) @ rest) e) =
        (Inl (OtherErr ''malformed event''), rd (LF # rest) e)) \<and>
   (line_safe a \<longrightarrow>
      fst (newSSEReader (rd (sse_encode False (a @ [CR]) @ rest) e)) =
        Inr \<lparr>sm_data = a, sm_isTrailer = False\<rparr>) \<and>
   newSSEReader (rd (event_prefix @ bytes_of ''trailer'' @ [LF]) EOF) =
     (Inr \<lparr>sm_data = [], sm_isTrailer = True\<rparr>, rd [] EOF)"
  using newSSEReader_line_feed [of a b rest e] newSSEReader_carriage_return [of a rest e]
    newSSEReader_no_data
  by simp

lemma sse_limits_instance:
  "newSSEReader (rd (sse_encode False (bytes_of ''{'' @ [LF] @ bytes_of ''}'') @ []) EOF) =
     (Inl (OtherErr ''malformed event''), rd [LF] EOF)"
  using sse_limits [of "bytes_of ''{''" "bytes_of ''}''" "[]" EOF]
  by (simp add: line_safe_def bytes_of_def LF_def CR_def has_prefix_def data_prefix_def event_prefix_def)

end
