(* ===== verification/Json_Properties.thy ===== *)
theory Json_Properties
  imports Json_Stream
begin

text \<open>
  The properties of JSON request streams: the round trip, bodies that break off, and values that
  run together.
\<close>

subsection \<open>Writing a sequence\<close>

primrec json_writes ::
    "('m \<Rightarrow> goerr + bytes) \<Rightarrow> 'm list \<Rightarrow> writer \<Rightarrow> (goerr option \<times> writer) go" where
  "json_writes marshal [] w = Ret (None, w)"
| "json_writes marshal (m # ms) w =
     go_bind (newJSONWriter marshal m False w)
       (\<lambda>(err, w1). if err \<noteq> None then Ret (err, w1) else json_writes marshal ms w1)"

definition json_msg :: "bytes \<Rightarrow> stream_msg" where
  "json_msg b = \<lparr>sm_data = b, sm_isTrailer = False\<rparr>"

lemma encodes_json: "json.encodes (map json_msg ds) = concat ds"
  by (simp add: json.encodes_def json_msg_def json_encode_def o_def)

lemma json_writes_out:
  assumes "\<forall>m \<in> set ms. \<exists>b. marshal m = Inr b" and "wr_room w = None"
  shows "json_writes marshal ms w =
    Ret (None, w\<lparr>wr_out := wr_out w @ concat (map (\<lambda>m. projr (marshal m)) ms)\<rparr>)"
  using assms
proof (induction ms arbitrary: w)
  case (Cons m ms)
  then obtain b where "marshal m = Inr b" by auto
  with Cons newJSONWriter_out [of marshal m b w] show ?case by (simp add: json_encode_def)
qed simp

text \<open>C37. The JSON stream round trip: what \<open>newJSONWriter\<close> writes for a sequence of messages that
  marshal to objects or arrays, \<open>newJSONReader\<close> returns message by message, byte for byte, and then
  the end of the stream. No separator is needed, since each value shows its own end.\<close>

theorem json_stream_roundtrip:
  assumes "\<forall>m \<in> set ms. \<exists>b. marshal m = Inr b \<and> json_closed b"
    and "wr_room w = None" and "wr_out w = []"
  shows "\<exists>w'. json_writes marshal ms w = Ret (None, w') \<and>
    json.decodes (length ms + n) (rd (wr_out w') e) =
      (map (\<lambda>m. Inr (json_msg (projr (marshal m)))) ms @ replicate n (Inl e), rd [] e)"
proof -
  let ?ds = "map (\<lambda>m. projr (marshal m)) ms"
  have "json_writes marshal ms w = Ret (None, w\<lparr>wr_out := concat ?ds\<rparr>)"
    using json_writes_out [of ms marshal w] assms by fastforce
  moreover have "\<forall>x \<in> set (map json_msg ?ds). json_ok (sm_isTrailer x) (sm_data x)"
    using assms(1) by (fastforce simp: json_msg_def json_ok_def)
  from json.decodes_encodes [OF this, of n e] have
    "json.decodes (length ms + n) (rd (concat ?ds) e) =
      (map (\<lambda>m. Inr (json_msg (projr (marshal m)))) ms @ replicate n (Inl e), rd [] e)"
    unfolding encodes_json by (simp add: o_def)
  ultimately show ?thesis by simp
qed

definition raw_json :: "bytes \<Rightarrow> goerr + bytes" where
  "raw_json b = Inr b"

lemma closed_examples:
  "json_closed (bytes_of [CHR ''{'', CHR 0x22, CHR ''a'', CHR 0x22, CHR '':'', CHR ''1'', CHR ''}''])"
  "json_closed (bytes_of ''[[1,2],{}]'')" "json_closed (bytes_of ''{}'')"
  by code_simp+

theorem json_stream_roundtrip_witness:
  "\<exists>w'. json_writes raw_json [bytes_of ''{}'', bytes_of ''[[1,2],{}]''] \<lparr>wr_out = [], wr_room = None\<rparr> =
      Ret (None, w') \<and>
    json.decodes 3 (rd (wr_out w') EOF) =
      ([Inr (json_msg (bytes_of ''{}'')), Inr (json_msg (bytes_of ''[[1,2],{}]'')), Inl EOF], rd [] EOF)"
  using json_stream_roundtrip [of "[bytes_of ''{}'', bytes_of ''[[1,2],{}]'']" raw_json
      "\<lparr>wr_out = [], wr_room = None\<rparr>" 1 EOF] closed_examples
  by (simp add: raw_json_def eval_nat_numeral del: json.decodes.simps json_writes.simps)

subsection \<open>A value that breaks off\<close>

text \<open>A scanner state in which some value has begun.\<close>

definition json_begun :: "json_scanner \<Rightarrow> bool" where
  "json_begun sc \<longleftrightarrow>
     snd sc \<noteq> [] \<or> fst sc \<notin> {BeginValueOrEmpty, BeginValue, BeginStringOrEmpty, BeginString}"

lemma json_begun_step:
  assumes "json_step sc c = (ScanContinue, sc')" and "json_begun sc \<or> \<not> json_space c"
    and "sc = json_start \<or> json_begun sc"
  shows "json_begun sc'"
  using assms
  by (cases "(sc, c)" rule: json_step.cases)
    (auto simp: json_begun_def json_begin_value_def json_begin_string_def json_push_def json_end_value_def
      json_int0_def json_start_def split: if_splits list.splits json_open.splits nat.splits)

lemma json_step_End: "json_step sc c = (ScanEnd, sc') \<Longrightarrow> snd sc = []"
  by (cases "(sc, c)" rule: json_step.cases)
    (auto simp: json_begin_value_def json_begin_string_def json_push_def json_end_value_def
      json_int0_def split: if_splits list.splits json_open.splits nat.splits)

text \<open>Outside of objects and arrays a value never ends with its last byte.\<close>

lemma json_step_bare:
  assumes "json_step (st, []) c = (op, sc')" and "json_begun (st, [])"
  shows "op \<noteq> ScanEndContainer" and "op = ScanContinue \<Longrightarrow> snd sc' = [] \<and> json_begun sc'"
  using assms
  by (cases "((st, [] :: json_open list), c)" rule: json_step.cases;
      auto simp: json_begun_def json_begin_value_def json_begin_string_def json_push_def json_end_value_def
        json_int0_def split: if_splits list.splits json_open.splits nat.splits)+

lemma json_scan_bare:
  "snd sc = [] \<Longrightarrow> json_begun sc \<Longrightarrow> json_scan sc b = JDone n \<Longrightarrow> n < length b"
proof (induction b arbitrary: sc n)
  case (Cons c cs)
  obtain st where sc: "sc = (st, [])" using Cons.prems(1) by (cases sc) auto
  obtain op sc' where step: "json_step sc c = (op, sc')" by (cases "json_step sc c")
  note bare = json_step_bare [OF step [unfolded sc] Cons.prems(2) [unfolded sc]]
  show ?case
  proof (cases op)
    case ScanContinue
    with Cons.prems(3) step obtain k where "n = Suc k" "json_scan sc' cs = JDone k"
      by (auto simp: json_longer_eq_JDone)
    with Cons.IH [of sc' k] bare(2) ScanContinue show ?thesis by simp
  qed (use Cons.prems(3) step bare(1) in auto)
qed simp

text \<open>The scanner on a prefix.\<close>

lemma json_scan_prefix:
  assumes "json_scan sc (p @ q) = JDone (length p + length q)" and "q \<noteq> []"
  shows "\<exists>sc'. json_scan sc p = JMore sc' \<and> json_scan sc' q = JDone (length q)"
  using assms(1)
proof (induction p arbitrary: sc)
  case (Cons c p)
  obtain op sc' where step: "json_step sc c = (op, sc')" by (cases "json_step sc c")
  with Cons.prems assms(2) have "json_scan sc' (p @ q) = JDone (length p + length q)"
    "op = ScanContinue \<or> (op = ScanEndContainer \<and> snd sc' \<noteq> [])"
    by (auto simp: json_longer_eq_JDone split: json_op.splits if_splits)
  with Cons.IH step show ?case by fastforce
qed simp

lemma json_scan_begun:
  "json_begun sc \<Longrightarrow> json_scan sc p = JMore sc' \<Longrightarrow> json_begun sc'"
proof (induction p arbitrary: sc)
  case (Cons c p)
  obtain op sc1 where step: "json_step sc c = (op, sc1)" by (cases "json_step sc c")
  with Cons.prems(2) have "json_scan sc1 p = JMore sc'" and
    op: "op = ScanContinue \<or> (op = ScanEndContainer \<and> snd sc1 \<noteq> [])"
    by (cases "json_scan sc1 p"; auto split: json_op.splits if_splits)+
  moreover from op have "json_begun sc1"
    using json_begun_step [of sc c sc1] step Cons.prems(1) by (auto simp: json_begun_def)
  ultimately show ?case using Cons.IH by blast
qed simp

lemma closed_prefix:
  assumes "json_closed d" and "0 < k" and "k < length d"
  shows "\<exists>sc. json_scan json_start (take k d) = JMore sc \<and> snd sc \<noteq> []"
proof -
  have d: "json_scan json_start (take k d @ drop k d) = JDone (length (take k d) + length (drop k d))"
    using assms by (simp add: json_closed_def)
  have "drop k d \<noteq> []" using assms(3) by simp
  from json_scan_prefix [OF d this] obtain sc where
    sc: "json_scan json_start (take k d) = JMore sc" "json_scan sc (drop k d) = JDone (length (drop k d))" by blast
  obtain c cs where c: "take k d = c # cs" using assms(2,3) by (cases d; cases k) auto
  then have "\<not> json_space c" using assms(1,2) by (cases d; cases k) (auto simp: json_closed_def)
  obtain op sc1 where step: "json_step json_start c = (op, sc1)" by (cases "json_step json_start c")
  have "json_begun sc1 \<and> json_scan sc1 cs = JMore sc"
  proof -
    from sc(1) c step have 1: "json_scan sc1 cs = JMore sc"
      and op: "op = ScanContinue \<or> (op = ScanEndContainer \<and> snd sc1 \<noteq> [])"
      by (cases "json_scan sc1 cs"; auto split: json_op.splits if_splits)+
    from op have "json_begun sc1"
      using json_begun_step [of json_start c sc1] step \<open>\<not> json_space c\<close> by (auto simp: json_begun_def)
    with 1 show ?thesis by blast
  qed
  then have "json_begun sc" using json_scan_begun by blast
  with json_scan_bare [of sc "drop k d"] sc show ?thesis by auto
qed

lemma list_all_space: "json_closed d \<Longrightarrow> 0 < k \<Longrightarrow> k < length d \<Longrightarrow> \<not> list_all json_space (take k d)"
  by (cases d; cases k) (auto simp: json_closed_def)

lemma newJSONReader_truncated:
  assumes "json_closed d" and "0 < k" and "k < length d"
  shows "newJSONReader (rd (take k d) EOF) = (Inl UnexpectedEOF, rd [] UnexpectedEOF)"
proof -
  obtain sc where sc: "json_scan json_start (take k d) = JMore sc" "snd sc \<noteq> []"
    using closed_prefix [OF assms] by blast
  then have "fst (json_step sc 32) \<noteq> ScanEnd"
    using json_step_End [of sc 32] by (cases "json_step sc 32") auto
  with sc(1) list_all_space [OF assms] show ?thesis
    by (simp add: newJSONReader_def json_Decode_def Let_def)
qed

text \<open>A JSON stream that breaks off inside an object or array: the complete messages before it are
  returned, and then \<open>io.ErrUnexpectedEOF\<close>, never a part of a message and never a clean end.\<close>

lemma json_stream_truncated:
  assumes "\<forall>x \<in> set ds. json_closed x" and "json_closed d" and "0 < k" and "k < length d"
  shows "fst (json.decodes (Suc (length ds)) (rd (concat ds @ take k d) EOF)) =
    map (Inr \<circ> json_msg) ds @ [Inl UnexpectedEOF]"
  using assms(1)
proof (induction ds)
  case Nil
  with newJSONReader_truncated [OF assms(2-4)] show ?case by simp
next
  case (Cons x ds)
  then show ?case by (simp add: newJSONReader_closed json_msg_def split_beta Let_def)
qed

lemma json_stream_truncated_instance:
  "fst (json.decodes 2 (rd (bytes_of ''{}'' @ bytes_of ''[[1,2],'') EOF)) =
    [Inr (json_msg (bytes_of ''{}'')), Inl UnexpectedEOF]"
proof -
  have "take 7 (bytes_of ''[[1,2],{}]'') = bytes_of ''[[1,2],''" by (simp add: bytes_of_def)
  with json_stream_truncated [of "[bytes_of ''{}'']" "bytes_of ''[[1,2],{}]''" 7] closed_examples
  show ?thesis by (simp add: numeral_2_eq_2 del: json.decodes.simps)
qed

subsection \<open>Values that do not show their end\<close>

text \<open>Messages that marshal to a bare number do not survive the JSON stream. Two of them, written
  one after the other by \<open>newJSONWriter\<close>, which puts nothing between them, are read back as one
  number and then the end of the stream.\<close>

lemma json_numbers_merge:
  assumes "marshal m1 = Inr a" and "marshal m2 = Inr b" and "a \<noteq> []" and "hd a \<noteq> 48"
    and "list_all json_digit (a @ b)"
  shows "\<exists>w. json_writes marshal [m1, m2] \<lparr>wr_out = [], wr_room = None\<rparr> = Ret (None, w) \<and>
    json.decodes 2 (rd (wr_out w) EOF) = ([Inr (json_msg (a @ b)), Inl EOF], rd [] EOF)"
proof -
  have "json_writes marshal [m1, m2] \<lparr>wr_out = [], wr_room = None\<rparr> = Ret (None, \<lparr>wr_out = a @ b, wr_room = None\<rparr>)"
    using json_writes_out [of "[m1, m2]" marshal "\<lparr>wr_out = [], wr_room = None\<rparr>"] assms(1,2) by simp
  moreover have "newJSONReader (rd (a @ b) EOF) = (Inr (json_msg (a @ b)), rd [] EOF)"
    using json_Decode_number [OF assms(5)] assms(3,4) by (simp add: newJSONReader_def json_msg_def)
  ultimately show ?thesis by (simp add: numeral_2_eq_2 json.decode_end)
qed

lemma json_numbers_merge_instance:
  "\<exists>w. json_writes raw_json [bytes_of ''12'', bytes_of ''34''] \<lparr>wr_out = [], wr_room = None\<rparr> = Ret (None, w) \<and>
    json.decodes 2 (rd (wr_out w) EOF) = ([Inr (json_msg (bytes_of ''1234'')), Inl EOF], rd [] EOF)"
proof -
  have "list_all json_digit (bytes_of ''12'' @ bytes_of ''34'')" "hd (bytes_of ''12'') \<noteq> 48"
    "bytes_of ''12'' @ bytes_of ''34'' = bytes_of ''1234''" by code_simp+
  with json_numbers_merge [of raw_json "bytes_of ''12''" "bytes_of ''12''" "bytes_of ''34''" "bytes_of ''34''"]
  show ?thesis by (simp add: raw_json_def)
qed

end
