(* ===== verification/Http_Mux.thy ===== *)
theory Http_Mux
  imports Http_Stream_Server
begin

text \<open>
  What the HTTP server uses of Go's standard library to route requests: \<open>path.Clean\<close> and
  \<open>path.Join\<close>, and \<open>http.ServeMux\<close> with the patterns that a path can be.

  A pattern is a host, which may be empty, and literal path segments. Patterns with a method,
  with wildcards or with a trailing slash never come from the names of services and methods; what
  \<open>HandleFunc\<close> does with one is the parameter \<open>oddp\<close>, and what \<open>http.RedirectHandler\<close> answers is
  the parameter \<open>redirect\<close>.
\<close>

subsection \<open>Paths\<close>

fun split_slash :: "string \<Rightarrow> string list" where
  "split_slash [] = [[]]"
| "split_slash (c # s) =
     (if c = CHR ''/'' then [] # split_slash s
      else (case split_slash s of [] \<Rightarrow> [[c]] | e # es \<Rightarrow> (c # e) # es))"

fun join_slash :: "string list \<Rightarrow> string" where
  "join_slash [] = []"
| "join_slash [e] = e"
| "join_slash (e # es) = e @ CHR ''/'' # join_slash es"

text \<open>One element of a path; the elements kept so far are a stack.\<close>

definition clean_step :: "bool \<Rightarrow> string list \<Rightarrow> string \<Rightarrow> string list" where
  "clean_step rooted out e =
     (if e = '''' \<or> e = ''.'' then out
      else if e = ''..'' then
        (case out of
           [] \<Rightarrow> if rooted then [] else [''..'']
         | x # xs \<Rightarrow> if x = ''..'' \<and> \<not> rooted then ''..'' # out else xs)
      else e # out)"

definition clean_elems :: "bool \<Rightarrow> string list \<Rightarrow> string list" where
  "clean_elems rooted es = rev (foldl (clean_step rooted) [] es)"

definition path_Clean :: "string \<Rightarrow> string" where
  "path_Clean p =
     (case p of
        [] \<Rightarrow> ''.''
      | c # _ \<Rightarrow>
          (let rooted = (c = CHR ''/''); es = clean_elems rooted (split_slash p)
           in if rooted then CHR ''/'' # join_slash es
              else if es = [] then ''.'' else join_slash es))"

text \<open>\<open>path.Join\<close> of two elements.\<close>

definition path_Join :: "string \<Rightarrow> string \<Rightarrow> string" where
  "path_Join a b =
     (if a = [] \<and> b = [] then [] else if a = [] then path_Clean b else path_Clean (a @ CHR ''/'' # b))"

text \<open>\<open>url.PathUnescape\<close>, \<open>None\<close> for an error; the mux then takes the segment as it is.\<close>

definition hex_digit :: "char \<Rightarrow> nat option" where
  "hex_digit c =
     (let n = of_char c
      in if 48 \<le> n \<and> n \<le> 57 then Some (n - 48)
         else if 97 \<le> n \<and> n \<le> 102 then Some (n - 87)
         else if 65 \<le> n \<and> n \<le> 70 then Some (n - 55) else None)"

fun PathUnescape :: "string \<Rightarrow> string option" where
  "PathUnescape [] = Some []"
| "PathUnescape (c # s) =
     (if c = CHR ''%'' then
        (case s of
           a # b # s' \<Rightarrow>
             (case (hex_digit a, hex_digit b) of
                (Some x, Some y) \<Rightarrow> map_option ((#) (char_of (16 * x + y))) (PathUnescape s')
              | _ \<Rightarrow> None)
         | _ \<Rightarrow> None)
      else map_option ((#) c) (PathUnescape s))"

definition unescape :: "string \<Rightarrow> string" where
  "unescape s = (case PathUnescape s of None \<Rightarrow> s | Some s' \<Rightarrow> s')"

subsection \<open>The mux\<close>

type_synonym mux_key = "string \<times> string list"
type_synonym 'f mux = "(mux_key \<times> 'f) list"

definition odd_pattern :: "string \<Rightarrow> bool" where
  "odd_pattern p \<longleftrightarrow>
     list_ex (\<lambda>c. c \<in> {CHR '' '', CHR 0x09, CHR ''{''}) p \<or> (p \<noteq> [] \<and> last p = CHR ''/'')"

definition parse_pattern :: "string \<Rightarrow> mux_key option" where
  "parse_pattern p =
     (case dropWhile (\<lambda>c. c \<noteq> CHR ''/'') p of
        [] \<Rightarrow> None
      | _ # rest \<Rightarrow> Some (takeWhile (\<lambda>c. c \<noteq> CHR ''/'') p, map unescape (split_slash rest)))"

definition HandleFunc :: "(string \<Rightarrow> 'f \<Rightarrow> 'f mux \<Rightarrow> 'f mux go) \<Rightarrow> string \<Rightarrow> 'f \<Rightarrow> 'f mux \<Rightarrow> 'f mux go" where
  "HandleFunc oddp pattern f mx =
     (if pattern = [] then Panic ''http: invalid pattern''
      else if odd_pattern pattern then oddp pattern f mx
      else case parse_pattern pattern of
             None \<Rightarrow> Panic ''host/path missing /''
           | Some k \<Rightarrow>
               if map_of mx k \<noteq> None then Panic ''conflicts with pattern''
               else Ret ((k, f) # mx))"

text \<open>The more specific pattern is the one with a host.\<close>

definition mux_match :: "'f mux \<Rightarrow> string \<Rightarrow> string list \<Rightarrow> 'f option" where
  "mux_match mx host segs =
     (case map_of mx (host, segs) of Some f \<Rightarrow> Some f | None \<Rightarrow> map_of mx ('''', segs))"

text \<open>The segments of a request's path; what follows a trailing slash counts as the segment \<open>/\<close>.\<close>

definition request_segs :: "string \<Rightarrow> string list" where
  "request_segs p =
     (case p of
        [] \<Rightarrow> []
      | _ # rest \<Rightarrow>
          (let es = split_slash rest
           in map unescape (butlast es) @ [if last es = '''' then ''/'' else unescape (last es)]))"

text \<open>\<open>cleanPath\<close> of \<open>net/http\<close>, which keeps a trailing slash.\<close>

definition mux_cleanPath :: "string \<Rightarrow> string" where
  "mux_cleanPath p =
     (case p of
        [] \<Rightarrow> ''/''
      | c # _ \<Rightarrow>
          (let p1 = (if c = CHR ''/'' then p else CHR ''/'' # p); np = path_Clean p1
           in if last p1 = CHR ''/'' \<and> np \<noteq> ''/'' then np @ ''/'' else np))"

text \<open>What of a request the mux looks at: whether its target is \<open>*\<close>, the \<open>Host\<close> header as it is
  and without a port, and the escaped path.\<close>

record http_target =
  tg_star :: bool
  tg_RawHost :: string
  tg_Host :: string
  tg_Path :: string

text \<open>A handler answers a request; \<open>room\<close> is the failure of the connection that the reply will
  meet.\<close>

type_synonym http_handler = "(nat \<times> goerr) option \<Rightarrow> http_request \<Rightarrow> response_writer go"

definition NotFound_reply :: response_writer where
  "NotFound_reply = http_Error ''404 page not found'' 404 new_response"

definition mux_ServeHTTP ::
    "(string \<Rightarrow> http_request \<Rightarrow> response_writer) \<Rightarrow> http_handler mux \<Rightarrow> http_target \<Rightarrow> http_handler" where
  "mux_ServeHTTP redirect mx tg room r =
     (if tg_star tg then Ret (WriteHeader 400 (rw_Set ''Connection'' ''close'' new_response))
      else if rq_Method r = ''CONNECT'' then
        (case mux_match mx (tg_RawHost tg) (request_segs (tg_Path tg)) of
           None \<Rightarrow> Ret NotFound_reply | Some f \<Rightarrow> f room r)
      else if mux_cleanPath (tg_Path tg) \<noteq> tg_Path tg then Ret (redirect (mux_cleanPath (tg_Path tg)) r)
      else (case mux_match mx (tg_Host tg) (request_segs (tg_Path tg)) of
              None \<Rightarrow> Ret NotFound_reply | Some f \<Rightarrow> f room r))"

subsection \<open>Lemmas\<close>

lemma split_slash_not_Nil [simp]: "split_slash s \<noteq> []"
  by (induction s) (auto split: list.split)

lemma split_slash_elem: "CHR ''/'' \<notin> set e \<Longrightarrow> split_slash e = [e]"
  by (induction e) auto

lemma split_slash_append: "split_slash (a @ CHR ''/'' # b) = split_slash a @ split_slash b"
  by (induction a) (auto split: list.split)

lemma split_join:
  "es \<noteq> [] \<Longrightarrow> (\<forall>e \<in> set es. CHR ''/'' \<notin> set e) \<Longrightarrow> split_slash (join_slash es) = es"
  by (induction es rule: join_slash.induct) (auto simp: split_slash_elem split_slash_append)

lemma split_slash_set: "\<forall>e \<in> set (split_slash s). set e \<subseteq> set s - {CHR ''/''}"
  by (induction s) (auto split: list.splits if_splits)

text \<open>The elements of a cleaned path.\<close>

definition plain_elem :: "string \<Rightarrow> bool" where
  "plain_elem e \<longleftrightarrow> e \<noteq> '''' \<and> e \<noteq> ''.'' \<and> e \<noteq> ''..'' \<and> CHR ''/'' \<notin> set e"

lemma clean_step_plain: "plain_elem e \<Longrightarrow> clean_step rooted out e = e # out"
  by (simp add: clean_step_def plain_elem_def)

lemma foldl_clean_plain:
  "\<forall>e \<in> set es. plain_elem e \<Longrightarrow> foldl (clean_step rooted) out es = rev es @ out"
  by (induction es arbitrary: out) (simp_all add: clean_step_plain)

lemma clean_elems_append_plain:
  "\<forall>e \<in> set es. plain_elem e \<Longrightarrow> clean_elems rooted (xs @ es) = clean_elems rooted xs @ es"
  by (simp add: clean_elems_def foldl_clean_plain)

lemma clean_step_rooted:
  "\<forall>x \<in> set out. plain_elem x \<and> set x \<subseteq> A \<Longrightarrow> CHR ''/'' \<notin> set e \<Longrightarrow> set e \<subseteq> A \<Longrightarrow>
   x \<in> set (clean_step True out e) \<Longrightarrow> plain_elem x \<and> set x \<subseteq> A"
  by (auto simp: clean_step_def plain_elem_def split: if_splits list.splits)

lemma foldl_clean_rooted:
  "\<forall>x \<in> set out. plain_elem x \<and> set x \<subseteq> A \<Longrightarrow> \<forall>e \<in> set es. CHR ''/'' \<notin> set e \<and> set e \<subseteq> A \<Longrightarrow>
   \<forall>x \<in> set (foldl (clean_step True) out es). plain_elem x \<and> set x \<subseteq> A"
proof (induction es arbitrary: out)
  case (Cons e es)
  have "\<forall>x \<in> set (clean_step True out e). plain_elem x \<and> set x \<subseteq> A"
    using clean_step_rooted [OF Cons.prems(1), of e] Cons.prems(2) by auto
  from Cons.IH [OF this] Cons.prems(2) show ?case by simp
qed simp

lemma clean_elems_rooted:
  assumes "x \<in> set (clean_elems True (split_slash s))"
  shows "plain_elem x" and "set x \<subseteq> set s"
proof -
  have "\<forall>e \<in> set (split_slash s). CHR ''/'' \<notin> set e \<and> set e \<subseteq> set s"
    using split_slash_set by blast
  from foldl_clean_rooted [of "[]", OF _ this] assms show "plain_elem x" "set x \<subseteq> set s"
    by (auto simp: clean_elems_def)
qed

lemma unescape_plain: "CHR ''%'' \<notin> set s \<Longrightarrow> unescape s = s"
proof -
  assume "CHR ''%'' \<notin> set s"
  then have "PathUnescape s = Some s" by (induction s) auto
  then show ?thesis by (simp add: unescape_def)
qed

text \<open>A path of plain elements without escapes: it is its own clean form, it is a pattern of its own
  elements, and a request for it has these elements.\<close>

definition path_of :: "string list \<Rightarrow> string" where
  "path_of es = CHR ''/'' # join_slash es"

definition routable :: "string list \<Rightarrow> bool" where
  "routable es \<longleftrightarrow> es \<noteq> [] \<and>
     (\<forall>e \<in> set es. plain_elem e \<and> (\<forall>c \<in> set e. c \<notin> {CHR '' '', CHR 0x09, CHR ''{'', CHR ''%''}))"

lemma set_join_slash: "set (join_slash es) \<subseteq> insert (CHR ''/'') (\<Union>e \<in> set es. set e)"
  by (induction es rule: join_slash.induct) auto

lemma last_join_slash: "es \<noteq> [] \<Longrightarrow> last es \<noteq> [] \<Longrightarrow> join_slash es \<noteq> [] \<and> last (join_slash es) = last (last es)"
  by (induction es rule: join_slash.induct) auto

lemma routable_split: "routable es \<Longrightarrow> split_slash (join_slash es) = es"
  by (rule split_join) (auto simp: routable_def plain_elem_def)

lemma routable_last:
  assumes "routable es"
  shows "last (path_of es) \<noteq> CHR ''/''" and "es \<noteq> []" and "last es \<noteq> []"
proof -
  show ne: "es \<noteq> []" using assms by (simp add: routable_def)
  with assms have e: "plain_elem (last es)" by (simp add: routable_def)
  then show "last es \<noteq> []" by (simp add: plain_elem_def)
  from last_join_slash [OF ne this] have "last (path_of es) = last (last es)" by (simp add: path_of_def)
  with e \<open>last es \<noteq> []\<close> show "last (path_of es) \<noteq> CHR ''/''"
    by (metis last_in_set plain_elem_def)
qed

lemma path_Clean_of:
  assumes "routable es"
  shows "path_Clean (path_of es) = path_of es"
proof -
  have "clean_elems True ([''''] @ es) = clean_elems True [''''] @ es"
    using assms by (intro clean_elems_append_plain) (simp add: routable_def)
  then have "clean_elems True ('''' # es) = es" by (simp add: clean_elems_def clean_step_def)
  then show ?thesis using routable_split [OF assms] by (simp add: path_Clean_def path_of_def Let_def)
qed

lemma mux_cleanPath_of: "routable es \<Longrightarrow> mux_cleanPath (path_of es) = path_of es"
  using path_Clean_of [of es] routable_last(1) [of es]
  by (simp add: mux_cleanPath_def path_of_def Let_def)

lemma parse_pattern_of:
  assumes "routable es"
  shows "parse_pattern (path_of es) = Some ('''', es)" and "\<not> odd_pattern (path_of es)"
proof -
  have "map unescape es = es"
    using assms by (intro map_idI unescape_plain) (auto simp: routable_def)
  then show "parse_pattern (path_of es) = Some ('''', es)"
    using routable_split [OF assms] by (simp add: parse_pattern_def path_of_def)
  have "c \<notin> {CHR '' '', CHR 0x09, CHR ''{''}" if "c \<in> set (path_of es)" for c
    using that set_join_slash [of es] assms by (fastforce simp: path_of_def routable_def)
  then show "\<not> odd_pattern (path_of es)"
    using routable_last(1) [OF assms] by (auto simp: odd_pattern_def list_ex_iff)
qed

lemma request_segs_of:
  assumes "routable es"
  shows "request_segs (path_of es) = es"
proof -
  have "map unescape es = es"
    using assms by (intro map_idI unescape_plain) (auto simp: routable_def)
  then have "map unescape (butlast es) @ [unescape (last es)] = es"
    using routable_last(2) [OF assms] by (metis append_butlast_last_id list.simps(8,9) map_append)
  then show ?thesis
    using routable_split [OF assms] routable_last(3) [OF assms]
    by (simp add: request_segs_def path_of_def Let_def)
qed

lemma HandleFunc_of:
  "routable es \<Longrightarrow> HandleFunc oddp (path_of es) f mx =
     (if map_of mx ('''', es) \<noteq> None then Panic ''conflicts with pattern'' else Ret ((('''', es), f) # mx))"
  using parse_pattern_of [of es] by (simp add: HandleFunc_def path_of_def)

lemma mux_ServeHTTP_of:
  assumes "routable es" and "tg_Path tg = path_of es" and "\<not> tg_star tg"
    and "\<forall>k \<in> fst ` set mx. fst k = ''''"
  shows "mux_ServeHTTP redirect mx tg room r =
    (case map_of mx ('''', es) of None \<Rightarrow> Ret NotFound_reply | Some f \<Rightarrow> f room r)"
proof -
  have "mux_match mx host es = map_of mx ('''', es)" for host
  proof (cases "host = ''''")
    case False
    with assms(4) have "map_of mx (host, es) = None" by (force simp: map_of_eq_None_iff)
    then show ?thesis by (simp add: mux_match_def)
  qed (simp add: mux_match_def split: option.split)
  then show ?thesis
    using assms(2,3) mux_cleanPath_of [OF assms(1)] request_segs_of [OF assms(1)]
    by (simp add: mux_ServeHTTP_def)
qed

text \<open>\<open>path.Join\<close> of a rooted base path and two names, as server and client build it.\<close>

definition base_elems :: "string \<Rightarrow> string list" where
  "base_elems base = clean_elems True (split_slash base)"

definition plain_name :: "string \<Rightarrow> bool" where
  "plain_name n \<longleftrightarrow> plain_elem n \<and> (\<forall>c \<in> set n. c \<notin> {CHR '' '', CHR 0x09, CHR ''{'', CHR ''%''})"

definition plain_base :: "string \<Rightarrow> bool" where
  "plain_base b \<longleftrightarrow> b \<noteq> [] \<and> hd b = CHR ''/'' \<and> (\<forall>c \<in> set b. c \<notin> {CHR '' '', CHR 0x09, CHR ''{'', CHR ''%''})"

lemma routable_base:
  "plain_base b \<Longrightarrow> plain_name svc \<Longrightarrow> plain_name mth \<Longrightarrow> routable (base_elems b @ [svc, mth])"
  using clean_elems_rooted [of _ b]
  by (fastforce simp: routable_def plain_base_def plain_name_def base_elems_def)

lemma path_Join_base:
  assumes "plain_base b" and "plain_name svc" and "plain_name mth"
  shows "path_Join b (svc @ ''/'' @ mth) = path_of (base_elems b @ [svc, mth])"
    and "path_Join b (''/'' @ svc @ ''/'' @ mth) = path_of (base_elems b @ [svc, mth])"
proof -
  have b: "b \<noteq> []" "hd b = CHR ''/''" using assms(1) by (simp_all add: plain_base_def)
  have nm: "CHR ''/'' \<notin> set svc" "CHR ''/'' \<notin> set mth" "plain_elem svc" "plain_elem mth"
    using assms(2,3) by (simp_all add: plain_name_def plain_elem_def)
  have split: "split_slash (b @ CHR ''/'' # svc @ CHR ''/'' # mth) = split_slash b @ [svc, mth]"
    "split_slash (b @ CHR ''/'' # CHR ''/'' # svc @ CHR ''/'' # mth) = (split_slash b @ [[]]) @ [svc, mth]"
    using nm(1,2) split_slash_append [of "[]" "svc @ CHR ''/'' # mth"]
    by (simp_all add: split_slash_append split_slash_elem)
  have clean: "clean_elems True (split_slash b @ [svc, mth]) = base_elems b @ [svc, mth]"
    "clean_elems True ((split_slash b @ [[]]) @ [svc, mth]) = base_elems b @ [svc, mth]"
    using nm(3,4) by (simp_all add: clean_elems_def foldl_clean_plain base_elems_def clean_step_def plain_elem_def)
  from b obtain b' where b': "b = CHR ''/'' # b'" by (cases b) auto
  have join: "path_Clean (b @ x) = path_of (clean_elems True (split_slash (b @ x)))" for x
    by (simp add: b' path_Clean_def path_of_def Let_def)
  show "path_Join b (svc @ ''/'' @ mth) = path_of (base_elems b @ [svc, mth])"
    using b(1) by (simp add: path_Join_def join split(1) clean(1))
  show "path_Join b (''/'' @ svc @ ''/'' @ mth) = path_of (base_elems b @ [svc, mth])"
    using b(1) clean(2) by (simp add: path_Join_def join split(2))
qed

end
