(* ===== verification/Http_Register.thy ===== *)
theory Http_Register
  imports Http_Mux
begin

text \<open>
  \<open>Server\<close> of \<open>httpgrpc/server.go\<close>: its options, the registration of services with the mux, and
  \<open>HandleServices\<close>, \<open>HandleMethod\<close> and \<open>HandleStream\<close>, which do the same for handlers that the
  caller mounts.

  A service implementation is a value of \<open>'h\<close>. The handler of a unary method gets it, the context
  and the decoding function, and the interceptor; that of a stream gets it and the stream's context.
\<close>

subsection \<open>The server and its options\<close>

record handler_opts =
  errFunc :: "error_renderer option"

type_synonym handler_option = "handler_opts \<Rightarrow> handler_opts"

definition ErrorRenderer :: "error_renderer option \<Rightarrow> handler_option" where
  "ErrorRenderer f = (\<lambda>h. h\<lparr>errFunc := f\<rparr>)"

definition handler_opts_of :: "handler_option list \<Rightarrow> handler_opts" where
  "handler_opts_of opts = foldl (\<lambda>h opt. opt h) \<lparr>errFunc = None\<rparr> opts"

type_synonym ('h, 'm) http_args = "'h \<times> server_ctx \<times> ('m \<Rightarrow> goerr + 'm)"
type_synonym 'm http_outcome = "sts_call list \<times> (goerr + 'm)"
type_synonym ('q, 'i, 'h, 'm) http_svc =
  "(('h, 'm) http_args, 'q, 'i, 'm http_outcome, 'h, server_ctx, 'm handler) svc"
type_synonym ('q, 'i, 'h, 'm) http_svc_map =
  "((('h, 'm) http_args, 'q, 'i, 'm http_outcome) unary_method,
    ('h, server_ctx, 'm handler) stream_handler, 'h) handler_map"

record ('q, 'i, 'h, 'm) http_server =
  hsv_mux :: "http_handler mux"
  hsv_handlers :: "('q, 'i, 'h, 'm) http_svc_map"
  hsv_basePath :: string
  hsv_unaryInt :: "('q, 'i, 'm http_outcome) unary_server_int option"
  hsv_streamInt :: "('h, server_ctx, stream_info, 'm handler) stream_server_int option"
  hsv_opts :: handler_opts

type_synonym ('q, 'i, 'h, 'm) server_option = "('q, 'i, 'h, 'm) http_server \<Rightarrow> ('q, 'i, 'h, 'm) http_server"

definition WithBasePath :: "string \<Rightarrow> ('q, 'i, 'h, 'm) server_option" where
  "WithBasePath path = (\<lambda>s. s\<lparr>hsv_basePath := path\<rparr>)"

definition hsv_WithServerUnaryInterceptor ::
    "('q, 'i, 'm http_outcome) unary_server_int option \<Rightarrow> ('q, 'i, 'h, 'm) server_option" where
  "hsv_WithServerUnaryInterceptor interceptor = (\<lambda>s. s\<lparr>hsv_unaryInt := interceptor\<rparr>)"

definition hsv_WithServerStreamInterceptor ::
    "('h, server_ctx, stream_info, 'm handler) stream_server_int option \<Rightarrow> ('q, 'i, 'h, 'm) server_option" where
  "hsv_WithServerStreamInterceptor interceptor = (\<lambda>s. s\<lparr>hsv_streamInt := interceptor\<rparr>)"

text \<open>A handler option is a server option, too.\<close>

definition handler_option_apply :: "handler_option \<Rightarrow> ('q, 'i, 'h, 'm) server_option" where
  "handler_option_apply ho = (\<lambda>s. s\<lparr>hsv_opts := ho (hsv_opts s)\<rparr>)"

definition NewServer :: "('q, 'i, 'h, 'm) server_option list \<Rightarrow> ('q, 'i, 'h, 'm) http_server" where
  "NewServer opts =
     foldl (\<lambda>s opt. opt s)
       \<lparr>hsv_mux = [], hsv_handlers = Some [], hsv_basePath = ''/'', hsv_unaryInt = None, hsv_streamInt = None,
        hsv_opts = \<lparr>errFunc = None\<rparr>\<rparr> opts"

subsection \<open>Registration\<close>

definition method_route ::
    "'m stream_env \<Rightarrow> ('q, 'i, 'm http_outcome) unary_server_int option \<Rightarrow> handler_opts \<Rightarrow> 'h \<Rightarrow> string \<Rightarrow>
     (('h, 'm) http_args, 'q, 'i, 'm http_outcome) unary_method method_desc \<Rightarrow> http_handler" where
  "method_route se unaryInt opts svr serviceName md = (\<lambda>room r. Ret
     (handleMethod (se_http se) serviceName (MethodName md) (\<lambda>ctx dec. md_handler md (svr, ctx, dec) unaryInt)
        (errFunc opts) r))"

definition stream_route ::
    "'m stream_env \<Rightarrow> ('h, server_ctx, stream_info, 'm handler) stream_server_int option \<Rightarrow> 'h \<Rightarrow> string \<Rightarrow>
     ('h, server_ctx, 'm handler) stream_handler stream_desc \<Rightarrow> http_handler" where
  "stream_route se streamInt svr serviceName sd = handleStream se svr serviceName sd streamInt"

fun register_routes :: "(string \<Rightarrow> 'f \<Rightarrow> 'mx \<Rightarrow> 'mx go) \<Rightarrow> (string \<times> 'f) list \<Rightarrow> 'mx \<Rightarrow> 'mx go" where
  "register_routes mux [] mx = Ret mx"
| "register_routes mux ((pattern, f) # rs) mx = go_bind (mux pattern f mx) (register_routes mux rs)"

text \<open>The two loops that \<open>RegisterService\<close> and \<open>HandleServices\<close> share.\<close>

definition service_routes ::
    "'m stream_env \<Rightarrow> ('q, 'i, 'm http_outcome) unary_server_int option \<Rightarrow>
     ('h, server_ctx, stream_info, 'm handler) stream_server_int option \<Rightarrow> handler_opts \<Rightarrow> string \<Rightarrow>
     ('q, 'i, 'h, 'm) http_svc \<Rightarrow> 'h \<Rightarrow> (string \<times> http_handler) list" where
  "service_routes se unaryInt streamInt opts basePath desc svr =
     map (\<lambda>md. (path_Join basePath (ServiceName desc @ ''/'' @ MethodName md),
                method_route se unaryInt opts svr (ServiceName desc) md)) (Methods desc) @
     map (\<lambda>sd. (path_Join basePath (ServiceName desc @ ''/'' @ StreamName sd),
                stream_route se streamInt svr (ServiceName desc) sd)) (Streams desc)"

definition hsv_RegisterService ::
    "(string \<Rightarrow> http_handler \<Rightarrow> http_handler mux \<Rightarrow> http_handler mux go) \<Rightarrow> 'm stream_env \<Rightarrow>
     ('h \<Rightarrow> string \<Rightarrow> bool) \<Rightarrow> ('q, 'i, 'h, 'm) http_server \<Rightarrow> ('q, 'i, 'h, 'm) http_svc \<Rightarrow> 'h option \<Rightarrow>
     ('q, 'i, 'h, 'm) http_server go" where
  "hsv_RegisterService oddp se implements s desc svr =
     go_bind (RegisterService implements (hsv_handlers s) desc svr) (\<lambda>hm.
       go_bind (register_routes (HandleFunc oddp)
           (service_routes se (hsv_unaryInt s) (hsv_streamInt s) (hsv_opts s) (hsv_basePath s) desc (the svr))
           (hsv_mux s))
         (\<lambda>mx. Ret (s\<lparr>hsv_handlers := hm, hsv_mux := mx\<rparr>)))"

definition hsv_GetServiceInfo :: "('q, 'i, 'h, 'm) http_server \<Rightarrow> (string \<times> service_info) list" where
  "hsv_GetServiceInfo s = GetServiceInfo (hsv_handlers s)"

definition hsv_ServeHTTP ::
    "(string \<Rightarrow> http_request \<Rightarrow> response_writer) \<Rightarrow> ('q, 'i, 'h, 'm) http_server \<Rightarrow> http_target \<Rightarrow> http_handler" where
  "hsv_ServeHTTP redirect s tg room r = mux_ServeHTTP redirect (hsv_mux s) tg room r"

text \<open>\<open>mux\<close> is the caller's function, \<open>mx\<close> what it changes, and \<open>order\<close> the order in which
  \<open>ForEach\<close> visits the services of \<open>reg\<close>.\<close>

definition HandleServices ::
    "(string \<Rightarrow> http_handler \<Rightarrow> 'mx \<Rightarrow> 'mx go) \<Rightarrow> 'm stream_env \<Rightarrow> string \<Rightarrow>
     (string \<times> ('q, 'i, 'h, 'm) http_svc \<times> 'h) list \<Rightarrow>
     ('q, 'i, 'm http_outcome) unary_server_int option \<Rightarrow>
     ('h, server_ctx, stream_info, 'm handler) stream_server_int option \<Rightarrow> handler_option list \<Rightarrow> 'mx \<Rightarrow> 'mx go" where
  "HandleServices mux se basePath order unaryInt streamInt opts mx =
     (let hOpts = handler_opts_of opts
      in for_each (\<lambda>mx desc svr. register_routes mux
             (service_routes se unaryInt streamInt hOpts basePath desc (the svr)) mx) order mx)"

definition HandleMethod ::
    "'m stream_env \<Rightarrow> 'h \<Rightarrow> string \<Rightarrow> (('h, 'm) http_args, 'q, 'i, 'm http_outcome) unary_method method_desc \<Rightarrow>
     ('q, 'i, 'm http_outcome) unary_server_int option \<Rightarrow> handler_option list \<Rightarrow> http_handler" where
  "HandleMethod se svr serviceName desc unaryInt opts =
     method_route se unaryInt (handler_opts_of opts) svr serviceName desc"

definition HandleStream ::
    "'m stream_env \<Rightarrow> 'h \<Rightarrow> string \<Rightarrow> ('h, server_ctx, 'm handler) stream_handler stream_desc \<Rightarrow>
     ('h, server_ctx, stream_info, 'm handler) stream_server_int option \<Rightarrow> handler_option list \<Rightarrow> http_handler" where
  "HandleStream se svr serviceName desc streamInt opts = stream_route se streamInt svr serviceName desc"

subsection \<open>The routes of one service\<close>

text \<open>The handlers by the name of the method.\<close>

definition named_routes ::
    "'m stream_env \<Rightarrow> ('q, 'i, 'm http_outcome) unary_server_int option \<Rightarrow>
     ('h, server_ctx, stream_info, 'm handler) stream_server_int option \<Rightarrow> handler_opts \<Rightarrow>
     ('q, 'i, 'h, 'm) http_svc \<Rightarrow> 'h \<Rightarrow> (string \<times> http_handler) list" where
  "named_routes se unaryInt streamInt opts desc svr =
     map (\<lambda>md. (MethodName md, method_route se unaryInt opts svr (ServiceName desc) md)) (Methods desc) @
     map (\<lambda>sd. (StreamName sd, stream_route se streamInt svr (ServiceName desc) sd)) (Streams desc)"

definition method_names :: "('u, 'v) service_desc \<Rightarrow> string list" where
  "method_names desc = map MethodName (Methods desc) @ map StreamName (Streams desc)"

definition plain_service :: "('u, 'v) service_desc \<Rightarrow> bool" where
  "plain_service desc \<longleftrightarrow>
     plain_name (ServiceName desc) \<and> (\<forall>n \<in> set (method_names desc). plain_name n) \<and> distinct (method_names desc)"

lemma named_routes_names: "map fst (named_routes se u s opts desc svr) = method_names desc"
  by (simp add: named_routes_def method_names_def)

lemma service_routes_named:
  assumes "plain_base b" and "plain_service desc"
  shows "service_routes se u s opts b desc svr =
    map (\<lambda>(n, f). (path_of (base_elems b @ [ServiceName desc, n]), f)) (named_routes se u s opts desc svr)"
  using assms path_Join_base(1) [OF assms(1)]
  by (auto simp: service_routes_def named_routes_def plain_service_def method_names_def)

lemma register_named:
  "plain_base b \<Longrightarrow> plain_name svc \<Longrightarrow> (\<forall>n \<in> fst ` set rs. plain_name n) \<Longrightarrow> distinct (map fst rs) \<Longrightarrow>
   (\<forall>n \<in> fst ` set rs. map_of mx ('''', base_elems b @ [svc, n]) = None) \<Longrightarrow>
   register_routes (HandleFunc oddp) (map (\<lambda>(n, f). (path_of (base_elems b @ [svc, n]), f)) rs) mx =
     Ret (rev (map (\<lambda>(n, f). (('''', base_elems b @ [svc, n]), f)) rs) @ mx)"
proof (induction rs arbitrary: mx)
  case (Cons r rs)
  obtain n f where r: "r = (n, f)" by (cases r)
  with Cons.prems have rt: "routable (base_elems b @ [svc, n])" by (simp add: routable_base)
  let ?mx = "(('''', base_elems b @ [svc, n]), f) # mx"
  have fresh: "n \<notin> fst ` set rs" using Cons.prems(4) r by simp
  then have "\<forall>n' \<in> fst ` set rs. map_of ?mx ('''', base_elems b @ [svc, n']) = None"
    using Cons.prems(5) r by auto
  with Cons have "register_routes (HandleFunc oddp) (map (\<lambda>(n, f). (path_of (base_elems b @ [svc, n]), f)) rs) ?mx =
      Ret (rev (map (\<lambda>(n, f). (('''', base_elems b @ [svc, n]), f)) rs) @ ?mx)" by simp
  then show ?case using HandleFunc_of [OF rt, of oddp f mx] Cons.prems(5) r by simp
qed simp

text \<open>A second method of the same name makes the registration panic.\<close>

lemma register_taken:
  "plain_base b \<Longrightarrow> plain_name svc \<Longrightarrow> (\<forall>n \<in> fst ` set rs. plain_name n) \<Longrightarrow> n \<in> fst ` set rs \<Longrightarrow>
   map_of mx ('''', base_elems b @ [svc, n]) \<noteq> None \<Longrightarrow>
   panics (register_routes (HandleFunc oddp) (map (\<lambda>(n, f). (path_of (base_elems b @ [svc, n]), f)) rs) mx)"
proof (induction rs arbitrary: mx)
  case (Cons r rs)
  obtain n' f' where r: "r = (n', f')" by (cases r)
  with Cons.prems have rt: "routable (base_elems b @ [svc, n'])" by (simp add: routable_base)
  show ?case
  proof (cases "map_of mx ('''', base_elems b @ [svc, n']) = None")
    case True
    then have "n' \<noteq> n" using Cons.prems(5) by auto
    with Cons r True show ?thesis by (simp add: HandleFunc_of [OF rt])
  qed (simp add: r HandleFunc_of [OF rt])
qed simp

lemma register_conflict:
  "plain_base b \<Longrightarrow> plain_name svc \<Longrightarrow> (\<forall>n \<in> fst ` set rs. plain_name n) \<Longrightarrow> \<not> distinct (map fst rs) \<Longrightarrow>
   panics (register_routes (HandleFunc oddp) (map (\<lambda>(n, f). (path_of (base_elems b @ [svc, n]), f)) rs) mx)"
proof (induction rs arbitrary: mx)
  case (Cons r rs)
  obtain n f where r: "r = (n, f)" by (cases r)
  with Cons.prems have rt: "routable (base_elems b @ [svc, n])" by (simp add: routable_base)
  show ?case
  proof (cases "distinct (map fst rs)")
    case False
    with Cons show ?thesis by (simp add: r HandleFunc_of [OF rt])
  next
    case True
    with Cons.prems(4) r have "n \<in> fst ` set rs" by simp
    with register_taken [of b svc rs n "(('''', base_elems b @ [svc, n]), f) # mx" oddp] Cons.prems(1-3)
    show ?thesis by (simp add: r HandleFunc_of [OF rt])
  qed
qed simp

lemma map_of_routes:
  assumes "distinct (map fst rs)"
  shows "map_of (rev (map (\<lambda>(n, f). (('''', b @ [svc, n]), f)) rs) @ mx) ('''', b @ [svc', n]) =
    (if svc' = svc \<and> n \<in> fst ` set rs then map_of rs n else map_of mx ('''', b @ [svc', n]))"
  using assms
proof (induction rs arbitrary: mx)
  case (Cons r rs)
  obtain n' f' where r: "r = (n', f')" by (cases r)
  have "distinct (map fst rs)" "n' \<notin> fst ` set rs" using Cons.prems r by simp_all
  with Cons.IH [of "(('''', b @ [svc, n']), f') # mx"] show ?case
    by (auto simp add: r simp del: map_of_append split: if_splits)
qed simp

subsection \<open>The server's invariant\<close>

text \<open>The mux has the routes of the registered services, and no others.\<close>

definition hsv_routes :: "'m stream_env \<Rightarrow> ('q, 'i, 'h, 'm) http_server \<Rightarrow> string \<Rightarrow> string \<Rightarrow> http_handler option" where
  "hsv_routes se s svc n =
     (case hm_get (hsv_handlers s) svc of
        None \<Rightarrow> None
      | Some (desc, h) \<Rightarrow> map_of (named_routes se (hsv_unaryInt s) (hsv_streamInt s) (hsv_opts s) desc h) n)"

definition hsv_inv :: "'m stream_env \<Rightarrow> ('q, 'i, 'h, 'm) http_server \<Rightarrow> bool" where
  "hsv_inv se s \<longleftrightarrow> plain_base (hsv_basePath s) \<and> hsv_handlers s \<noteq> None \<and>
     (\<forall>k \<in> fst ` set (hsv_mux s). \<exists>svc n. k = ('''', base_elems (hsv_basePath s) @ [svc, n])) \<and>
     (\<forall>svc n. map_of (hsv_mux s) ('''', base_elems (hsv_basePath s) @ [svc, n]) = hsv_routes se s svc n)"

lemma hsv_register_new:
  assumes inv: "hsv_inv se s" and ok: "acceptable implements desc (Some h)" "plain_service desc"
    and new: "hm_get (hsv_handlers s) (ServiceName desc) = None"
  shows "\<exists>s'. hsv_RegisterService oddp se implements s desc (Some h) = Ret s' \<and> hsv_inv se s' \<and>
    hsv_basePath s' = hsv_basePath s \<and> hsv_unaryInt s' = hsv_unaryInt s \<and> hsv_streamInt s' = hsv_streamInt s \<and>
    hsv_opts s' = hsv_opts s \<and>
    hm_get (hsv_handlers s') = (hm_get (hsv_handlers s))(ServiceName desc \<mapsto> (desc, h))"
proof -
  let ?b = "hsv_basePath s" and ?svc = "ServiceName desc"
  let ?rs = "named_routes se (hsv_unaryInt s) (hsv_streamInt s) (hsv_opts s) desc h"
  have b: "plain_base ?b" and hm: "hsv_handlers s \<noteq> None" using inv by (simp_all add: hsv_inv_def)
  from handler_map.register_new [of "hsv_handlers s" implements desc h] hm ok(1) new obtain hm' where hm':
    "RegisterService implements (hsv_handlers s) desc (Some h) = Ret hm'" "hm' \<noteq> None"
    "hm_get hm' = (hm_get (hsv_handlers s))(?svc \<mapsto> (desc, h))" by auto
  have names: "plain_name ?svc" "\<forall>n \<in> fst ` set ?rs. plain_name n" "distinct (map fst ?rs)"
    using ok(2) named_routes_names [of se "hsv_unaryInt s" "hsv_streamInt s" "hsv_opts s" desc h]
    by (simp_all add: plain_service_def flip: set_map)
  have fresh: "map_of (hsv_mux s) ('''', base_elems ?b @ [?svc, n]) = None" for n
    using inv new by (simp add: hsv_inv_def hsv_routes_def)
  then have mx: "register_routes (HandleFunc oddp) (service_routes se (hsv_unaryInt s) (hsv_streamInt s) (hsv_opts s) ?b desc h)
      (hsv_mux s) = Ret (rev (map (\<lambda>(n, f). (('''', base_elems ?b @ [?svc, n]), f)) ?rs) @ hsv_mux s)"
    using register_named [OF b names(1) names(2) names(3)] by (simp add: service_routes_named [OF b ok(2)])
  let ?s' = "s\<lparr>hsv_handlers := hm', hsv_mux := rev (map (\<lambda>(n, f). (('''', base_elems ?b @ [?svc, n]), f)) ?rs) @ hsv_mux s\<rparr>"
  have keep: "hsv_routes se ?s' svc n =
      (if svc = ?svc then map_of ?rs n else map_of (hsv_mux s) ('''', base_elems ?b @ [svc, n]))" for svc n
    using inv hm'(3) by (auto simp: hsv_inv_def hsv_routes_def split: option.split)
  have "map_of (hsv_mux ?s') ('''', base_elems ?b @ [svc, n]) = hsv_routes se ?s' svc n" for svc n
  proof (cases "svc = ?svc \<and> n \<in> fst ` set ?rs")
    case True
    with map_of_routes [OF names(3), of "base_elems ?b" ?svc "hsv_mux s" svc n] keep show ?thesis by simp
  next
    case False
    then have "svc = ?svc \<Longrightarrow> map_of ?rs n = None" by (simp add: map_of_eq_None_iff)
    with False map_of_routes [OF names(3), of "base_elems ?b" ?svc "hsv_mux s" svc n] keep fresh
    show ?thesis by auto
  qed
  moreover have "\<forall>k \<in> fst ` set (hsv_mux ?s'). \<exists>svc n. k = ('''', base_elems ?b @ [svc, n])"
    using inv by (auto simp: hsv_inv_def)
  ultimately have "hsv_inv se ?s'" using b hm'(2) by (simp add: hsv_inv_def)
  with hm'(1,3) mx show ?thesis by (simp add: hsv_RegisterService_def)
qed

lemma hsv_register_twice:
  assumes "hm_get (hsv_handlers s) (ServiceName desc) \<noteq> None"
  shows "panics (hsv_RegisterService oddp se implements s desc h)"
  using handler_map.register_twice [OF assms, of implements h]
  by (cases "RegisterService implements (hsv_handlers s) desc h") (simp_all add: hsv_RegisterService_def)

interpretation http_server: registrar
    "hsv_RegisterService oddp se (implements :: 'h \<Rightarrow> string \<Rightarrow> bool) :: ('q, 'i, 'h, 'm) http_server \<Rightarrow> _"
    "\<lambda>s. hm_get (hsv_handlers s)" "hsv_inv se"
    "\<lambda>desc h. acceptable implements desc h \<and> plain_service desc" "\<lambda>desc. desc"
proof unfold_locales
  fix s :: "('q, 'i, 'h, 'm) http_server" and desc :: "('q, 'i, 'h, 'm) http_svc" and h
  assume "hsv_inv se s" "acceptable implements desc (Some h) \<and> plain_service desc"
    "hm_get (hsv_handlers s) (ServiceName desc) = None"
  then show "\<exists>s'. hsv_RegisterService oddp se implements s desc (Some h) = Ret s' \<and> hsv_inv se s' \<and>
      hm_get (hsv_handlers s') = (hm_get (hsv_handlers s))(ServiceName desc \<mapsto> (desc, h))"
    using hsv_register_new [of se s implements desc h oddp] by blast
qed (rule hsv_register_twice)

text \<open>Registration leaves the configuration alone, and does with the mux what \<open>HandleServices\<close> does.\<close>

lemma hsv_RegisterService_mux:
  assumes "hsv_RegisterService oddp se implements s desc h = Ret s'"
  shows "hsv_basePath s' = hsv_basePath s" "hsv_unaryInt s' = hsv_unaryInt s" "hsv_streamInt s' = hsv_streamInt s"
    "hsv_opts s' = hsv_opts s"
    "register_routes (HandleFunc oddp) (service_routes se (hsv_unaryInt s) (hsv_streamInt s) (hsv_opts s)
       (hsv_basePath s) desc (the h)) (hsv_mux s) = Ret (hsv_mux s')"
  using assms by (auto simp: hsv_RegisterService_def go_bind_Ret_iff)

lemma hsv_register_all:
  "for_each (hsv_RegisterService oddp se implements) xs s = Ret s' \<Longrightarrow>
   hsv_basePath s' = hsv_basePath s \<and> hsv_unaryInt s' = hsv_unaryInt s \<and> hsv_streamInt s' = hsv_streamInt s \<and>
   hsv_opts s' = hsv_opts s \<and>
   for_each (\<lambda>mx desc svr. register_routes (HandleFunc oddp)
     (service_routes se (hsv_unaryInt s) (hsv_streamInt s) (hsv_opts s) (hsv_basePath s) desc (the svr)) mx) xs
     (hsv_mux s) = Ret (hsv_mux s')"
proof (induction xs arbitrary: s)
  case (Cons x xs)
  obtain n desc h where x: "x = (n, desc, h)" by (cases x)
  from Cons.prems x obtain s1 where s1: "hsv_RegisterService oddp se implements s desc (Some h) = Ret s1"
    "for_each (hsv_RegisterService oddp se implements) xs s1 = Ret s'"
    by (auto simp: go_bind_Ret_iff)
  with hsv_RegisterService_mux [OF s1(1)] Cons.IH [OF s1(2)] x show ?case by simp
qed simp

text \<open>The server answers by the routes of its services.\<close>

lemma hsv_ServeHTTP_routes:
  assumes "hsv_inv se s" and "plain_name svc" and "plain_name mth" and "\<not> tg_star tg"
    and "tg_Path tg = path_Join (hsv_basePath s) (''/'' @ svc @ ''/'' @ mth)"
  shows "hsv_ServeHTTP redirect s tg room r =
    (case hsv_routes se s svc mth of None \<Rightarrow> Ret NotFound_reply | Some f \<Rightarrow> f room r)"
proof -
  have b: "plain_base (hsv_basePath s)" using assms(1) by (simp add: hsv_inv_def)
  note rt = routable_base [OF b assms(2,3)]
  have "tg_Path tg = path_of (base_elems (hsv_basePath s) @ [svc, mth])"
    using path_Join_base(2) [OF b assms(2,3)] assms(5) by simp
  moreover have "\<forall>k \<in> fst ` set (hsv_mux s). fst k = ''''" using assms(1) by (fastforce simp: hsv_inv_def)
  ultimately have "hsv_ServeHTTP redirect s tg room r =
      (case map_of (hsv_mux s) ('''', base_elems (hsv_basePath s) @ [svc, mth]) of
         None \<Rightarrow> Ret NotFound_reply | Some f \<Rightarrow> f room r)"
    using mux_ServeHTTP_of [OF rt _ assms(4), of "hsv_mux s" redirect room r] by (simp add: hsv_ServeHTTP_def)
  then show ?thesis using assms(1) by (simp add: hsv_inv_def)
qed

lemma map_of_methods: "map_of (map (\<lambda>md. (MethodName md, f md)) mds) n = map_option f (FindUnaryMethod n mds)"
  by (induction mds) auto

lemma map_of_streams: "map_of (map (\<lambda>sd. (StreamName sd, f sd)) sds) n = map_option f (FindStreamingMethod n sds)"
  by (induction sds) auto

lemma Find_None: "FindUnaryMethod n mds = None \<longleftrightarrow> n \<notin> MethodName ` set mds"
  by (induction mds) auto

text \<open>With distinct names, at most one of the two lookups finds something.\<close>

lemma named_routes_find:
  assumes "distinct (method_names desc)"
  shows "map_of (named_routes se u si opts desc h) n =
     (case FindUnaryMethod n (Methods desc) of
        Some md \<Rightarrow> Some (method_route se u opts h (ServiceName desc) md)
      | None \<Rightarrow> map_option (stream_route se si h (ServiceName desc)) (FindStreamingMethod n (Streams desc)))"
proof (cases "FindStreamingMethod n (Streams desc)")
  case None
  then show ?thesis by (simp add: named_routes_def map_add_def map_of_methods map_of_streams split: option.split)
next
  case (Some sd)
  then have "n \<in> set (map StreamName (Streams desc))"
    using map_of_streams [of "\<lambda>sd. ()" "Streams desc" n] by (force dest!: map_of_SomeD)
  with assms have "n \<notin> set (map MethodName (Methods desc))" by (auto simp: method_names_def)
  then have "FindUnaryMethod n (Methods desc) = None"
    by (simp add: Find_None)
  with Some show ?thesis by (simp add: named_routes_def map_add_def map_of_methods map_of_streams)
qed

lemma Find_name:
  "FindUnaryMethod n mds = Some md \<Longrightarrow> MethodName md = n"
  "FindStreamingMethod n sds = Some sd \<Longrightarrow> StreamName sd = n"
  by (induction mds) (auto split: if_splits, induction sds, auto split: if_splits)

text \<open>The answers depend on the mux as a map only.\<close>

lemma mux_ServeHTTP_cong:
  "map_of mx = map_of mx' \<Longrightarrow> mux_ServeHTTP redirect mx tg room r = mux_ServeHTTP redirect mx' tg room r"
proof -
  assume "map_of mx = map_of mx'"
  then have "mux_match mx = mux_match mx'" by (intro ext) (simp only: mux_match_def)
  then show ?thesis by (simp only: mux_ServeHTTP_def)
qed

lemma hsv_inv_mux_unique:
  assumes "hsv_inv se s" "hsv_inv se s'" and "hsv_basePath s' = hsv_basePath s"
    and "hsv_routes se s = hsv_routes se s'"
  shows "map_of (hsv_mux s) = map_of (hsv_mux s')"
proof
  fix k
  show "map_of (hsv_mux s) k = map_of (hsv_mux s') k"
  proof (cases "\<exists>svc n. k = ('''', base_elems (hsv_basePath s) @ [svc, n])")
    case True
    with assms show ?thesis by (auto simp: hsv_inv_def)
  next
    case False
    with assms(1-3) have "k \<notin> fst ` set (hsv_mux s)" "k \<notin> fst ` set (hsv_mux s')"
      unfolding hsv_inv_def by metis+
    then show ?thesis by (simp add: map_of_eq_None_iff [THEN iffD2])
  qed
qed

subsection \<open>A new server\<close>

text \<open>The options that the package exports.\<close>

definition exported_option :: "('q, 'i, 'h, 'm) server_option \<Rightarrow> bool" where
  "exported_option opt \<longleftrightarrow>
     (\<exists>p. opt = WithBasePath p) \<or> (\<exists>i. opt = hsv_WithServerUnaryInterceptor i) \<or>
     (\<exists>i. opt = hsv_WithServerStreamInterceptor i) \<or> (\<exists>ho. opt = handler_option_apply ho)"

lemma foldl_exported:
  "\<forall>opt \<in> set opts. exported_option opt \<Longrightarrow>
   hsv_mux (foldl (\<lambda>s opt. opt s) s opts) = hsv_mux s \<and> hsv_handlers (foldl (\<lambda>s opt. opt s) s opts) = hsv_handlers s"
proof (induction opts arbitrary: s)
  case (Cons opt opts)
  have "hsv_mux (opt s) = hsv_mux s \<and> hsv_handlers (opt s) = hsv_handlers s"
    using Cons.prems by (auto simp: exported_option_def WithBasePath_def hsv_WithServerUnaryInterceptor_def
        hsv_WithServerStreamInterceptor_def handler_option_apply_def)
  with Cons show ?case by simp
qed simp

lemma NewServer_inv:
  assumes "\<forall>opt \<in> set opts. exported_option opt" and "plain_base (hsv_basePath (NewServer opts))"
  shows "hsv_inv se (NewServer opts)" and "hm_get (hsv_handlers (NewServer opts)) = (\<lambda>_. None)"
proof -
  have "hsv_mux (NewServer opts) = []" "hsv_handlers (NewServer opts) = Some []"
    using foldl_exported [OF assms(1)] by (simp_all add: NewServer_def)
  then show "hsv_inv se (NewServer opts)" "hm_get (hsv_handlers (NewServer opts)) = (\<lambda>_. None)"
    using assms(2) by (simp_all add: hsv_inv_def hsv_routes_def hm_get_def fun_eq_iff)
qed

end
