(* ===== verification/Http_Register_Properties.thy ===== *)
theory Http_Register_Properties
  imports Http_Register Http_Stream_Results
begin

text \<open>
  The properties of the HTTP server's registration and routing, with a concrete server for the
  witnesses.
\<close>

subsection \<open>A concrete server\<close>

definition calc_sd :: "(unit, unit, unit, nat) http_svc" where
  "calc_sd = \<lparr>ServiceName = ''calc.V1'', HandlerType = Some ''T'',
     Methods = [\<lparr>MethodName = ''Square'', md_handler = (\<lambda>(svr, ctx, dec) int. square_impl ctx dec)\<rparr>],
     Streams = [\<lparr>StreamName = ''Sum'', sd_handler = (\<lambda>svr ctx. HReturn None), ServerStreams = True, ClientStreams = True\<rparr>],
     svc_metadata = ''''\<rparr>"

definition calc_services :: "(string \<times> (unit, unit, unit, nat) http_svc \<times> unit) list" where
  "calc_services = [(''calc.V1'', calc_sd, ())]"

definition calc_new :: "(unit, unit, unit, nat) http_server" where
  "calc_new = NewServer [WithBasePath ''/rpc/'']"

definition calc_target :: "string \<Rightarrow> http_target" where
  "calc_target p = \<lparr>tg_star = False, tg_RawHost = ''h:80'', tg_Host = ''h'', tg_Path = p\<rparr>"

text \<open>A refusing parameter for other patterns, and a redirection without a body.\<close>

definition no_pattern :: "string \<Rightarrow> 'f \<Rightarrow> 'f mux \<Rightarrow> 'f mux go" where
  "no_pattern p f mx = Panic ''invalid pattern''"

definition moved :: "string \<Rightarrow> http_request \<Rightarrow> response_writer" where
  "moved p r = WriteHeader 301 (rw_Set ''Location'' p new_response)"

lemma calc_names:
  "plain_service calc_sd" "plain_base ''/rpc/''" "plain_name ''calc.V1''" "plain_name ''Square''"
  by (simp_all add: plain_service_def calc_sd_def method_names_def plain_name_def plain_elem_def plain_base_def)

lemma calc_new_sel [simp]:
  "hsv_basePath calc_new = ''/rpc/''" "hsv_unaryInt calc_new = None" "hsv_streamInt calc_new = None"
  "errFunc (hsv_opts calc_new) = None"
  by (simp_all add: calc_new_def NewServer_def WithBasePath_def)

lemma calc_accepted:
  "\<forall>(n, desc, h) \<in> set calc_services. n = ServiceName desc \<and> acceptable (\<lambda>_ _. True) desc (Some h) \<and> plain_service desc"
  using calc_names(1) by (simp add: calc_services_def acceptable_def) (simp add: calc_sd_def)

lemma calc_path: "path_Join ''/rpc/'' (''/'' @ ''calc.V1'' @ ''/'' @ ''Square'') = ''/rpc/calc.V1/Square''"
  by code_simp

text \<open>A request to square 7.\<close>

definition calc_request :: http_request where
  "calc_request = \<lparr>rq_Method = ''POST'', rq_Header = [(''Content-Type'', [UnaryRpcContentType_V1])],
     rq_Body = \<lparr>rd_bytes = [7], rd_end = EOF\<rparr>, rq_ctx_err = None\<rparr>"

subsection \<open>Routing\<close>

lemma foldl_handler_options:
  "foldl (\<lambda>s opt. opt s) s (map handler_option_apply hopts) =
   s\<lparr>hsv_opts := foldl (\<lambda>h opt. opt h) (hsv_opts s) hopts\<rparr>"
  by (induction hopts arbitrary: s) (simp_all add: handler_option_apply_def)

lemma NewServer_options:
  "hsv_basePath (NewServer ([WithBasePath b, hsv_WithServerUnaryInterceptor u, hsv_WithServerStreamInterceptor si] @
     map handler_option_apply hopts)) = b \<and>
   hsv_unaryInt (NewServer ([WithBasePath b, hsv_WithServerUnaryInterceptor u, hsv_WithServerStreamInterceptor si] @
     map handler_option_apply hopts)) = u \<and>
   hsv_streamInt (NewServer ([WithBasePath b, hsv_WithServerUnaryInterceptor u, hsv_WithServerStreamInterceptor si] @
     map handler_option_apply hopts)) = si \<and>
   hsv_opts (NewServer ([WithBasePath b, hsv_WithServerUnaryInterceptor u, hsv_WithServerStreamInterceptor si] @
     map handler_option_apply hopts)) = handler_opts_of hopts \<and>
   hsv_mux (NewServer ([WithBasePath b, hsv_WithServerUnaryInterceptor u, hsv_WithServerStreamInterceptor si] @
     map handler_option_apply hopts)) = []"
  by (simp add: NewServer_def WithBasePath_def hsv_WithServerUnaryInterceptor_def
      hsv_WithServerStreamInterceptor_def handler_opts_of_def foldl_handler_options)

text \<open>What \<open>ForEach\<close> visits.\<close>

lemma iteration_services:
  assumes "hm_inv implements reg" and "iteration_order reg xs"
  shows "distinct (map fst xs)"
    and "\<forall>(n, desc, h) \<in> set xs. n = ServiceName desc \<and> acceptable implements desc (Some h)"
    and "set xs = (case reg of None \<Rightarrow> {} | Some l \<Rightarrow> set l)"
  using assms by (auto simp: iteration_order_def hm_inv_def acceptable_def split: option.splits)

lemma http_registered:
  assumes "\<forall>opt \<in> set opts. exported_option opt" and "plain_base (hsv_basePath (NewServer opts))"
    and "distinct (map fst xs)"
    and "\<forall>(n, desc, h) \<in> set xs. n = ServiceName desc \<and> acceptable implements desc (Some h) \<and> plain_service desc"
  obtains s where "for_each (hsv_RegisterService oddp se implements) xs (NewServer opts) = Ret s" "hsv_inv se s"
    "hm_get (hsv_handlers s) = map_of xs" "hsv_basePath s = hsv_basePath (NewServer opts)"
    "hsv_unaryInt s = hsv_unaryInt (NewServer opts)" "hsv_streamInt s = hsv_streamInt (NewServer opts)"
    "hsv_opts s = hsv_opts (NewServer opts)"
    "for_each (\<lambda>mx desc svr. register_routes (HandleFunc oddp)
       (service_routes se (hsv_unaryInt s) (hsv_streamInt s) (hsv_opts s) (hsv_basePath s) desc (the svr)) mx) xs
       (hsv_mux (NewServer opts)) = Ret (hsv_mux s)"
proof -
  note new = NewServer_inv [OF assms(1,2)]
  have "\<forall>(n, desc, h) \<in> set xs. n = ServiceName desc \<and> (acceptable implements desc (Some h) \<and> plain_service desc) \<and>
      hm_get (hsv_handlers (NewServer opts)) n = None" using assms(4) by (auto simp: new(2))
  from http_server.register_all [OF new(1) assms(3) this] obtain s where s:
    "for_each (hsv_RegisterService oddp se implements) xs (NewServer opts) = Ret s" "hsv_inv se s"
    "hm_get (hsv_handlers s) = hm_get (hsv_handlers (NewServer opts)) ++ map_of (map (\<lambda>(n, desc, h). (n, desc, h)) xs)"
    by blast
  have "hm_get (hsv_handlers s) = map_of xs" using s(3) new(2) by (simp add: map_add_def fun_eq_iff split: option.split)
  with s(1,2) hsv_register_all [OF s(1)] that show ?thesis by simp
qed

lemma hsv_routes_answer:
  assumes "hm_get (hsv_handlers s) = m"
    and "\<And>desc h. m svc = Some (desc, h) \<Longrightarrow> ServiceName desc = svc"
    and "\<And>desc h. m svc = Some (desc, h) \<Longrightarrow> distinct (method_names desc)"
  shows "(case hsv_routes se s svc mth of None \<Rightarrow> Ret NotFound_reply | Some f \<Rightarrow> f room r) =
    (case m svc of
         None \<Rightarrow> Ret NotFound_reply
       | Some (desc, h) \<Rightarrow>
           (case (FindUnaryMethod mth (Methods desc), FindStreamingMethod mth (Streams desc)) of
              (Some md, _) \<Rightarrow>
                Ret (handleMethod (se_http se) svc mth
                  (\<lambda>ctx dec. md_handler md (h, ctx, dec) (hsv_unaryInt s)) (errFunc (hsv_opts s)) r)
            | (None, Some sd) \<Rightarrow> handleStream se h svc sd (hsv_streamInt s) room r
            | (None, None) \<Rightarrow> Ret NotFound_reply))"
proof (cases "m svc")
  case (Some dh)
  then obtain desc h where dh: "m svc = Some (desc, h)" by (cases dh) auto
  let ?r = "named_routes se (hsv_unaryInt s) (hsv_streamInt s) (hsv_opts s) desc h"
  note find = named_routes_find [OF assms(3) [OF dh], of se "hsv_unaryInt s" "hsv_streamInt s" "hsv_opts s" h mth]
  have routes: "hsv_routes se s svc mth = map_of ?r mth" by (simp add: hsv_routes_def assms(1) dh)
  show ?thesis
  proof (cases "FindUnaryMethod mth (Methods desc)")
    case (Some md)
    with Find_name(1) [OF Some] show ?thesis
      by (simp add: routes find dh method_route_def assms(2) [OF dh])
  next
    case None
    then show ?thesis
      by (cases "FindStreamingMethod mth (Streams desc)")
        (simp_all add: routes find dh stream_route_def assms(2) [OF dh])
  qed
qed (simp add: hsv_routes_def assms(1))

text \<open>C23. Registration and routing of the HTTP server. Take a server made with exported options and a
  rooted base path, and register services with ordinary names. Then every request for
  \<open>path.Join(base, "/service/method")\<close>, which is the path that the client's \<open>Invoke\<close> and
  \<open>NewStream\<close> build, goes to the handler of that method: \<open>handleMethod\<close> for a unary one,
  \<open>handleStream\<close> for a stream, each with the registered implementation, the server's
  interceptor and, for a unary one, its error renderer. A request for another service or
  method gets the status 404. And registering a service once more panics.\<close>

theorem http_registration:
  fixes opts :: "('q, 'i, 'h, 'm) server_option list"
  assumes "\<forall>opt \<in> set opts. exported_option opt" and "s0 = NewServer opts" and "plain_base (hsv_basePath s0)"
    and "distinct (map fst xs)"
    and "\<forall>(n, desc, h) \<in> set xs. n = ServiceName desc \<and> acceptable implements desc (Some h) \<and> plain_service desc"
    and "plain_name svc" and "plain_name mth"
    and "tg_Path tg = path_Join (hsv_basePath s0) (''/'' @ svc @ ''/'' @ mth)" and "\<not> tg_star tg"
  shows "\<exists>s. for_each (hsv_RegisterService oddp se implements) xs s0 = Ret s \<and>
    hsv_ServeHTTP redirect s tg room r =
      (case map_of xs svc of
         None \<Rightarrow> Ret NotFound_reply
       | Some (desc, h) \<Rightarrow>
           (case (FindUnaryMethod mth (Methods desc), FindStreamingMethod mth (Streams desc)) of
              (Some md, _) \<Rightarrow>
                Ret (handleMethod (se_http se) svc mth
                  (\<lambda>ctx dec. md_handler md (h, ctx, dec) (hsv_unaryInt s0)) (errFunc (hsv_opts s0)) r)
            | (None, Some sd) \<Rightarrow> handleStream se h svc sd (hsv_streamInt s0) room r
            | (None, None) \<Rightarrow> Ret NotFound_reply)) \<and>
    rw_status NotFound_reply = Some 404 \<and>
    (\<forall>(n, desc, h) \<in> set xs. panics (hsv_RegisterService oddp se implements s desc (Some h)))"
proof -
  obtain s where s: "for_each (hsv_RegisterService oddp se implements) xs s0 = Ret s" "hsv_inv se s"
    "hm_get (hsv_handlers s) = map_of xs" "hsv_basePath s = hsv_basePath s0" "hsv_unaryInt s = hsv_unaryInt s0"
    "hsv_streamInt s = hsv_streamInt s0" "hsv_opts s = hsv_opts s0"
    using http_registered [OF assms(1) assms(3) [unfolded assms(2)] assms(4,5)] assms(2) by metis
  have names: "ServiceName desc = svc" "distinct (method_names desc)" if "map_of xs svc = Some (desc, h)" for desc h
    using map_of_SomeD [OF that] assms(5) by (auto simp: plain_service_def)
  from hsv_ServeHTTP_routes [OF s(2) assms(6,7,9)] assms(8) s(4)
  have "hsv_ServeHTTP redirect s tg room r =
      (case hsv_routes se s svc mth of None \<Rightarrow> Ret NotFound_reply | Some f \<Rightarrow> f room r)" by simp
  note answer = trans [OF this hsv_routes_answer [where s = s and svc = svc and se = se and mth = mth and room = room
      and r = r, OF s(3) names, unfolded s(5,6,7)]]
  have twice: "panics (hsv_RegisterService oddp se implements s desc (Some h))" if x: "(n, desc, h) \<in> set xs" for n desc h
  proof (rule http_server.register_twice)
    have "n = ServiceName desc" using x assms(5) by blast
    then show "hm_get (hsv_handlers s) (ServiceName desc) \<noteq> None"
      using map_of_mem_distinct [OF assms(4) x] by (simp add: s(3))
  qed
  have "rw_status NotFound_reply = Some 404" by (simp add: NotFound_reply_def http_Error_sel)
  with s(1) answer twice show ?thesis by (intro exI [of _ s] conjI) auto
qed

theorem http_registration_witness:
  "\<exists>s rw. for_each (hsv_RegisterService no_pattern number_se (\<lambda>_ _. True)) calc_services calc_new = Ret s \<and>
    hsv_ServeHTTP moved s (calc_target ''/rpc/calc.V1/Square'') None calc_request = Ret rw \<and>
    rw_status rw = Some 200 \<and> rw_body rw = [49]"
proof -
  let ?tg = "calc_target ''/rpc/calc.V1/Square''"
  have opts: "\<forall>opt \<in> set [WithBasePath ''/rpc/'']. exported_option opt" by (auto simp: exported_option_def)
  have path: "tg_Path ?tg = path_Join (hsv_basePath calc_new) (''/'' @ ''calc.V1'' @ ''/'' @ ''Square'')" "\<not> tg_star ?tg"
    using calc_path by (simp_all add: calc_target_def)
  have dist: "distinct (map fst calc_services)" by (simp add: calc_services_def)
  have base: "plain_base (hsv_basePath calc_new)" by (simp add: calc_names)
  note reg = http_registration [OF opts calc_new_def base dist calc_accepted calc_names(3,4) path,
      of no_pattern number_se moved None calc_request]
  have find: "map_of calc_services ''calc.V1'' = Some (calc_sd, ())" by (simp add: calc_services_def)
  have found: "FindUnaryMethod ''Square'' (Methods calc_sd) = Some (hd (Methods calc_sd))"
    "md_handler (hd (Methods calc_sd)) (svr, ctx, dec) int = square_impl ctx dec" for svr ctx dec int
    by (simp_all add: calc_sd_def)
  have "rw_status (handleMethod (se_http number_se) ''calc.V1'' ''Square'' square_impl None calc_request) = Some 200"
    "rw_body (handleMethod (se_http number_se) ''calc.V1'' ''Square'' square_impl None calc_request) = [49]"
    by code_simp+
  with reg show ?thesis by (simp add: find found) blast
qed

text \<open>C24. \<open>HandleServices\<close> does what a \<open>Server\<close> does. Let a handler map satisfy its invariant and its
  services have ordinary names. Registering its services with a mux by \<open>HandleServices\<close>, in any
  order in which \<open>ForEach\<close> visits them, succeeds; so does replaying the map into a new server with
  the same base path, interceptors and handler options, in any other order; and then the mux
  and the server answer every request alike.\<close>

theorem http_HandleServices:
  assumes "hm_inv implements reg" and "iteration_order reg xs" and "iteration_order reg ys"
    and "\<forall>(n, desc, h) \<in> set xs. plain_service desc" and "plain_base base"
    and "opts = [WithBasePath base, hsv_WithServerUnaryInterceptor u, hsv_WithServerStreamInterceptor si] @
      map handler_option_apply hopts"
  shows "\<exists>mx s. HandleServices (HandleFunc oddp) se base xs u si hopts [] = Ret mx \<and>
    for_each (hsv_RegisterService oddp se implements) ys (NewServer opts) = Ret s \<and>
    (\<forall>redirect tg room r. mux_ServeHTTP redirect mx tg room r = hsv_ServeHTTP redirect s tg room r)"
proof -
  have exported: "\<forall>opt \<in> set opts. exported_option opt" by (auto simp: assms(6) exported_option_def)
  have new: "hsv_basePath (NewServer opts) = base" "hsv_unaryInt (NewServer opts) = u"
    "hsv_streamInt (NewServer opts) = si" "hsv_opts (NewServer opts) = handler_opts_of hopts" "hsv_mux (NewServer opts) = []"
    using NewServer_options [of base u si hopts] by (simp_all add: assms(6))
  have base: "plain_base (hsv_basePath (NewServer opts))" by (simp add: new(1) assms(5))
  note xs = iteration_services [OF assms(1,2)] and ys = iteration_services [OF assms(1,3)]
  have plain: "\<forall>(n, desc, h) \<in> set xs. n = ServiceName desc \<and> acceptable implements desc (Some h) \<and> plain_service desc"
    "\<forall>(n, desc, h) \<in> set ys. n = ServiceName desc \<and> acceptable implements desc (Some h) \<and> plain_service desc"
    using xs(2,3) ys(2,3) assms(4) by auto
  obtain s1 where s1: "hsv_inv se s1" "hm_get (hsv_handlers s1) = map_of xs" "hsv_basePath s1 = base"
    "hsv_unaryInt s1 = u" "hsv_streamInt s1 = si" "hsv_opts s1 = handler_opts_of hopts"
    "for_each (\<lambda>mx desc svr. register_routes (HandleFunc oddp)
       (service_routes se (hsv_unaryInt s1) (hsv_streamInt s1) (hsv_opts s1) (hsv_basePath s1) desc (the svr)) mx) xs [] =
       Ret (hsv_mux s1)"
    using http_registered [OF exported base xs(1) plain(1), of oddp se] new by metis
  obtain s2 where s2: "for_each (hsv_RegisterService oddp se implements) ys (NewServer opts) = Ret s2" "hsv_inv se s2"
    "hm_get (hsv_handlers s2) = map_of ys" "hsv_basePath s2 = base" "hsv_unaryInt s2 = u" "hsv_streamInt s2 = si"
    "hsv_opts s2 = handler_opts_of hopts"
    using http_registered [OF exported base ys(1) plain(2), of oddp se] new by metis
  have "map_of xs = map_of ys" using map_of_inject_set [OF xs(1) ys(1)] xs(3) ys(3) by simp
  then have "hsv_routes se s1 = hsv_routes se s2"
    by (intro ext) (auto simp: hsv_routes_def s1(2,4,5,6) s2(3,5,6,7) split: option.split)
  from hsv_inv_mux_unique [OF s1(1) s2(2) _ this] s1(3) s2(4) have "map_of (hsv_mux s1) = map_of (hsv_mux s2)" by simp
  then have "mux_ServeHTTP redirect (hsv_mux s1) tg room r = hsv_ServeHTTP redirect s2 tg room r" for redirect tg room r
    unfolding hsv_ServeHTTP_def by (rule mux_ServeHTTP_cong)
  moreover have "HandleServices (HandleFunc oddp) se base xs u si hopts [] = Ret (hsv_mux s1)"
    using s1(7) by (simp add: HandleServices_def s1(3,4,5,6) Let_def)
  ultimately show ?thesis using s2(1) by blast
qed

theorem http_HandleServices_witness:
  "\<exists>mx s. HandleServices (HandleFunc no_pattern) number_se ''/rpc/'' calc_services None None [] [] = Ret mx \<and>
    for_each (hsv_RegisterService no_pattern number_se (\<lambda>_ _. True)) calc_services
      (NewServer [WithBasePath ''/rpc/'', hsv_WithServerUnaryInterceptor None, hsv_WithServerStreamInterceptor None]) = Ret s \<and>
    (\<forall>redirect tg room r. mux_ServeHTTP redirect mx tg room r = hsv_ServeHTTP redirect s tg room r)"
proof -
  have inv: "hm_inv (\<lambda>_ _. True) (Some calc_services)" "iteration_order (Some calc_services) calc_services"
    by (simp_all add: hm_inv_def iteration_order_def calc_services_def) (simp_all add: calc_sd_def)
  have plain: "\<forall>(n, desc, h) \<in> set calc_services. plain_service desc"
    using calc_names(1) by (simp add: calc_services_def)
  from http_HandleServices [OF inv(1,2,2) plain calc_names(2) refl,
      where u = None and si = None and hopts = "[]" and oddp = no_pattern and se = number_se]
  show ?thesis by simp
qed

end
