(* ===== verification/Http_Stream_Wrapper.thy ===== *)
theory Http_Stream_Wrapper
  imports Prelude
begin

text \<open>
  \<open>clientStreamWrapper\<close> of \<open>httpgrpc/client.go\<close>, through which a caller holds a stream. When the
  garbage collector finds the wrapper unreachable, a cleanup that \<open>NewStream\<close> has registered cancels the stream's
  context. So each method of the wrapper uses it once more after the call that it delegates to.

  A call under way is what is left of its body. The collector may take the wrapper when the caller
  holds it no more and no body under way will use it, and not before.
\<close>

subsection \<open>Methods\<close>

datatype w_method = WHeader | WTrailer | WCloseSend | WContext | WSendMsg | WRecvMsg

text \<open>Reading \<open>w.stream\<close>, the delegated call, and \<open>runtime.KeepAlive(w)\<close>.\<close>

datatype w_stmt = LoadStream | Delegate w_method | KeepAlive

fun w_body :: "w_method \<Rightarrow> w_stmt list" where
  "w_body WHeader = [LoadStream, Delegate WHeader, KeepAlive]"
| "w_body WTrailer = [LoadStream, Delegate WTrailer, KeepAlive]"
| "w_body WCloseSend = [LoadStream, Delegate WCloseSend, KeepAlive]"
| "w_body WContext = [LoadStream, Delegate WContext, KeepAlive]"
| "w_body WSendMsg = [LoadStream, Delegate WSendMsg, KeepAlive]"
| "w_body WRecvMsg = [LoadStream, Delegate WRecvMsg, KeepAlive]"

text \<open>Whether the rest of a body uses the wrapper.\<close>

definition uses_wrapper :: "w_stmt list \<Rightarrow> bool" where
  "uses_wrapper c \<longleftrightarrow> LoadStream \<in> set c \<or> KeepAlive \<in> set c"

definition delegating :: "w_stmt list \<Rightarrow> bool" where
  "delegating c \<longleftrightarrow> (\<exists>m. Delegate m \<in> set c)"

subsection \<open>Steps\<close>

record wrapper =
  w_held :: bool
  w_calls :: "w_stmt list list"
  w_cancelled :: bool

definition new_wrapper :: wrapper where
  "new_wrapper = \<lparr>w_held = True, w_calls = [], w_cancelled = False\<rparr>"

inductive w_step :: "wrapper \<Rightarrow> wrapper \<Rightarrow> bool" where
  call: "w_held w \<Longrightarrow> w_step w (w\<lparr>w_calls := w_body m # w_calls w\<rparr>)"
| run: "w_calls w = cs @ (st # c) # ds \<Longrightarrow> w_step w (w\<lparr>w_calls := cs @ c # ds\<rparr>)"
| return: "w_calls w = cs @ [] # ds \<Longrightarrow> w_step w (w\<lparr>w_calls := cs @ ds\<rparr>)"
| drop: "w_held w \<Longrightarrow> w_step w (w\<lparr>w_held := False\<rparr>)"
| cleanup: "\<not> w_held w \<Longrightarrow> \<forall>c \<in> set (w_calls w). \<not> uses_wrapper c \<Longrightarrow> w_step w (w\<lparr>w_cancelled := True\<rparr>)"

subsection \<open>No call is cut off\<close>

text \<open>What is left of a body uses the wrapper at least until its delegated call has returned.\<close>

definition alive :: "w_stmt list \<Rightarrow> bool" where
  "alive c \<longleftrightarrow> (delegating c \<longrightarrow> uses_wrapper c)"

definition w_inv :: "wrapper \<Rightarrow> bool" where
  "w_inv w \<longleftrightarrow> (\<forall>c \<in> set (w_calls w). \<exists>m. suffix c (w_body m)) \<and>
     (w_cancelled w \<longrightarrow> \<not> w_held w \<and> (\<forall>c \<in> set (w_calls w). \<not> uses_wrapper c))"

lemma suffix_alive: "suffix c (w_body m) \<Longrightarrow> alive c"
  by (cases m) (auto simp: suffix_Cons alive_def delegating_def uses_wrapper_def)

lemma uses_wrapper_Cons: "\<not> uses_wrapper (st # c) \<Longrightarrow> \<not> uses_wrapper c"
  by (auto simp: uses_wrapper_def)

lemma w_inv_step: "w_step w w' \<Longrightarrow> w_inv w \<Longrightarrow> w_inv w'"
proof (induction rule: w_step.induct)
  case (call w m)
  then show ?case by (auto simp: w_inv_def)
next
  case (run w cs st c ds)
  then show ?case by (auto simp: w_inv_def dest: suffix_ConsD uses_wrapper_Cons)
qed (auto simp: w_inv_def)

lemma wrapper_safe:
  assumes "w_step\<^sup>*\<^sup>* new_wrapper w" and "w_cancelled w" and "c \<in> set (w_calls w)"
  shows "\<not> delegating c"
proof -
  have "w_inv new_wrapper" by (simp add: w_inv_def new_wrapper_def)
  with assms(1) have "w_inv w" by (induction rule: rtranclp_induct) (auto intro: w_inv_step)
  with assms(2,3) obtain m where "suffix c (w_body m)" "\<not> uses_wrapper c" by (auto simp: w_inv_def)
  with suffix_alive show ?thesis by (auto simp: alive_def)
qed

subsection \<open>An abandoned stream is cancelled\<close>

lemma w_run_out:
  "w_calls w = cs @ c # ds \<Longrightarrow> w_step\<^sup>*\<^sup>* w (w\<lparr>w_calls := cs @ ds\<rparr>)"
proof (induction c arbitrary: w)
  case Nil
  then show ?case by (auto intro: w_step.return)
next
  case (Cons st c)
  from Cons.IH [of "w\<lparr>w_calls := cs @ c # ds\<rparr>"] w_step.run [OF Cons.prems]
  show ?case by (auto intro: converse_rtranclp_into_rtranclp)
qed

lemma w_drains: "w_step\<^sup>*\<^sup>* w (w\<lparr>w_calls := []\<rparr>)"
proof (induction "w_calls w" arbitrary: w)
  case Nil
  then have "w\<lparr>w_calls := []\<rparr> = w" by (cases w) simp
  then show ?case by simp
next
  case (Cons c cs)
  from Cons.hyps(1) [of "w\<lparr>w_calls := cs\<rparr>"] w_run_out [of w "[]" c cs] Cons.hyps(2)
  show ?case by (auto intro: rtranclp_trans)
qed

lemma wrapper_collected:
  assumes "\<not> w_held w"
  shows "\<exists>w'. w_step\<^sup>*\<^sup>* w w' \<and> w_cancelled w'"
proof -
  have "w_step (w\<lparr>w_calls := []\<rparr>) (w\<lparr>w_calls := [], w_cancelled := True\<rparr>)"
    using w_step.cleanup [of "w\<lparr>w_calls := []\<rparr>"] assms by simp
  with w_drains [of w] have "w_step\<^sup>*\<^sup>* w (w\<lparr>w_calls := [], w_cancelled := True\<rparr>)"
    by (rule rtranclp.rtrancl_into_rtrancl)
  moreover have "w_cancelled (w\<lparr>w_calls := [], w_cancelled := True\<rparr>)" by simp
  ultimately show ?thesis by blast
qed

end
