(* ===== verification/Test_Service.thy ===== *)
theory Test_Service
  imports Transport_Handler Inproc_Channel
begin

text \<open>
  The test service of \<open>grpchantesting/test_service.go\<close>, whose handlers the repository's own tests
  run behind every transport: \<open>TestServer\<close> with its unary method and its three kinds of
  streams, and what the handlers do on any list of requests.

  The handlers get the metadata of the context as \<open>md\<close>; they sleep for \<open>DelayMillis\<close>, which nothing
  here depends on. A loop that receives until the end of the stream is bounded by \<open>fuel\<close>, the
  number of calls of \<open>Recv\<close> it may make; the lemmas show that more calls than there are requests
  are enough. The generated code around a handler is \<open>RecvMsg\<close> into a zero message for \<open>Recv\<close> and
  for the request of \<open>ServerStream\<close>, and \<open>SendMsg\<close> for \<open>Send\<close> and \<open>SendAndClose\<close>.
\<close>

subsection \<open>Messages\<close>

record test_msg =
  tm_Payload :: bytes
  tm_Count :: "32 word"
  tm_Code :: "32 word"
  tm_DelayMillis :: "32 word"
  tm_Headers :: "(string \<times> bytes) list"
  tm_Trailers :: "(string \<times> bytes) list"
  tm_ErrorDetails :: "any_pb list"

definition zero_msg :: test_msg where
  "zero_msg = \<lparr>tm_Payload = [], tm_Count = 0, tm_Code = 0, tm_DelayMillis = 0, tm_Headers = [],
     tm_Trailers = [], tm_ErrorDetails = []\<rparr>"

definition MetadataNew :: "(string \<times> bytes) list \<Rightarrow> md" where
  "MetadataNew m = foldl (\<lambda>md (k, val). mappend md (to_lower k) [string_of val]) [] m"

definition asMap :: "md \<Rightarrow> (string \<times> bytes) list" where
  "asMap md = map (\<lambda>(k, vs). (k, bytes_of (last vs))) (filter (\<lambda>(k, vs). vs \<noteq> []) md)"

text \<open>\<open>status.FromProto(...).Err()\<close>, nil for the code \<open>OK\<close>.\<close>

definition statusFromRequest :: "code_table \<Rightarrow> test_msg \<Rightarrow> goerr option" where
  "statusFromRequest t req =
     (let c = code_of_num t (sint (tm_Code req))
      in if c = OK then None
         else Some (StatusErr \<lparr>st_code = c, st_message = ''error'', st_details = tm_ErrorDetails req\<rparr>))"

subsection \<open>The handlers\<close>

text \<open>The unary method: its calls on the transport stream and its outcome.\<close>

definition test_Unary :: "code_table \<Rightarrow> md \<Rightarrow> test_msg \<Rightarrow> sts_call list \<times> (goerr + test_msg option)" where
  "test_Unary t md req =
     ([CSetHeader (MetadataNew (tm_Headers req)), CSetTrailer (MetadataNew (tm_Trailers req))],
      if tm_Code req \<noteq> 0 then
        (case statusFromRequest t req of Some err \<Rightarrow> Inl err | None \<Rightarrow> Inr None)
      else Inr (Some (zero_msg\<lparr>tm_Headers := asMap md, tm_Payload := tm_Payload req\<rparr>)))"

text \<open>The body of an error check: \<open>if err != nil { return err }\<close>.\<close>

definition or_return :: "goerr option \<Rightarrow> 'm handler \<Rightarrow> 'm handler" where
  "or_return err h = (case err of Some e \<Rightarrow> HReturn (Some e) | None \<Rightarrow> h)"

definition out_of_fuel :: "'m handler" where
  "out_of_fuel = HReturn (Some (OtherErr ''out of fuel''))"

fun client_stream_loop ::
    "nat \<Rightarrow> test_msg option \<Rightarrow> 32 word \<Rightarrow> (test_msg option \<Rightarrow> 32 word \<Rightarrow> test_msg handler) \<Rightarrow> test_msg handler" where
  "client_stream_loop 0 req count done = out_of_fuel"
| "client_stream_loop (Suc fuel) req count done =
     HRecv zero_msg (\<lambda>r.
       case r of
         Inl err \<Rightarrow> if err = EOF then done req count else HReturn (Some err)
       | Inr req \<Rightarrow>
           if tm_Code req \<noteq> 0 then done (Some req) (count + 1)
           else client_stream_loop fuel (Some req) (count + 1) done)"

definition test_ClientStream :: "nat \<Rightarrow> code_table \<Rightarrow> md \<Rightarrow> test_msg handler" where
  "test_ClientStream fuel t md =
     client_stream_loop fuel None 0 (\<lambda>req count.
       let req = (case req of None \<Rightarrow> zero_msg | Some r \<Rightarrow> r)
       in HCall (OpSetHeader (MetadataNew (tm_Headers req))) (\<lambda>err. or_return err
            (HCall (OpSetTrailer (MetadataNew (tm_Trailers req))) (\<lambda>_.
               if tm_Code req \<noteq> 0 then HReturn (statusFromRequest t req)
               else HCall (OpSendMsg (Some (zero_msg\<lparr>tm_Headers := asMap md, tm_Payload := tm_Payload req,
                      tm_Count := count\<rparr>))) HReturn))))"

fun send_copies :: "nat \<Rightarrow> test_msg \<Rightarrow> test_msg handler \<Rightarrow> test_msg handler" where
  "send_copies 0 m done = done"
| "send_copies (Suc n) m done = HCall (OpSendMsg (Some m)) (\<lambda>err. or_return err (send_copies n m done))"

definition test_ServerStream :: "code_table \<Rightarrow> md \<Rightarrow> test_msg handler" where
  "test_ServerStream t md =
     HRecv zero_msg (\<lambda>r.
       case r of
         Inl err \<Rightarrow> HReturn (Some err)
       | Inr req \<Rightarrow>
           HCall (OpSetHeader (MetadataNew (tm_Headers req))) (\<lambda>err. or_return err
             (send_copies (nat (sint (tm_Count req)))
                (zero_msg\<lparr>tm_Headers := asMap md, tm_Payload := tm_Payload req\<rparr>)
                (HCall (OpSetTrailer (MetadataNew (tm_Trailers req))) (\<lambda>_.
                   if tm_Code req \<noteq> 0 then HReturn (statusFromRequest t req) else HReturn None)))))"

fun send_responses :: "test_msg list \<Rightarrow> test_msg handler \<Rightarrow> test_msg handler" where
  "send_responses [] done = done"
| "send_responses (m # ms) done = HCall (OpSendMsg (Some m)) (\<lambda>err. or_return err (send_responses ms done))"

text \<open>The part of \<open>BidiStream\<close> after its receiving loop, from the last request, the buffered
  responses and the flag.\<close>

definition bidi_end :: "code_table \<Rightarrow> test_msg option \<Rightarrow> test_msg list \<Rightarrow> bool \<Rightarrow> test_msg handler" where
  "bidi_end t req responses isHalfDuplex =
     send_responses (if isHalfDuplex then responses else [])
       (case req of
          None \<Rightarrow> HReturn None
        | Some r \<Rightarrow>
            HCall (OpSetTrailer (MetadataNew (tm_Trailers r))) (\<lambda>_.
              if tm_Code r \<noteq> 0 then HReturn (statusFromRequest t r) else HReturn None))"

fun bidi_loop ::
    "nat \<Rightarrow> code_table \<Rightarrow> md \<Rightarrow> test_msg option \<Rightarrow> 32 word \<Rightarrow> test_msg list \<Rightarrow> bool \<Rightarrow> test_msg handler" where
  "bidi_loop 0 t md req count responses isHalfDuplex = out_of_fuel"
| "bidi_loop (Suc fuel) t md req count responses isHalfDuplex =
     HRecv zero_msg (\<lambda>r.
       case r of
         Inl err \<Rightarrow> if err = EOF then bidi_end t req responses isHalfDuplex else HReturn (Some err)
       | Inr req \<Rightarrow>
           (let received = (\<lambda>isHalfDuplex.
                  if tm_Code req \<noteq> 0 then bidi_end t (Some req) responses isHalfDuplex
                  else (let replyMsg = zero_msg\<lparr>tm_Headers := asMap md, tm_Payload := tm_Payload req,
                              tm_Count := count + 1\<rparr>
                        in if isHalfDuplex
                           then bidi_loop fuel t md (Some req) (count + 1) (responses @ [replyMsg]) isHalfDuplex
                           else HCall (OpSendMsg (Some replyMsg)) (\<lambda>err. or_return err
                                  (bidi_loop fuel t md (Some req) (count + 1) responses isHalfDuplex))))
            in if count = 0
               then HCall (OpSetHeader (MetadataNew (tm_Headers req))) (\<lambda>err. or_return err
                      (received (sint (tm_Count req) < 0)))
               else received isHalfDuplex))"

definition test_BidiStream :: "nat \<Rightarrow> code_table \<Rightarrow> md \<Rightarrow> test_msg handler" where
  "test_BidiStream fuel t md = bidi_loop fuel t md None 0 [] False"

text \<open>\<open>UseExternalMessageTwice\<close> returns the empty message.\<close>

definition test_UseExternalMessageTwice :: "sts_call list \<times> (goerr + unit)" where
  "test_UseExternalMessageTwice = ([], Inr ())"

subsection \<open>What they do on a list of requests\<close>

text \<open>The requests that a receiving loop takes: up to the first that asks for an error.\<close>

fun taken :: "test_msg list \<Rightarrow> test_msg list" where
  "taken [] = []"
| "taken (m # ms) = (if tm_Code m \<noteq> 0 then [m] else m # taken ms)"

lemma taken_not_Nil [simp]: "taken (m # ms) \<noteq> []"
  by simp

definition last_taken :: "test_msg option \<Rightarrow> test_msg list \<Rightarrow> test_msg option" where
  "last_taken req ms = (if taken ms = [] then req else Some (last (taken ms)))"

lemma last_taken_simps [simp]:
  "last_taken req [] = req"
  "last_taken req (m # ms) = (if tm_Code m \<noteq> 0 then Some m else last_taken (Some m) ms)"
  by (auto simp: last_taken_def)

lemma or_return_None [simp]: "or_return None h = h"
  by (simp add: or_return_def)

lemma client_stream_loop_on:
  assumes "length reqs < fuel"
  shows "handler_on (client_stream_loop fuel req count done) fl reqs =
    handler_on (done (last_taken req reqs) (count + of_nat (length (taken reqs)))) fl
      (drop (length (taken reqs)) reqs)"
  using assms
proof (induction fuel req count "done" arbitrary: reqs rule: client_stream_loop.induct)
  case (2 fuel req count "done")
  show ?case
  proof (cases reqs)
    case (Cons m ms)
    with 2 show ?thesis by (auto simp: algebra_simps)
  qed simp
qed simp

text \<open>\<open>ClientStream\<close> answers with the number of requests and the payload of the last one.\<close>

lemma ClientStream_on:
  assumes "length reqs < fuel"
  shows "handler_on (test_ClientStream fuel t md) False reqs =
    (let req = (case last_taken None reqs of None \<Rightarrow> zero_msg | Some m \<Rightarrow> m)
     in ([OpSetHeader (MetadataNew (tm_Headers req)), OpSetTrailer (MetadataNew (tm_Trailers req))] @
          (if tm_Code req \<noteq> 0 then []
           else [OpSendMsg (Some (zero_msg\<lparr>tm_Headers := asMap md, tm_Payload := tm_Payload req,
                   tm_Count := of_nat (length (taken reqs))\<rparr>))]),
         if tm_Code req \<noteq> 0 then statusFromRequest t req else None))"
  unfolding test_ClientStream_def client_stream_loop_on [OF assms]
  by (simp add: call_result_def flushes_def Let_def)

lemma send_copies_on:
  "handler_on (send_copies n m done) fl reqs =
     (case handler_on done (fl \<or> n > 0) reqs of (ops, err) \<Rightarrow> (replicate n (OpSendMsg (Some m)) @ ops, err))"
  by (induction n arbitrary: fl) (simp_all add: call_result_def flushes_def split: prod.splits)

text \<open>\<open>ServerStream\<close> sends the payload as often as the request says, not at all for a negative
  count.\<close>

lemma ServerStream_on:
  "handler_on (test_ServerStream t md) False (req # reqs) =
    (OpSetHeader (MetadataNew (tm_Headers req)) #
       replicate (nat (sint (tm_Count req))) (OpSendMsg (Some (zero_msg\<lparr>tm_Headers := asMap md, tm_Payload := tm_Payload req\<rparr>))) @
       [OpSetTrailer (MetadataNew (tm_Trailers req))],
     if tm_Code req \<noteq> 0 then statusFromRequest t req else None)"
  by (simp add: test_ServerStream_def send_copies_on call_result_def flushes_def)

text \<open>The responses of \<open>BidiStream\<close>, numbered from \<open>count + 1\<close>.\<close>

fun replies :: "md \<Rightarrow> 32 word \<Rightarrow> test_msg list \<Rightarrow> test_msg list" where
  "replies md count [] = []"
| "replies md count (m # ms) =
     (if tm_Code m \<noteq> 0 then []
      else zero_msg\<lparr>tm_Headers := asMap md, tm_Payload := tm_Payload m, tm_Count := count + 1\<rparr> #
        replies md (count + 1) ms)"

abbreviation sendings :: "test_msg list \<Rightarrow> test_msg srv_op list" where
  "sendings ms \<equiv> map (\<lambda>m. OpSendMsg (Some m)) ms"

definition bidi_tail :: "code_table \<Rightarrow> test_msg option \<Rightarrow> test_msg srv_op list \<times> goerr option" where
  "bidi_tail t req =
     (case req of
        None \<Rightarrow> ([], None)
      | Some r \<Rightarrow> ([OpSetTrailer (MetadataNew (tm_Trailers r))],
                   if tm_Code r \<noteq> 0 then statusFromRequest t r else None))"

lemma send_responses_on:
  "handler_on (send_responses ms done) fl reqs =
     (case handler_on done (fl \<or> ms \<noteq> []) reqs of (ops, err) \<Rightarrow> (sendings ms @ ops, err))"
  by (induction ms arbitrary: fl) (simp_all add: call_result_def flushes_def split: prod.splits)

lemma bidi_end_on:
  "handler_on (bidi_end t req responses half) fl reqs =
     (sendings (if half then responses else []) @ fst (bidi_tail t req), snd (bidi_tail t req))"
  by (simp add: bidi_end_def bidi_tail_def send_responses_on split: option.splits)

lemma bidi_loop_on:
  assumes "length reqs < fuel" and "0 < k" and "k + length reqs \<le> 2 ^ 32"
  shows "handler_on (bidi_loop fuel t md req (of_nat k) responses half) fl reqs =
    (sendings ((if half then responses else []) @ replies md (of_nat k) reqs) @
       fst (bidi_tail t (last_taken req reqs)), snd (bidi_tail t (last_taken req reqs)))"
  using assms
proof (induction reqs arbitrary: fuel k req responses fl)
  case Nil
  then show ?case by (cases fuel) (simp_all add: bidi_end_on)
next
  case (Cons m ms)
  then obtain f where f: "fuel = Suc f" "length ms < f" by (cases fuel) auto
  have "of_nat k \<noteq> (0 :: 32 word)"
    using Cons.prems by (simp add: word_of_nat_eq_0_iff nat_dvd_not_less)
  moreover have "of_nat k + 1 = (of_nat (Suc k) :: 32 word)" by simp
  ultimately show ?case
    using Cons.IH [of f "Suc k"] Cons.prems f
    by (cases half) (simp_all add: bidi_end_on call_result_def flushes_def Let_def del: of_nat_Suc)
qed

text \<open>\<open>BidiStream\<close> sends the same responses in half and in full duplex.\<close>

lemma BidiStream_on:
  assumes "length (m # ms) < fuel" and "length (m # ms) \<le> 2 ^ 32"
  shows "handler_on (test_BidiStream fuel t md) False (m # ms) =
    (OpSetHeader (MetadataNew (tm_Headers m)) # sendings (replies md 0 (m # ms)) @
       [OpSetTrailer (MetadataNew (tm_Trailers (last (taken (m # ms)))))],
     if tm_Code (last (taken (m # ms))) \<noteq> 0 then statusFromRequest t (last (taken (m # ms))) else None)"
proof -
  obtain f where f: "fuel = Suc f" "length ms < f" using assms(1) by (cases fuel) auto
  have "(1 :: 32 word) = of_nat (Suc 0)" by simp
  then have loop: "handler_on (bidi_loop f t md (Some m) 1 responses half) fl ms =
    (sendings ((if half then responses else []) @ replies md 1 ms) @
       fst (bidi_tail t (last_taken (Some m) ms)), snd (bidi_tail t (last_taken (Some m) ms)))"
    for responses half fl
    using bidi_loop_on [OF f(2), of "Suc 0" t md "Some m" responses half fl] assms(2) by simp
  have "last_taken (Some m) ms = Some (last (m # taken ms))" by (simp add: last_taken_def)
  then show ?thesis
    by (simp add: test_BidiStream_def f(1) loop bidi_end_on bidi_tail_def call_result_def flushes_def Let_def)
qed

subsection \<open>The property\<close>

text \<open>C40. The streaming handlers of the test service, on any nonempty list of requests, whatever
  the transport that brings them. Let \<open>req\<close> be the last request that a handler takes: the first
  with an error code, or the last of all. \<open>ClientStream\<close> sets its header and trailers and
  answers with its payload and the number of requests taken; \<open>ServerStream\<close>, given the first
  request, sends as many copies as it asks for; \<open>BidiStream\<close> sends the same numbered responses in
  half duplex, where it buffers them, as in full duplex. A request with a code makes its
  status the error. The loops take no more calls of \<open>Recv\<close> than there are requests, and one.\<close>

theorem test_service_streams:
  assumes "length (m # ms) < fuel" and "length (m # ms) \<le> 2 ^ 32"
  shows "(let req = last (taken (m # ms)); n = of_nat (length (taken (m # ms)))
     in handler_on (test_ClientStream fuel t md) False (m # ms) =
          ([OpSetHeader (MetadataNew (tm_Headers req)), OpSetTrailer (MetadataNew (tm_Trailers req))] @
             (if tm_Code req \<noteq> 0 then []
              else [OpSendMsg (Some (zero_msg\<lparr>tm_Headers := asMap md, tm_Payload := tm_Payload req, tm_Count := n\<rparr>))]),
           if tm_Code req \<noteq> 0 then statusFromRequest t req else None) \<and>
        handler_on (test_BidiStream fuel t md) False (m # ms) =
          (OpSetHeader (MetadataNew (tm_Headers m)) # sendings (replies md 0 (m # ms)) @
             [OpSetTrailer (MetadataNew (tm_Trailers req))],
           if tm_Code req \<noteq> 0 then statusFromRequest t req else None)) \<and>
     handler_on (test_ServerStream t md) False (m # ms) =
       (OpSetHeader (MetadataNew (tm_Headers m)) #
          replicate (nat (sint (tm_Count m))) (OpSendMsg (Some (zero_msg\<lparr>tm_Headers := asMap md, tm_Payload := tm_Payload m\<rparr>))) @
          [OpSetTrailer (MetadataNew (tm_Trailers m))],
        if tm_Code m \<noteq> 0 then statusFromRequest t m else None)"
proof -
  have "last_taken None (m # ms) = Some (last (taken (m # ms)))" by (simp add: last_taken_def)
  with ClientStream_on [OF assms(1), of t md] BidiStream_on [OF assms, of t md] ServerStream_on [of t md m ms]
  show ?thesis unfolding Let_def option.case by (intro conjI) (simp_all only: option.case)
qed

theorem test_service_streams_witness:
  "handler_on (test_BidiStream 3 grpc_codes [(''k'', [''v''])]) False
     [zero_msg\<lparr>tm_Payload := [7], tm_Count := - 1\<rparr>, zero_msg\<lparr>tm_Payload := [8]\<rparr>] =
   ([OpSetHeader [],
     OpSendMsg (Some (zero_msg\<lparr>tm_Headers := [(''k'', bytes_of ''v'')], tm_Payload := [7], tm_Count := 1\<rparr>)),
     OpSendMsg (Some (zero_msg\<lparr>tm_Headers := [(''k'', bytes_of ''v'')], tm_Payload := [8], tm_Count := 2\<rparr>)),
     OpSetTrailer []], None)"
  using test_service_streams [of "zero_msg\<lparr>tm_Payload := [7], tm_Count := - 1\<rparr>" "[zero_msg\<lparr>tm_Payload := [8]\<rparr>]" 3
      grpc_codes "[(''k'', [''v''])]"]
  by (simp add: Let_def MetadataNew_def asMap_def) (simp add: zero_msg_def)

end
