(* ===== verification/Json_Codec.thy ===== *)
theory Json_Codec
  imports Http_Properties
begin

text \<open>
  \<open>httpgrpc/json.go\<close>: the codec that is registered under the name \<open>json\<close>, over \<open>protojson\<close>, which
  is a parameter, and that it keeps the law that the HTTP properties ask of a codec.
\<close>

subsection \<open>The codec\<close>

text \<open>What an \<open>any\<close> holds: a pointer to a message of the current API, with its contents, one to a
  message of the old API, or something else, with its type's name.\<close>

datatype ('p, 'q) go_any = ProtoMessage 'p | ProtoV1Message 'q | OtherValue string

record marshal_options =
  UseEnumNumbers :: bool
  EmitUnpopulated :: bool

record unmarshal_options =
  DiscardUnknown :: bool

text \<open>\<open>MessageV2\<close> gives a view of an old message, so that what is written to the view is in the
  message: \<open>pj_V2\<close> reads it and \<open>pj_V1\<close> is the message after a write.\<close>

record ('p, 'q) protojson =
  pj_Marshal :: "marshal_options \<Rightarrow> 'p \<Rightarrow> goerr + bytes"
  pj_Unmarshal :: "unmarshal_options \<Rightarrow> bytes \<Rightarrow> 'p \<Rightarrow> goerr + 'p"
  pj_V2 :: "'q \<Rightarrow> 'p"
  pj_V1 :: "'p \<Rightarrow> 'q"

definition grpcJsonMarshaler :: marshal_options where
  "grpcJsonMarshaler = \<lparr>UseEnumNumbers = True, EmitUnpopulated = True\<rparr>"

definition grpcJsonUnmarshaler :: unmarshal_options where
  "grpcJsonUnmarshaler = \<lparr>DiscardUnknown = True\<rparr>"

text \<open>The message, and the value that holds it once it has other contents.\<close>

definition asProtoMessage ::
    "('p, 'q) protojson \<Rightarrow> ('p, 'q) go_any \<Rightarrow> goerr + 'p \<times> ('p \<Rightarrow> ('p, 'q) go_any)" where
  "asProtoMessage pj v =
     (case v of
        ProtoMessage m \<Rightarrow> Inr (m, ProtoMessage)
      | ProtoV1Message m \<Rightarrow> Inr (pj_V2 pj m, \<lambda>m'. ProtoV1Message (pj_V1 pj m'))
      | OtherValue ty \<Rightarrow> Inl (OtherErr (ty @ '' does not implement proto.Message'')))"

definition jsonCodec_Marshal :: "('p, 'q) protojson \<Rightarrow> ('p, 'q) go_any \<Rightarrow> goerr + bytes" where
  "jsonCodec_Marshal pj v =
     (case asProtoMessage pj v of
        Inl err \<Rightarrow> Inl err
      | Inr (msg, _) \<Rightarrow> pj_Marshal pj grpcJsonMarshaler msg)"

definition jsonCodec_Unmarshal ::
    "('p, 'q) protojson \<Rightarrow> bytes \<Rightarrow> ('p, 'q) go_any \<Rightarrow> goerr + ('p, 'q) go_any" where
  "jsonCodec_Unmarshal pj data v =
     (case asProtoMessage pj v of
        Inl err \<Rightarrow> Inl err
      | Inr (msg, put) \<Rightarrow>
          (case pj_Unmarshal pj grpcJsonUnmarshaler data msg of Inl err \<Rightarrow> Inl err | Inr m \<Rightarrow> Inr (put m)))"

definition jsonCodec_Name :: string where "jsonCodec_Name = jsonCodecName"

subsection \<open>The law of a codec\<close>

text \<open>\<open>protojson\<close> reads what it has written with these options, into any message of the type.\<close>

definition reads_back :: "('p, 'q) protojson \<Rightarrow> 'p \<Rightarrow> bool" where
  "reads_back pj m \<longleftrightarrow>
     (\<forall>b. pj_Marshal pj grpcJsonMarshaler m = Inr b \<longrightarrow>
        (\<forall>out. pj_Unmarshal pj grpcJsonUnmarshaler b out = Inr m))"

lemma jsonCodec_roundtrip:
  assumes "asProtoMessage pj v = Inr (m, put)" and "asProtoMessage pj out = Inr (m', put')"
    and "reads_back pj m" and "jsonCodec_Marshal pj v = Inr b"
  shows "jsonCodec_Unmarshal pj b out = Inr (put' m)"
  using assms by (auto simp: jsonCodec_Marshal_def jsonCodec_Unmarshal_def reads_back_def)

text \<open>The codec on the messages of the current API, as the transports use it.\<close>

definition json_messages :: "('p, 'q) protojson \<Rightarrow> 'p wire_codec \<Rightarrow> 'p wire_codec" where
  "json_messages pj cdc = cdc\<lparr>
     c_Marshal := (\<lambda>m. jsonCodec_Marshal pj (ProtoMessage m)),
     c_Unmarshal := (\<lambda>b out. case jsonCodec_Unmarshal pj b (ProtoMessage out) of
                       Inr (ProtoMessage m) \<Rightarrow> Inr m
                     | Inr _ \<Rightarrow> Inl (OtherErr '''')
                     | Inl err \<Rightarrow> Inl err)\<rparr>"

lemma json_message_codec:
  assumes "\<And>m. reads_back pj m"
  shows "message_codec (json_messages pj cdc)"
  using assms jsonCodec_roundtrip [of pj "ProtoMessage _" _ _ "ProtoMessage _"]
  by (auto simp: message_codec_def json_messages_def asProtoMessage_def)

text \<open>A value that is no message is refused by both.\<close>

lemma jsonCodec_refuses:
  "jsonCodec_Marshal pj (OtherValue ty) = Inl (OtherErr (ty @ '' does not implement proto.Message''))"
  "jsonCodec_Unmarshal pj b (OtherValue ty) = Inl (OtherErr (ty @ '' does not implement proto.Message''))"
  by (simp_all add: jsonCodec_Marshal_def jsonCodec_Unmarshal_def asProtoMessage_def)

end
