(* ===== verification/Code_Gen.thy ===== *)
theory Code_Gen
  imports Inproc_Channel
begin

text \<open>
  The plugin \<open>cmd/protoc-gen-grpchan/protoc-gen-grpchan.go\<close>: its arguments, the elements of the
  Go file that it builds for a file of protobuf services, and the loop over the files.

  Descriptors carry what the plugin asks them. The names of Go packages, types and variables come
  from \<open>goprotoc\<close>'s \<open>plugins.GoNames\<close>, a parameter whose state is of type \<open>'n\<close>; \<open>gopoet\<close>
  renders the file, also a parameter. Types are the text that \<open>gopoet\<close> prints for them.
\<close>

subsection \<open>Arguments\<close>

record code_gen_args =
  debug :: bool
  legacyStubs :: bool
  legacyDescNames :: bool
  importPath :: string
  importMap :: "(string \<times> string) list"
  moduleRoot :: string
  sourceRelative :: bool

definition zero_args :: code_gen_args where
  "zero_args = \<lparr>debug = False, legacyStubs = False, legacyDescNames = False, importPath = '''',
     importMap = [], moduleRoot = '''', sourceRelative = False\<rparr>"

text \<open>The errors, with the values that their texts quote.\<close>

datatype arg_error =
    InvalidBool string string
  | RequiresArgument string
  | InvalidPaths string
  | MRequiresArgument string
  | UnknownOption string
  | ModuleWithSourceRelative

text \<open>For \<open>vals = [name]\<close> or \<open>vals = [name, value]\<close>.\<close>

definition boolVal :: "string \<Rightarrow> string option \<Rightarrow> arg_error + bool" where
  "boolVal name val =
     (case val of
        None \<Rightarrow> Inr True
      | Some v \<Rightarrow>
          if to_lower v \<in> {''true'', ''on'', ''yes'', ''1''} then Inr True
          else if to_lower v \<in> {''false'', ''off'', ''no'', ''0''} then Inr False
          else Inl (InvalidBool name v))"

definition arg_vals :: "string \<Rightarrow> string \<times> string option" where
  "arg_vals arg = (case splitn2 CHR ''='' arg of [n, v] \<Rightarrow> (n, Some v) | vs \<Rightarrow> (hd vs, None))"

definition parse_arg :: "code_gen_args \<Rightarrow> string \<Rightarrow> arg_error + code_gen_args" where
  "parse_arg result arg =
     (let (name, val) = arg_vals arg
      in if name = ''debug'' then
           (case boolVal name val of Inl err \<Rightarrow> Inl err | Inr b \<Rightarrow> Inr (result\<lparr>debug := b\<rparr>))
         else if name = ''legacy_stubs'' then
           (case boolVal name val of Inl err \<Rightarrow> Inl err | Inr b \<Rightarrow> Inr (result\<lparr>legacyStubs := b\<rparr>))
         else if name = ''legacy_desc_names'' then
           (case boolVal name val of Inl err \<Rightarrow> Inl err | Inr b \<Rightarrow> Inr (result\<lparr>legacyDescNames := b\<rparr>))
         else if name = ''import_path'' then
           (case val of None \<Rightarrow> Inl (RequiresArgument name) | Some v \<Rightarrow> Inr (result\<lparr>importPath := v\<rparr>))
         else if name = ''module'' then
           (case val of None \<Rightarrow> Inl (RequiresArgument name) | Some v \<Rightarrow> Inr (result\<lparr>moduleRoot := v\<rparr>))
         else if name = ''paths'' then
           (case val of
              None \<Rightarrow> Inl (RequiresArgument name)
            | Some v \<Rightarrow>
                if v = ''import'' then Inr (result\<lparr>sourceRelative := False\<rparr>)
                else if v = ''source_relative'' then Inr (result\<lparr>sourceRelative := True\<rparr>)
                else Inl (InvalidPaths v))
         else if 1 < length name \<and> hd name = CHR ''M'' then
           (case val of
              None \<Rightarrow> Inl (MRequiresArgument name)
            | Some v \<Rightarrow> Inr (result\<lparr>importMap := AList.update (tl name) v (importMap result)\<rparr>))
         else Inl (UnknownOption name))"

fun parse_args :: "code_gen_args \<Rightarrow> string list \<Rightarrow> arg_error + code_gen_args" where
  "parse_args result [] = Inr result"
| "parse_args result (arg # args) =
     (case parse_arg result arg of Inl err \<Rightarrow> Inl err | Inr r \<Rightarrow> parse_args r args)"

definition parseArgs :: "string list \<Rightarrow> arg_error + code_gen_args" where
  "parseArgs args =
     (case parse_args zero_args args of
        Inl err \<Rightarrow> Inl err
      | Inr result \<Rightarrow>
          if sourceRelative result \<and> moduleRoot result \<noteq> '''' then Inl ModuleWithSourceRelative
          else Inr result)"

subsection \<open>Descriptors, names and the generated file\<close>

record pb_method =
  pm_Name :: string
  pm_ClientStreaming :: bool
  pm_ServerStreaming :: bool
  pm_Input :: string
  pm_Output :: string

record pb_service =
  ps_Name :: string
  ps_FullName :: string
  ps_Methods :: "pb_method list"

record pb_file =
  pf_Name :: string
  pf_Services :: "pb_service list"

text \<open>\<open>gn_Unexport\<close> is \<open>gopoet.Unexport\<close>.\<close>

record 'n go_names =
  gn_New :: "(string \<times> string) list \<Rightarrow> string \<Rightarrow> bool \<Rightarrow> 'n"
  GoPackageForFileWithOverride :: "pb_file \<Rightarrow> string \<Rightarrow> 'n \<Rightarrow> 'n"
  GoPackageForFile :: "'n \<Rightarrow> pb_file \<Rightarrow> string \<times> string"
  OutputFilenameFor :: "'n \<Rightarrow> pb_file \<Rightarrow> string \<Rightarrow> string"
  CamelCase :: "string \<Rightarrow> string"
  gn_Unexport :: "string \<Rightarrow> string"
  GoTypeForServiceServer :: "'n \<Rightarrow> pb_service \<Rightarrow> string"
  GoTypeForServiceClient :: "'n \<Rightarrow> pb_service \<Rightarrow> string"
  GoNameOfServiceDesc :: "'n \<Rightarrow> pb_service \<Rightarrow> string"
  GoNameOfExportedServiceDesc :: "'n \<Rightarrow> pb_service \<Rightarrow> string"
  GoTypeForStreamClient :: "'n \<Rightarrow> pb_service \<Rightarrow> pb_method \<Rightarrow> string"
  GoTypeForStreamClientImpl :: "'n \<Rightarrow> pb_service \<Rightarrow> pb_method \<Rightarrow> string"
  GoTypeForMessage :: "'n \<Rightarrow> string \<Rightarrow> string"
  GoTypeOfRequest :: "'n \<Rightarrow> pb_method \<Rightarrow> string"
  GoTypeOfResponse :: "'n \<Rightarrow> pb_method \<Rightarrow> string"

text \<open>A function or method: receiver, name, comment, arguments, whether the last is variadic,
  results, body.\<close>

record go_func =
  fn_Receiver :: "string option"
  fn_Name :: string
  fn_Comment :: string
  fn_Args :: "(string \<times> string) list"
  fn_Variadic :: bool
  fn_Results :: "string list"
  fn_Body :: string

datatype go_elem = GoFunc go_func | GoStruct string "(string \<times> string) list"

record go_file =
  gf_Name :: string
  gf_Package :: "string \<times> string"
  gf_Comment :: string
  gf_Elements :: "go_elem list"

definition typeOfRegistry :: string where "typeOfRegistry = ''grpchan.ServiceRegistry''"
definition typeOfClientConn :: string where "typeOfClientConn = ''grpc.ClientConnInterface''"
definition typeOfContext :: string where "typeOfContext = ''context.Context''"
definition typeOfCallOptions :: string where "typeOfCallOptions = ''[]grpc.CallOption''"

definition serviceDescVarName :: "'n go_names \<Rightarrow> 'n \<Rightarrow> pb_service \<Rightarrow> bool \<Rightarrow> string" where
  "serviceDescVarName gn names sd legacyNames =
     (if legacyNames then GoNameOfServiceDesc gn names sd else GoNameOfExportedServiceDesc gn names sd)"

subsection \<open>Templates\<close>

text \<open>Of \<open>text/template\<close> only the fields of the data are used; an unknown one would be an error.\<close>

function render :: "(string \<Rightarrow> string option) \<Rightarrow> string \<Rightarrow> string option" where
  "render data [] = Some []"
| "render data (c # s) =
     (if take 3 (c # s) = ''{{.'' then
        (let rest = drop 2 s; n = takeWhile (\<lambda>c. c \<noteq> CHR ''}'') rest
         in case data n of
              None \<Rightarrow> None
            | Some v \<Rightarrow> map_option ((@) v) (render data (drop (length n + 2) rest)))
      else map_option ((#) c) (render data s))"
  by pat_completeness auto
termination by (relation "measure (\<lambda>(_, s). length s)") auto

record method_info_data =
  mi_ServiceName :: string
  mi_MethodName :: string
  mi_ServiceDesc :: string
  mi_StreamClient :: string
  mi_StreamIndex :: nat
  mi_RequestType :: string

definition method_fields :: "method_info_data \<Rightarrow> string \<Rightarrow> string option" where
  "method_fields mi = map_of
     [(''ServiceName'', mi_ServiceName mi), (''MethodName'', mi_MethodName mi),
      (''ServiceDesc'', mi_ServiceDesc mi), (''StreamClient'', mi_StreamClient mi),
      (''StreamIndex'', show_nat (mi_StreamIndex mi)), (''RequestType'', mi_RequestType mi)]"

definition nl :: string where "nl = [CHR 0x0A]"

fun code_lines :: "string list \<Rightarrow> string" where
  "code_lines [] = []"
| "code_lines [l] = l"
| "code_lines (l # ls) = l @ nl @ code_lines ls"

text \<open>The three templates, without the indentation, which \<open>gofmt\<close> sets.\<close>

definition bidi_template :: string where
  "bidi_template = code_lines
     [''stream, err := c.ch.NewStream(ctx, &{{.ServiceDesc}}.Streams[{{.StreamIndex}}], \"/{{.ServiceName}}/{{.MethodName}}\", opts...)'',
      ''if err != nil {'', ''return nil, err'', ''}'',
      ''x := &{{.StreamClient}}{stream}'', ''return x, nil'']"

definition server_stream_template :: string where
  "server_stream_template = code_lines
     [''stream, err := c.ch.NewStream(ctx, &{{.ServiceDesc}}.Streams[{{.StreamIndex}}], \"/{{.ServiceName}}/{{.MethodName}}\", opts...)'',
      ''if err != nil {'', ''return nil, err'', ''}'',
      ''x := &{{.StreamClient}}{stream}'',
      ''if err := x.ClientStream.SendMsg(in); err != nil {'', ''return nil, err'', ''}'',
      ''if err := x.ClientStream.CloseSend(); err != nil {'', ''return nil, err'', ''}'',
      ''return x, nil'']"

definition unary_template :: string where
  "unary_template = code_lines
     [''out := new({{.RequestType}})'',
      ''err := c.ch.Invoke(ctx, \"/{{.ServiceName}}/{{.MethodName}}\", in, out, opts...)'',
      ''if err != nil {'', ''return nil, err'', ''}'', ''return out, nil'']"

subsection \<open>The elements of one service\<close>

definition register_handler :: "'n go_names \<Rightarrow> 'n \<Rightarrow> code_gen_args \<Rightarrow> pb_service \<Rightarrow> go_elem" where
  "register_handler gn names args sd =
     (let svcName = CamelCase gn (ps_Name sd)
      in GoFunc \<lparr>fn_Receiver = None, fn_Name = ''RegisterHandler'' @ svcName,
           fn_Comment = ''Deprecated: Use Register'' @ svcName @ ''Server instead.'',
           fn_Args = [(''reg'', typeOfRegistry), (''srv'', GoTypeForServiceServer gn names sd)], fn_Variadic = False,
           fn_Results = [],
           fn_Body = ''reg.RegisterService(&'' @ serviceDescVarName gn names sd (legacyDescNames args) @ '', srv)''\<rparr>)"

definition client_type :: "'n go_names \<Rightarrow> pb_service \<Rightarrow> string" where
  "client_type gn sd = gn_Unexport gn (CamelCase gn (ps_Name sd)) @ ''ChannelClient''"

definition client_struct :: "'n go_names \<Rightarrow> pb_service \<Rightarrow> go_elem" where
  "client_struct gn sd = GoStruct (client_type gn sd) [(''ch'', typeOfClientConn)]"

definition client_constructor :: "'n go_names \<Rightarrow> 'n \<Rightarrow> pb_service \<Rightarrow> go_elem" where
  "client_constructor gn names sd =
     (let svcName = CamelCase gn (ps_Name sd)
      in GoFunc \<lparr>fn_Receiver = None, fn_Name = ''New'' @ svcName @ ''ChannelClient'',
           fn_Comment = ''Deprecated: Use New'' @ svcName @ ''Client instead.'',
           fn_Args = [(''ch'', typeOfClientConn)], fn_Variadic = False,
           fn_Results = [GoTypeForServiceClient gn names sd],
           fn_Body = ''return &'' @ client_type gn sd @ ''{ch: ch}''\<rparr>)"

text \<open>The body of a loop over the methods: the element, and whether \<open>streamCount\<close> goes up. A
  template that does not render makes \<open>gopoet\<close> fail; the result is \<open>None\<close> then.\<close>

definition client_method ::
    "'n go_names \<Rightarrow> 'n \<Rightarrow> code_gen_args \<Rightarrow> pb_service \<Rightarrow> nat \<Rightarrow> pb_method \<Rightarrow> (go_elem \<times> nat) option" where
  "client_method gn names args sd streamCount md =
     (let info = \<lparr>mi_ServiceName = ps_FullName sd, mi_MethodName = pm_Name md,
                  mi_ServiceDesc = serviceDescVarName gn names sd (legacyDescNames args),
                  mi_StreamClient = GoTypeForStreamClientImpl gn names sd md, mi_StreamIndex = streamCount,
                  mi_RequestType = GoTypeForMessage gn names (pm_Output md)\<rparr>;
          fn = (\<lambda>as rs tmpl. map_option (\<lambda>body. GoFunc
                 \<lparr>fn_Receiver = Some (client_type gn sd), fn_Name = CamelCase gn (pm_Name md), fn_Comment = '''',
                  fn_Args = [(''ctx'', typeOfContext)] @ as @ [(''opts'', typeOfCallOptions)], fn_Variadic = True,
                  fn_Results = rs @ [''error''], fn_Body = body\<rparr>) (render (method_fields info) tmpl))
      in if pm_ClientStreaming md then
           map_option (\<lambda>e. (e, streamCount + 1)) (fn [] [GoTypeForStreamClient gn names sd md] bidi_template)
         else if pm_ServerStreaming md then
           map_option (\<lambda>e. (e, streamCount + 1))
             (fn [(''in'', GoTypeOfRequest gn names md)] [GoTypeForStreamClient gn names sd md] server_stream_template)
         else
           map_option (\<lambda>e. (e, streamCount))
             (fn [(''in'', GoTypeOfRequest gn names md)] [GoTypeOfResponse gn names md] unary_template))"

fun client_methods ::
    "'n go_names \<Rightarrow> 'n \<Rightarrow> code_gen_args \<Rightarrow> pb_service \<Rightarrow> nat \<Rightarrow> pb_method list \<Rightarrow> go_elem list option" where
  "client_methods gn names args sd streamCount [] = Some []"
| "client_methods gn names args sd streamCount (md # mds) =
     (case client_method gn names args sd streamCount md of
        None \<Rightarrow> None
      | Some (e, n) \<Rightarrow> map_option ((#) e) (client_methods gn names args sd n mds))"

definition service_elements :: "'n go_names \<Rightarrow> 'n \<Rightarrow> code_gen_args \<Rightarrow> pb_service \<Rightarrow> go_elem list option" where
  "service_elements gn names args sd =
     (if \<not> legacyStubs args then Some [register_handler gn names args sd]
      else map_option (\<lambda>ms. [register_handler gn names args sd, client_struct gn sd, client_constructor gn names sd] @ ms)
        (client_methods gn names args sd 0 (ps_Methods sd)))"

fun all_elements :: "'n go_names \<Rightarrow> 'n \<Rightarrow> code_gen_args \<Rightarrow> pb_service list \<Rightarrow> go_elem list option" where
  "all_elements gn names args [] = Some []"
| "all_elements gn names args (sd # sds) =
     (case service_elements gn names args sd of
        None \<Rightarrow> None
      | Some es \<Rightarrow> map_option ((@) es) (all_elements gn names args sds))"

subsection \<open>The file and the plugin\<close>

definition path_Base :: "string \<Rightarrow> string" where
  "path_Base p =
     (if p = '''' then ''.''
      else (let q = rev (dropWhile (\<lambda>c. c = CHR ''/'') (rev p))
            in if q = '''' then ''/'' else rev (takeWhile (\<lambda>c. c \<noteq> CHR ''/'') (rev q))))"

text \<open>What \<open>gopoet.WriteGoFile\<close> returns: the text, or an error, which may carry the unformatted
  source.\<close>

datatype write_error = FormatError string string | WriteError string

datatype gen_error = ArgError arg_error | FileError string string "string option"

text \<open>\<open>None\<close> for a file without services, which makes no output.\<close>

definition generateChanStubs ::
    "'n go_names \<Rightarrow> (go_file \<Rightarrow> write_error + string) \<Rightarrow> pb_file \<Rightarrow> 'n \<Rightarrow> code_gen_args \<Rightarrow>
     write_error + (string \<times> string) option" where
  "generateChanStubs gn write fd names args =
     (if pf_Services fd = [] then Inr None
      else (let filename = OutputFilenameFor gn names fd ''.pb.grpchan.go''
            in case all_elements gn names args (pf_Services fd) of
                 None \<Rightarrow> Inl (WriteError ''template'')
               | Some es \<Rightarrow>
                   map_sum id (\<lambda>text. Some (filename, text)) (write
                     \<lparr>gf_Name = path_Base filename, gf_Package = GoPackageForFile gn names fd,
                      gf_Comment = ''Code generated by protoc-gen-grpchan. DO NOT EDIT.'' @ nl @
                        ''source: '' @ pf_Name fd,
                      gf_Elements = es\<rparr>)))"

text \<open>\<open>FileError\<close>: the file, the error, and the source that is shown when debugging.\<close>

fun gen_files ::
    "'n go_names \<Rightarrow> (go_file \<Rightarrow> write_error + string) \<Rightarrow> 'n \<Rightarrow> code_gen_args \<Rightarrow> pb_file list \<Rightarrow>
     gen_error + (string \<times> string) list" where
  "gen_files gn write names args [] = Inr []"
| "gen_files gn write names args (fd # fds) =
     (case generateChanStubs gn write fd names args of
        Inl (FormatError e src) \<Rightarrow> Inl (FileError (pf_Name fd) e (if debug args then Some src else None))
      | Inl (WriteError e) \<Rightarrow> Inl (FileError (pf_Name fd) e None)
      | Inr out \<Rightarrow>
          (case gen_files gn write names args fds of
             Inl e \<Rightarrow> Inl e
           | Inr outs \<Rightarrow> Inr ((case out of None \<Rightarrow> [] | Some o1 \<Rightarrow> [o1]) @ outs)))"

definition override_names :: "'n go_names \<Rightarrow> code_gen_args \<Rightarrow> pb_file list \<Rightarrow> 'n \<Rightarrow> 'n" where
  "override_names gn args files names =
     (if importPath args = '''' then names
      else foldl (\<lambda>names fd.
             if map_of (importMap args) (pf_Name fd) = None
             then GoPackageForFileWithOverride gn fd (importPath args) names else names) names files)"

definition doCodeGen ::
    "'n go_names \<Rightarrow> (go_file \<Rightarrow> write_error + string) \<Rightarrow> string list \<Rightarrow> pb_file list \<Rightarrow>
     gen_error + (string \<times> string) list" where
  "doCodeGen gn write reqArgs files =
     (case parseArgs reqArgs of
        Inl err \<Rightarrow> Inl (ArgError err)
      | Inr args \<Rightarrow>
          (let names = gn_New gn (importMap args) (moduleRoot args) (sourceRelative args)
           in gen_files gn write (override_names gn args files names) args files))"

end
