(* ===== verification/Code_Gen_Properties.thy ===== *)
theory Code_Gen_Properties
  imports Code_Gen
begin

text \<open>
  The properties of the code generator: what its arguments mean, and which method of a service each
  generated stub calls.
\<close>

subsection \<open>Arguments\<close>

text \<open>An argument is a name, or a name, an equals sign and a value. What the program accepts, in
  terms of the text of the argument: the values of a flag, the names, and the arguments that are
  refused, with their errors.\<close>

definition true_values :: "string list" where
  "true_values = [''true'', ''on'', ''yes'', ''1'']"

definition false_values :: "string list" where
  "false_values = [''false'', ''off'', ''no'', ''0'']"

definition flag_names :: "string list" where
  "flag_names = [''debug'', ''legacy_stubs'', ''legacy_desc_names'']"

definition text_names :: "string list" where
  "text_names = [''import_path'', ''module'', ''paths'']"

inductive refused :: "string \<Rightarrow> arg_error \<Rightarrow> bool" where
  flag: "n \<in> set flag_names \<Longrightarrow> to_lower v \<notin> set true_values \<union> set false_values \<Longrightarrow>
    refused (n @ ''='' @ v) (InvalidBool n v)"
| no_value: "n \<in> set text_names \<Longrightarrow> refused n (RequiresArgument n)"
| paths: "v \<noteq> ''import'' \<Longrightarrow> v \<noteq> ''source_relative'' \<Longrightarrow> refused (''paths='' @ v) (InvalidPaths v)"
| no_package: "f \<noteq> '''' \<Longrightarrow> CHR ''='' \<notin> set f \<Longrightarrow> refused (''M'' @ f) (MRequiresArgument (''M'' @ f))"
| unknown: "CHR ''='' \<notin> set n \<Longrightarrow> n \<notin> set flag_names \<union> set text_names \<Longrightarrow> \<nexists>f. f \<noteq> '''' \<and> n = ''M'' @ f \<Longrightarrow>
    a = n \<or> (\<exists>v. a = n @ ''='' @ v) \<Longrightarrow> refused a (UnknownOption n)"

text \<open>What the last argument with a name says, if there is one: no value, or a value.\<close>

fun last_given :: "string \<Rightarrow> string list \<Rightarrow> string option option" where
  "last_given name [] = None"
| "last_given name (a # args) =
     (case last_given name args of
        Some v \<Rightarrow> Some v
      | None \<Rightarrow>
          if a = name then Some None
          else if take (length name + 1) a = name @ ''='' then Some (Some (drop (length name + 1) a))
          else None)"

definition setting :: "string \<Rightarrow> string list \<Rightarrow> 'a \<Rightarrow> (string option \<Rightarrow> 'a) \<Rightarrow> 'a" where
  "setting name args d f = (case last_given name args of None \<Rightarrow> d | Some v \<Rightarrow> f v)"

definition flag_true :: "string option \<Rightarrow> bool" where
  "flag_true v = (case v of None \<Rightarrow> True | Some x \<Rightarrow> to_lower x \<in> set true_values)"

lemma arg_vals_iff:
  "arg_vals a = (n, v) \<longleftrightarrow>
     CHR ''='' \<notin> set n \<and> (case v of None \<Rightarrow> a = n | Some x \<Rightarrow> a = n @ ''='' @ x)"
  using splitn2_cases [of a "CHR ''=''"] by (auto simp: arg_vals_def split: option.splits)

lemma last_given_Cons:
  assumes "arg_vals a = (n, v)" and "CHR ''='' \<notin> set name"
  shows "last_given name (a # args) =
    (case last_given name args of Some v \<Rightarrow> Some v | None \<Rightarrow> if n = name then Some v else None)"
proof -
  from assms(1) have n: "CHR ''='' \<notin> set n" and a: "case v of None \<Rightarrow> a = n | Some x \<Rightarrow> a = n @ ''='' @ x"
    by (simp_all add: arg_vals_iff)
  have named: "n = name" if "take (length name + 1) a = name @ ''=''"
  proof -
    have "a = take (length name + 1) a @ drop (length name + 1) a" by simp
    also have "\<dots> = name @ ''='' @ drop (length name + 1) a" unfolding that by simp
    finally have "a = name @ ''='' @ drop (length name + 1) a" .
    then have "arg_vals a = (name, Some (drop (length name + 1) a))" using assms(2) by (simp add: arg_vals_iff)
    with assms(1) show ?thesis by simp
  qed
  show ?thesis
  proof (cases v)
    case None
    with a have "a = n" by simp
    with None named show ?thesis by (simp split: option.split)
  next
    case (Some x)
    with a have "a = n @ ''='' @ x" by simp
    note eq = this
    with assms(2) have neq: "a \<noteq> name" by auto
    have "n = name \<Longrightarrow> take (length name + 1) a = name @ ''='' \<and> drop (length name + 1) a = x"
      using eq by simp
    then have "(if take (length name + 1) a = name @ ''='' then Some (Some (drop (length name + 1) a)) else None) =
        (if n = name then Some v else None)" using named Some by auto
    with neq show ?thesis by (simp only: last_given.simps if_False)
  qed
qed

lemma setting_Nil [simp]: "setting name [] d f = d"
  by (simp add: setting_def)

lemma setting_Cons:
  "arg_vals a = (n, v) \<Longrightarrow> CHR ''='' \<notin> set name \<Longrightarrow>
   setting name (a # args) d f = setting name args (if n = name then f v else d) f"
  by (simp add: setting_def last_given_Cons del: last_given.simps split: option.split)

lemma boolVal_eq:
  "boolVal n v =
     (case v of
        Some x \<Rightarrow> if to_lower x \<in> set true_values \<union> set false_values then Inr (flag_true v) else Inl (InvalidBool n x)
      | None \<Rightarrow> Inr True)"
  by (auto simp: boolVal_def flag_true_def true_values_def false_values_def split: option.splits)

text \<open>The relation describes the errors of \<open>parse_arg\<close>.\<close>

lemma refused_iff: "refused a e \<longleftrightarrow> parse_arg zero_args a = Inl e"
proof
  assume "refused a e"
  then show "parse_arg zero_args a = Inl e"
  proof cases
    case (flag n v)
    then have "arg_vals a = (n, Some v)" by (auto simp: arg_vals_iff flag_names_def)
    with flag show ?thesis by (auto simp: parse_arg_def flag_names_def boolVal_eq)
  next
    case no_value
    then have "arg_vals a = (a, None)" by (auto simp: arg_vals_iff text_names_def)
    with no_value show ?thesis by (auto simp: parse_arg_def text_names_def)
  next
    case (paths v)
    then have "arg_vals a = (''paths'', Some v)" by (auto simp: arg_vals_iff)
    with paths show ?thesis by (simp add: parse_arg_def)
  next
    case (no_package f)
    then have "arg_vals a = (''M'' @ f, None)" by (auto simp: arg_vals_iff)
    with no_package show ?thesis by (simp add: parse_arg_def)
  next
    case (unknown n)
    from unknown(5) obtain v where v: "arg_vals a = (n, v)"
    proof
      assume "a = n"
      with unknown(2) that [of None] show ?thesis by (simp add: arg_vals_iff)
    next
      assume "\<exists>v. a = n @ ''='' @ v"
      then obtain x where "a = n @ ''='' @ x" ..
      with unknown(2) that [of "Some x"] show ?thesis by (simp add: arg_vals_iff)
    qed
    have "\<not> (1 < length n \<and> hd n = CHR ''M'')" using unknown(4) by (cases n) auto
    with v unknown(1,3) show ?thesis
      by (auto simp: parse_arg_def flag_names_def text_names_def)
  qed
next
  assume err: "parse_arg zero_args a = Inl e"
  obtain n v where nv: "arg_vals a = (n, v)" by fastforce
  then have n: "CHR ''='' \<notin> set n" and a: "case v of None \<Rightarrow> a = n | Some x \<Rightarrow> a = n @ ''='' @ x"
    by (simp_all add: arg_vals_iff)
  consider (flag) "n \<in> set flag_names" | (textual) "n \<in> set text_names"
    | (M) f where "f \<noteq> ''''" "n = ''M'' @ f"
    | (unknown) "n \<notin> set flag_names \<union> set text_names" "\<nexists>f. f \<noteq> '''' \<and> n = ''M'' @ f" by blast
  then show "refused a e"
  proof cases
    case flag
    with err nv a obtain x where "v = Some x" "e = InvalidBool n x" "to_lower x \<notin> set true_values \<union> set false_values"
      by (auto simp: parse_arg_def flag_names_def boolVal_eq split: option.splits if_splits)
    with refused.flag [OF flag, of x] a show ?thesis by simp
  next
    case textual
    with err nv a show ?thesis
      by (auto simp: parse_arg_def text_names_def split: option.splits if_splits
          intro: refused.no_value [unfolded text_names_def] refused.paths [simplified])
  next
    case M
    with err nv a n show ?thesis
      by (auto simp: parse_arg_def split: option.splits if_splits intro: refused.no_package [simplified])
  next
    case unknown
    then have "\<not> (1 < length n \<and> hd n = CHR ''M'')" by (cases n) auto
    with err nv unknown have "e = UnknownOption n"
      by (auto simp: parse_arg_def flag_names_def text_names_def)
    with unknown n a show ?thesis by (auto intro!: refused.unknown split: option.splits)
  qed
qed

lemma accepted_iff: "\<not> isl (parse_arg zero_args a) \<longleftrightarrow> (\<nexists>e. refused a e)"
  by (cases "parse_arg zero_args a") (auto simp: refused_iff)

lemma parse_arg_cases:
  assumes "parse_arg r a = Inr r1"
  obtains
    (debug) v b where "arg_vals a = (''debug'', v)" "boolVal ''debug'' v = Inr b" "r1 = r\<lparr>debug := b\<rparr>"
  | (stubs) v b where "arg_vals a = (''legacy_stubs'', v)" "boolVal ''legacy_stubs'' v = Inr b" "r1 = r\<lparr>legacyStubs := b\<rparr>"
  | (names) v b where "arg_vals a = (''legacy_desc_names'', v)" "boolVal ''legacy_desc_names'' v = Inr b"
      "r1 = r\<lparr>legacyDescNames := b\<rparr>"
  | (import_path) v where "arg_vals a = (''import_path'', Some v)" "r1 = r\<lparr>importPath := v\<rparr>"
  | (module) v where "arg_vals a = (''module'', Some v)" "r1 = r\<lparr>moduleRoot := v\<rparr>"
  | (paths) v where "arg_vals a = (''paths'', Some v)" "r1 = r\<lparr>sourceRelative := (v = ''source_relative'')\<rparr>"
  | (M) f v where "arg_vals a = (CHR ''M'' # f, Some v)" "f \<noteq> ''''" "r1 = r\<lparr>importMap := AList.update f v (importMap r)\<rparr>"
proof -
  obtain n v where nv: "arg_vals a = (n, v)" by (cases "arg_vals a")
  consider "n = ''debug''" | "n = ''legacy_stubs''" | "n = ''legacy_desc_names''" | "n = ''import_path''" | "n = ''module''"
    | "n = ''paths''" | (other) "n \<noteq> ''debug''" "n \<noteq> ''legacy_stubs''" "n \<noteq> ''legacy_desc_names''" "n \<noteq> ''import_path''"
        "n \<noteq> ''module''" "n \<noteq> ''paths''"
    by argo
  then show ?thesis
  proof cases
    case other
    with assms nv have "1 < length n" "hd n = CHR ''M''" "\<exists>x. v = Some x \<and> r1 = r\<lparr>importMap := AList.update (tl n) x (importMap r)\<rparr>"
      by (auto simp: parse_arg_def split: if_splits option.splits)
    with nv show ?thesis by (cases n) (auto intro: M)
  qed (insert assms nv, simp_all add: parse_arg_def that split: sum.splits option.splits if_splits)
qed

text \<open>What \<open>parse_args\<close> makes of its arguments, from any start: the last one of each name counts.\<close>

lemma boolVal_true: "boolVal n v = Inr b \<Longrightarrow> b = flag_true v"
  by (auto simp: boolVal_eq flag_true_def split: option.splits if_splits)

lemma parse_args_last:
  "parse_args r args = Inr r1 \<Longrightarrow>
   debug r1 = setting ''debug'' args (debug r) flag_true \<and>
   legacyStubs r1 = setting ''legacy_stubs'' args (legacyStubs r) flag_true \<and>
   legacyDescNames r1 = setting ''legacy_desc_names'' args (legacyDescNames r) flag_true \<and>
   importPath r1 = setting ''import_path'' args (importPath r) the \<and>
   moduleRoot r1 = setting ''module'' args (moduleRoot r) the \<and>
   sourceRelative r1 = setting ''paths'' args (sourceRelative r) (\<lambda>v. v = Some ''source_relative'')"
proof (induction args arbitrary: r)
  case (Cons a args)
  then obtain r2 where r2: "parse_arg r a = Inr r2" "parse_args r2 args = Inr r1" by (auto split: sum.splits)
  from r2(1) Cons.IH [OF r2(2)] show ?case
    by (cases rule: parse_arg_cases) (auto simp: setting_Cons dest: boolVal_true)
qed simp

lemma parse_args_import_map:
  "parse_args r args = Inr r1 \<Longrightarrow> f \<noteq> '''' \<Longrightarrow> CHR ''='' \<notin> set f \<Longrightarrow>
   map_of (importMap r1) f = setting (CHR ''M'' # f) args (map_of (importMap r) f) id"
proof (induction args arbitrary: r)
  case (Cons a args)
  then obtain r2 where r2: "parse_arg r a = Inr r2" "parse_args r2 args = Inr r1" by (auto split: sum.splits)
  from r2(1) Cons.IH [OF r2(2) Cons.prems(2,3)] Cons.prems(3) show ?case
    by (cases rule: parse_arg_cases) (simp_all add: setting_Cons update_conv')
qed simp

text \<open>Whether an argument is refused does not depend on the others.\<close>

lemma parse_arg_error: "parse_arg r a = Inl e \<longleftrightarrow> parse_arg zero_args a = Inl e"
  by (cases "arg_vals a") (simp add: parse_arg_def split: sum.split option.split)

lemma parse_args_error:
  "(\<exists>r1. parse_args r args = Inr r1) \<and> (\<forall>a \<in> set args. \<not> isl (parse_arg zero_args a)) \<or>
   (\<exists>e pre a post. parse_args r args = Inl e \<and> args = pre @ a # post \<and> parse_arg zero_args a = Inl e \<and>
      (\<forall>b \<in> set pre. \<not> isl (parse_arg zero_args b)))"
proof (induction args arbitrary: r)
  case (Cons a args)
  show ?case
  proof (cases "parse_arg r a")
    case (Inl e)
    then have "parse_arg zero_args a = Inl e" using parse_arg_error [of r a e] by simp
    with Inl show ?thesis by (intro disjI2 exI [of _ e] exI [of _ "[]"] exI [of _ a] exI [of _ args]) simp
  next
    case (Inr r2)
    then have a: "\<not> isl (parse_arg zero_args a)" using parse_arg_error [of r a] by (cases "parse_arg zero_args a") auto
    show ?thesis
    proof (cases "\<exists>r1. parse_args r2 args = Inr r1")
      case True
      with Cons.IH [of r2] Inr a show ?thesis by auto
    next
      case False
      with Cons.IH [of r2] obtain e pre a' post where "parse_args r2 args = Inl e" "args = pre @ a' # post"
        "parse_arg zero_args a' = Inl e" "\<forall>b \<in> set pre. \<not> isl (parse_arg zero_args b)" by blast
      with Inr a show ?thesis
        by (intro disjI2 exI [of _ e] exI [of _ "a # pre"] exI [of _ a'] exI [of _ post]) simp
    qed
  qed
qed simp

text \<open>An accepted list gives no name of a text without a value.\<close>

lemma last_given_value:
  assumes "\<forall>a \<in> set args. \<nexists>x. refused a x" and "n \<in> set text_names"
  shows "last_given n args \<noteq> Some None"
  using assms(1)
proof (induction args)
  case (Cons a args)
  have "a \<noteq> n" using Cons.prems refused.no_value [OF assms(2)] by auto
  with Cons show ?case by (auto split: option.split)
qed simp

text \<open>C39. What the plugin's arguments mean. \<open>parseArgs\<close> refuses the list with the error of the first
  argument that is refused, whatever the others are: a flag with a value other than true, on, yes, 1,
  false, off, no and 0 (in any case), an import path, module root, style of paths or \<open>M\<close> option without
  a value, a style of paths other than \<open>import\<close> and \<open>source_relative\<close>, and any other name
  (\<open>refused\<close>); or because a module root is combined with source-relative paths. Otherwise each
  setting is the one of the last argument of its name: a flag is true without a value and with
  one of the first four values, an import path and a module root are the given text, paths are
  source-relative if the value says so, and the Go package of a file \<open>f\<close> is that of the last
  \<open>Mf=package\<close>. Without an argument of the name, flags are false and texts empty.\<close>

theorem parseArgs_last_wins:
  "case parseArgs args of
     Inl e \<Rightarrow>
       (\<exists>pre a post. args = pre @ a # post \<and> refused a e \<and> (\<forall>b \<in> set pre. \<nexists>x. refused b x)) \<or>
       (e = ModuleWithSourceRelative \<and> (\<forall>a \<in> set args. \<nexists>x. refused a x) \<and>
          last_given ''paths'' args = Some (Some ''source_relative'') \<and>
          (\<exists>v. v \<noteq> '''' \<and> last_given ''module'' args = Some (Some v)))
   | Inr r \<Rightarrow>
       (\<forall>a \<in> set args. \<nexists>x. refused a x) \<and>
       debug r = setting ''debug'' args False flag_true \<and>
       legacyStubs r = setting ''legacy_stubs'' args False flag_true \<and>
       legacyDescNames r = setting ''legacy_desc_names'' args False flag_true \<and>
       importPath r = setting ''import_path'' args '''' the \<and> moduleRoot r = setting ''module'' args '''' the \<and>
       sourceRelative r = setting ''paths'' args False (\<lambda>v. v = Some ''source_relative'') \<and>
       (\<forall>f. f \<noteq> '''' \<and> CHR ''='' \<notin> set f \<longrightarrow> map_of (importMap r) f = setting (''M'' @ f) args None id) \<and>
       \<not> (sourceRelative r \<and> moduleRoot r \<noteq> '''')"
proof (cases "parse_args zero_args args")
  case (Inl e)
  with parse_args_error [of zero_args args] show ?thesis
    by (simp add: parseArgs_def accepted_iff refused_iff [symmetric])
next
  case (Inr r)
  have ok: "\<forall>a \<in> set args. \<nexists>x. refused a x"
    using parse_args_error [of zero_args args] Inr by (simp add: accepted_iff)
  note last = parse_args_last [OF Inr]
  have packages: "\<forall>f. f \<noteq> '''' \<and> CHR ''='' \<notin> set f \<longrightarrow> map_of (importMap r) f = setting (''M'' @ f) args None id"
    using parse_args_import_map [OF Inr] by (simp add: zero_args_def)
  show ?thesis
  proof (cases "sourceRelative r \<and> moduleRoot r \<noteq> ''''")
    case True
    have "last_given ''module'' args \<noteq> Some None"
      using last_given_value [OF ok, of "''module''"] by (simp add: text_names_def)
    with True last have "last_given ''paths'' args = Some (Some ''source_relative'')"
      "\<exists>v. v \<noteq> '''' \<and> last_given ''module'' args = Some (Some v)"
      by (auto simp: setting_def zero_args_def split: option.splits)
    with ok Inr True show ?thesis by (simp add: parseArgs_def)
  next
    case False
    then have "parseArgs args = Inr r" using Inr by (simp add: parseArgs_def)
    with ok last packages False show ?thesis by (simp add: zero_args_def)
  qed
qed

theorem parseArgs_last_wins_witness:
  "map_of (importMap (projr (parseArgs [''legacy_stubs'', ''Ma.proto=x'', ''Ma.proto=y'', ''debug=NO'']))) ''a.proto'' = Some ''y'' \<and>
   legacyStubs (projr (parseArgs [''legacy_stubs'', ''Ma.proto=x'', ''Ma.proto=y'', ''debug=NO'']))"
proof -
  let ?args = "[''legacy_stubs'', ''Ma.proto=x'', ''Ma.proto=y'', ''debug=NO'']"
  have "\<not> isl (parseArgs ?args)" by code_simp
  then obtain r where r: "parseArgs ?args = Inr r" by (cases "parseArgs ?args") auto
  from parseArgs_last_wins [of ?args, unfolded r sum.case]
  have "legacyStubs r = setting ''legacy_stubs'' ?args False flag_true"
    "map_of (importMap r) ''a.proto'' = setting (''M'' @ ''a.proto'') ?args None id" by simp_all
  moreover have "setting ''legacy_stubs'' ?args False flag_true" "setting (''M'' @ ''a.proto'') ?args None id = Some ''y''"
    by code_simp+
  ultimately show ?thesis by (simp add: r)
qed

subsection \<open>Stubs\<close>

lemma render_Cons:
  "render data (c # s) =
     (if c = CHR ''{'' \<and> take 2 s = ''{.'' then
        (case data (takeWhile (\<lambda>c. c \<noteq> CHR ''}'') (drop 2 s)) of
           None \<Rightarrow> None
         | Some v \<Rightarrow> map_option ((@) v)
             (render data (drop (length (takeWhile (\<lambda>c. c \<noteq> CHR ''}'') (drop 2 s)) + 2) (drop 2 s))))
      else map_option ((#) c) (render data s))"
  by (simp add: Let_def take_Cons')

lemmas render_eval = render_Cons method_fields_def nl_def

definition unary_body :: "method_info_data \<Rightarrow> string" where
  "unary_body info = code_lines
     [''out := new('' @ mi_RequestType info @ '')'',
      ''err := c.ch.Invoke(ctx, \"/'' @ mi_ServiceName info @ ''/'' @ mi_MethodName info @ ''\", in, out, opts...)'',
      ''if err != nil {'', ''return nil, err'', ''}'', ''return out, nil'']"

definition unary_lines :: "method_info_data \<Rightarrow> string" where
  "unary_lines info = ''out := new('' @ mi_RequestType info @ '')'' @ nl @
     ''err := c.ch.Invoke(ctx, \"/'' @ mi_ServiceName info @ ''/'' @ mi_MethodName info @ ''\", in, out, opts...)''"

definition new_stream_line :: "method_info_data \<Rightarrow> string" where
  "new_stream_line info =
     ''stream, err := c.ch.NewStream(ctx, &'' @ mi_ServiceDesc info @ ''.Streams['' @ show_nat (mi_StreamIndex info) @
     ''], \"/'' @ mi_ServiceName info @ ''/'' @ mi_MethodName info @ ''\", opts...)''"

definition bidi_body :: "method_info_data \<Rightarrow> string" where
  "bidi_body info = code_lines
     [new_stream_line info, ''if err != nil {'', ''return nil, err'', ''}'',
      ''x := &'' @ mi_StreamClient info @ ''{stream}'', ''return x, nil'']"

definition server_stream_body :: "method_info_data \<Rightarrow> string" where
  "server_stream_body info = code_lines
     [new_stream_line info, ''if err != nil {'', ''return nil, err'', ''}'',
      ''x := &'' @ mi_StreamClient info @ ''{stream}'',
      ''if err := x.ClientStream.SendMsg(in); err != nil {'', ''return nil, err'', ''}'',
      ''if err := x.ClientStream.CloseSend(); err != nil {'', ''return nil, err'', ''}'', ''return x, nil'']"

lemma render_unary: "render (method_fields info) unary_template = Some (unary_body info)"
  by (simp add: unary_template_def unary_body_def render_eval del: render.simps(2))

lemma render_bidi: "render (method_fields info) bidi_template = Some (bidi_body info)"
  by (simp add: bidi_template_def bidi_body_def new_stream_line_def render_eval del: render.simps(2))

lemma render_server_stream: "render (method_fields info) server_stream_template = Some (server_stream_body info)"
  by (simp add: server_stream_template_def server_stream_body_def new_stream_line_def render_eval del: render.simps(2))

definition streaming :: "pb_method \<Rightarrow> bool" where
  "streaming md \<longleftrightarrow> pm_ClientStreaming md \<or> pm_ServerStreaming md"

text \<open>The stub of a method whose index among the streams is \<open>k\<close>.\<close>

definition stub_info :: "'n go_names \<Rightarrow> 'n \<Rightarrow> code_gen_args \<Rightarrow> pb_service \<Rightarrow> nat \<Rightarrow> pb_method \<Rightarrow> method_info_data" where
  "stub_info gn names args sd k md =
     \<lparr>mi_ServiceName = ps_FullName sd, mi_MethodName = pm_Name md,
      mi_ServiceDesc = serviceDescVarName gn names sd (legacyDescNames args),
      mi_StreamClient = GoTypeForStreamClientImpl gn names sd md, mi_StreamIndex = k,
      mi_RequestType = GoTypeForMessage gn names (pm_Output md)\<rparr>"

definition stub_body :: "'n go_names \<Rightarrow> 'n \<Rightarrow> code_gen_args \<Rightarrow> pb_service \<Rightarrow> nat \<Rightarrow> pb_method \<Rightarrow> string" where
  "stub_body gn names args sd k md =
     (if pm_ClientStreaming md then bidi_body (stub_info gn names args sd k md)
      else if pm_ServerStreaming md then server_stream_body (stub_info gn names args sd k md)
      else unary_body (stub_info gn names args sd k md))"

lemma client_method_stub:
  "\<exists>fn. client_method gn names args sd k md = Some (GoFunc fn, if streaming md then k + 1 else k) \<and>
     fn_Name fn = CamelCase gn (pm_Name md) \<and> fn_Receiver fn = Some (client_type gn sd) \<and>
     fn_Body fn = stub_body gn names args sd k md"
  by (simp add: client_method_def stub_body_def stub_info_def streaming_def render_unary render_bidi
      render_server_stream Let_def)

lemma client_methods_stubs:
  "\<exists>es. client_methods gn names args sd k mds = Some es \<and> length es = length mds \<and>
     (\<forall>i < length mds. \<exists>fn. es ! i = GoFunc fn \<and>
        fn_Name fn = CamelCase gn (pm_Name (mds ! i)) \<and> fn_Receiver fn = Some (client_type gn sd) \<and>
        fn_Body fn = stub_body gn names args sd (k + length (filter streaming (take i mds))) (mds ! i))"
proof (induction mds arbitrary: k)
  case (Cons md mds)
  from client_method_stub [of gn names args sd k md] obtain fn where fn: "client_method gn names args sd k md =
      Some (GoFunc fn, if streaming md then k + 1 else k)" "fn_Name fn = CamelCase gn (pm_Name md)"
    "fn_Receiver fn = Some (client_type gn sd)" "fn_Body fn = stub_body gn names args sd k md" by blast
  from Cons.IH [of "if streaming md then k + 1 else k"] fn obtain es where
    "client_methods gn names args sd (if streaming md then k + 1 else k) mds = Some es" "length es = length mds"
    "\<forall>i < length mds. \<exists>fn. es ! i = GoFunc fn \<and> fn_Name fn = CamelCase gn (pm_Name (mds ! i)) \<and>
        fn_Receiver fn = Some (client_type gn sd) \<and> fn_Body fn = stub_body gn names args sd
          ((if streaming md then k + 1 else k) + length (filter streaming (take i mds))) (mds ! i)" by blast
  with fn show ?case
    by (intro exI [of _ "GoFunc fn # es"]) (auto simp: nth_Cons less_Suc_eq_0_disj split: nat.split)
qed simp

lemma filter_nth_take:
  "i < length xs \<Longrightarrow> P (xs ! i) \<Longrightarrow>
   length (filter P (take i xs)) < length (filter P xs) \<and> filter P xs ! length (filter P (take i xs)) = xs ! i"
proof (induction xs arbitrary: i)
  case (Cons x xs)
  then show ?case by (cases i) auto
qed simp

text \<open>C38. Which method a generated client stub calls. For every method of a service, in order, the plugin
  generates a method of the client type with the method's Go name. That of a unary method
  invokes \<open>"/service/method"\<close>. That of a streaming method opens a stream with the same path and the
  descriptor \<open>Streams[k]\<close>, and \<open>k\<close> is the place of this very method among the streaming methods of the
  service. The in-process channel takes such a path apart into the service's and the method's name.\<close>

theorem generated_stubs:
  assumes "legacyStubs args" and "i < length (ps_Methods sd)" and "md = ps_Methods sd ! i"
    and "k = length (filter streaming (take i (ps_Methods sd)))"
    and "CHR ''/'' \<notin> set (ps_FullName sd)" and "ps_FullName sd \<noteq> []"
  shows "\<exists>es fn rest. service_elements gn names args sd = Some es \<and> length es = 3 + length (ps_Methods sd) \<and>
    es ! (3 + i) = GoFunc fn \<and> fn_Name fn = CamelCase gn (pm_Name md) \<and> fn_Receiver fn = Some (client_type gn sd) \<and>
    (if streaming md
     then k < length (filter streaming (ps_Methods sd)) \<and> filter streaming (ps_Methods sd) ! k = md \<and>
       fn_Body fn = ''stream, err := c.ch.NewStream(ctx, &'' @ serviceDescVarName gn names sd (legacyDescNames args) @
         ''.Streams['' @ show_nat k @ ''], \"'' @ ''/'' @ ps_FullName sd @ ''/'' @ pm_Name md @ ''\", opts...)'' @ nl @ rest
     else fn_Body fn = ''out := new('' @ GoTypeForMessage gn names (pm_Output md) @ '')'' @ nl @
         ''err := c.ch.Invoke(ctx, \"'' @ ''/'' @ ps_FullName sd @ ''/'' @ pm_Name md @ ''\", in, out, opts...)'' @ nl @ rest) \<and>
    split_method (''/'' @ ps_FullName sd @ ''/'' @ pm_Name md) = Ret (ps_FullName sd, pm_Name md)"
proof -
  obtain ms where ms: "client_methods gn names args sd 0 (ps_Methods sd) = Some ms" "length ms = length (ps_Methods sd)"
    "\<forall>i < length (ps_Methods sd). \<exists>fn. ms ! i = GoFunc fn \<and>
        fn_Name fn = CamelCase gn (pm_Name (ps_Methods sd ! i)) \<and> fn_Receiver fn = Some (client_type gn sd) \<and>
        fn_Body fn = stub_body gn names args sd (0 + length (filter streaming (take i (ps_Methods sd)))) (ps_Methods sd ! i)"
    using client_methods_stubs [of gn names args sd 0 "ps_Methods sd"] by blast
  from ms(3) assms(2) obtain fn where fn: "ms ! i = GoFunc fn" "fn_Name fn = CamelCase gn (pm_Name md)"
    "fn_Receiver fn = Some (client_type gn sd)" "fn_Body fn = stub_body gn names args sd k md"
    unfolding assms(3,4) by auto
  let ?es = "[register_handler gn names args sd, client_struct gn sd, client_constructor gn names sd] @ ms"
  have es: "service_elements gn names args sd = Some ?es" "?es ! (3 + i) = GoFunc fn" "length ?es = 3 + length (ps_Methods sd)"
    using ms fn(1) assms(1) by (simp_all add: service_elements_def)
  have line: "\<exists>rest. bidi_body info = new_stream_line info @ nl @ rest"
    "\<exists>rest. server_stream_body info = new_stream_line info @ nl @ rest"
    "\<exists>rest. unary_body info = unary_lines info @ nl @ rest" for info
    by (simp_all add: bidi_body_def server_stream_body_def unary_body_def unary_lines_def)
  obtain rest where rest: "if streaming md then fn_Body fn = new_stream_line (stub_info gn names args sd k md) @ nl @ rest
      else fn_Body fn = unary_lines (stub_info gn names args sd k md) @ nl @ rest"
    using line [of "stub_info gn names args sd k md"] fn(4)
    by (cases "pm_ClientStreaming md"; cases "pm_ServerStreaming md"; simp add: stub_body_def streaming_def) blast+
  have index: "streaming md \<longrightarrow> k < length (filter streaming (ps_Methods sd)) \<and> filter streaming (ps_Methods sd) ! k = md"
    using filter_nth_take [of i "ps_Methods sd" streaming] assms(2,3,4) by blast
  have lines: "new_stream_line (stub_info gn names args sd k md) =
      ''stream, err := c.ch.NewStream(ctx, &'' @ serviceDescVarName gn names sd (legacyDescNames args) @
         ''.Streams['' @ show_nat k @ ''], \"'' @ ''/'' @ ps_FullName sd @ ''/'' @ pm_Name md @ ''\", opts...)''"
    "unary_lines (stub_info gn names args sd k md) = ''out := new('' @ GoTypeForMessage gn names (pm_Output md) @ '')'' @ nl @
         ''err := c.ch.Invoke(ctx, \"'' @ ''/'' @ ps_FullName sd @ ''/'' @ pm_Name md @ ''\", in, out, opts...)''"
    by (simp_all add: new_stream_line_def unary_lines_def stub_info_def)
  have goal: "(if streaming md
     then k < length (filter streaming (ps_Methods sd)) \<and> filter streaming (ps_Methods sd) ! k = md \<and>
       fn_Body fn = new_stream_line (stub_info gn names args sd k md) @ nl @ rest
     else fn_Body fn = unary_lines (stub_info gn names args sd k md) @ nl @ rest)"
    using rest index by (cases "streaming md") (simp_all only: if_True if_False simp_thms)
  show ?thesis
    using goal es fn(2,3) full_method_split(3) [OF assms(5,6), of "pm_Name md"]
    unfolding lines append_assoc by (intro exI [of _ ?es] exI [of _ fn] exI [of _ rest] conjI)
qed

text \<open>Plain names, and a service with a unary method before and a stream before and after another.\<close>

definition plain_names :: "unit go_names" where
  "plain_names = \<lparr>gn_New = (\<lambda>_ _ _. ()), GoPackageForFileWithOverride = (\<lambda>_ _ n. n), GoPackageForFile = (\<lambda>_ _. ('''', '''')),
     OutputFilenameFor = (\<lambda>_ fd ext. pf_Name fd @ ext), CamelCase = id, gn_Unexport = id,
     GoTypeForServiceServer = (\<lambda>_. ps_Name), GoTypeForServiceClient = (\<lambda>_. ps_Name),
     GoNameOfServiceDesc = (\<lambda>_ sd. ''_'' @ ps_Name sd), GoNameOfExportedServiceDesc = (\<lambda>_. ps_Name),
     GoTypeForStreamClient = (\<lambda>_ _. pm_Name), GoTypeForStreamClientImpl = (\<lambda>_ _. pm_Name),
     GoTypeForMessage = (\<lambda>_ m. m), GoTypeOfRequest = (\<lambda>_. pm_Input), GoTypeOfResponse = (\<lambda>_. pm_Output)\<rparr>"

definition chat_service :: pb_service where
  "chat_service = \<lparr>ps_Name = ''Chat'', ps_FullName = ''x.Chat'', ps_Methods =
     [\<lparr>pm_Name = ''Down'', pm_ClientStreaming = False, pm_ServerStreaming = True, pm_Input = ''In'', pm_Output = ''Out''\<rparr>,
      \<lparr>pm_Name = ''Get'', pm_ClientStreaming = False, pm_ServerStreaming = False, pm_Input = ''In'', pm_Output = ''Out''\<rparr>,
      \<lparr>pm_Name = ''Talk'', pm_ClientStreaming = True, pm_ServerStreaming = True, pm_Input = ''In'', pm_Output = ''Out''\<rparr>]\<rparr>"

theorem generated_stubs_witness:
  "\<exists>es fn rest. service_elements plain_names () (zero_args\<lparr>legacyStubs := True\<rparr>) chat_service = Some es \<and> es ! 5 = GoFunc fn \<and>
     fn_Name fn = ''Talk'' \<and>
     fn_Body fn = ''stream, err := c.ch.NewStream(ctx, &Chat.Streams[1], \"/x.Chat/Talk\", opts...)'' @ nl @ rest"
proof -
  let ?args = "zero_args\<lparr>legacyStubs := True\<rparr>" and ?md = "ps_Methods chat_service ! 2"
  have hyps: "legacyStubs ?args" "2 < length (ps_Methods chat_service)" "?md = ps_Methods chat_service ! 2"
    "1 = length (filter streaming (take 2 (ps_Methods chat_service)))"
    "CHR ''/'' \<notin> set (ps_FullName chat_service)" "ps_FullName chat_service \<noteq> []"
    by (simp_all add: chat_service_def streaming_def)
  have sel: "streaming ?md" "pm_Name ?md = ''Talk''" "ps_FullName chat_service = ''x.Chat''"
    "serviceDescVarName plain_names () chat_service (legacyDescNames ?args) = ''Chat''"
    "show_nat 1 = ''1''"
    by (code_simp)+
  have camel: "CamelCase plain_names n = n" for n by (simp add: plain_names_def)
  from generated_stubs [OF hyps, of plain_names "()"] obtain es fn rest where
    "service_elements plain_names () ?args chat_service = Some es" "es ! (3 + 2) = GoFunc fn" "fn_Name fn = ''Talk''"
    "fn_Body fn = ''stream, err := c.ch.NewStream(ctx, &'' @ ''Chat'' @ ''.Streams['' @ ''1'' @ ''], \"'' @ ''/'' @ ''x.Chat'' @
       ''/'' @ ''Talk'' @ ''\", opts...)'' @ nl @ rest"
    unfolding sel camel if_P [OF sel(1)] by blast
  then show ?thesis by (intro exI [of _ es] exI [of _ fn] exI [of _ rest]) simp
qed

end
