(* ===== verification/Spec2Isabelle.thy ===== *)
theory Spec2Isabelle
  imports Inproc_Properties Inproc_Unary_Properties Inproc_Stream_Call Registry_Properties Wire_Properties Json_Properties Http_Properties Http_Register_Properties Http_Stream_Wrapper Transport_Properties Test_Service Json_Codec Code_Gen_Properties
begin

text \<open>
  A verification development for \<open>grpchan\<close>, a Go library that lets generated gRPC stubs run
  over something other than gRPC's own HTTP/2 transport. This theory imports all others.

  \<^bold>\<open>The program.\<close> A client holds a channel (\<open>grpc.ClientConnInterface\<close>) with two operations,
  \<open>Invoke\<close> for unary methods and \<open>NewStream\<close> for the others. A server is a
  \<open>grpc.ServiceRegistrar\<close> with the operation \<open>RegisterService\<close>. The library has

  \<^item> \<open>server.go\<close>: \<open>HandlerMap\<close>, a registrar that only remembers what was registered;
  \<^item> \<open>intercept.go\<close>: channels and registrars that run interceptors around another one;
  \<^item> \<open>inprocgrpc/\<close>: a channel that calls handlers of the same process on other goroutines and
    copies the messages;
  \<^item> \<open>httpgrpc/\<close>: a channel and a server that carry calls over HTTP 1.1: a unary call is one
    request, a stream is a framing of messages in the two bodies, either size-prefixed protobuf
    or JSON with server-sent events;
  \<^item> \<open>internal/\<close>: call options, the transport streams behind \<open>grpc.SetHeader\<close>, the event
    format;
  \<^item> \<open>cmd/protoc-gen-grpchan\<close>: a protoc plugin that generates registration functions and
    client stubs.

  The two transports share the shape of a handler (\<open>'m handler\<close> of \<open>Inproc_Server\<close>), call
  options, metadata, the interface of a server transport stream and the service descriptors.

  \<^bold>\<open>Shared theories.\<close>

  \<^item> \<open>Prelude\<close>: bytes, Go maps, results of calls that may panic; the collections of rewrite
    rules \<open>go_map\<close> and \<open>go_text\<close>. \<open>Go_Text\<close>, \<open>Base64\<close>: the parts of Go's standard library on
    strings, numbers and base64 that the program uses.
  \<^item> \<open>Grpc_Status\<close>: codes, statuses, errors, and the translation of context errors
    (\<open>internal/misc.go\<close>, \<open>httpgrpc/client.go\<close>).
  \<^item> \<open>Call_Options\<close>: \<open>internal/call_options.go\<close>; pointers of the caller are addresses of a
    store. \<open>Cloner\<close>: \<open>inprocgrpc/cloner.go\<close> and the message helpers of \<open>internal/misc.go\<close>.
  \<^item> \<open>Transport_Stream\<close>: \<open>internal/transport_stream.go\<close>, with the contract of a server
    transport stream as a locale, interpreted on the in-process stream, on the collector of unary
    calls and (in \<open>Http_Stream_Server\<close>) on the HTTP stream.

  \<^bold>\<open>Registration and interception.\<close> \<open>Handler_Map\<close> (\<open>server.go\<close>, method lookup of
  \<open>internal/misc.go\<close>; the locale \<open>registrar\<close>), \<open>Intercept_Chain\<close>, \<open>Intercept_Client\<close> and
  \<open>Intercept_Server\<close> (\<open>intercept.go\<close>). \<open>Registry_Properties\<close> shows what registration
  accepts and what is found afterwards, and that interceptors run in the documented order and
  that adding them in two goes is adding the concatenation.

  \<^bold>\<open>The in-process channel\<close> (\<open>inprocgrpc/in_process.go\<close>).

  \<^item> \<open>Inproc_Frames\<close>: \<open>frame\<close>, \<open>readMessage\<close>, \<open>writeMessage\<close>, Go channels, events of the
    stats handler. \<open>Inproc_Server\<close>: \<open>inProcessServerStream\<close> and \<open>finish\<close>, each operation a
    program of atomic actions, and its abstract view. \<open>Inproc_Client\<close>:
    \<open>inProcessClientStream\<close>.
  \<^item> \<open>Inproc_Rpc\<close>: the goroutines of \<open>NewStream\<close> as a step relation, with cancellation at any
    point. \<open>Inproc_Delivery\<close>, \<open>Inproc_Safety\<close>, \<open>Inproc_Liveness\<close> hold its invariants and
    the schedules that bring it to its end; \<open>Inproc_Properties\<close> the theorems: every interleaving
    delivers what the handler sent, nobody writes to a closed channel, frames are first-in
    first-out, no deadlock, the server stream refines its view.
  \<^item> \<open>Inproc_Channel\<close>: \<open>Channel\<close>, its configuration, the context of a server and the lookup of
    a handler. \<open>Inproc_Unary\<close>, \<open>Inproc_Unary_Safety\<close>, \<open>Inproc_Unary_Properties\<close>: \<open>Invoke\<close>
    and its goroutine as a step relation, with the same kinds of theorems. \<open>Inproc_Stream_Call\<close>:
    a streaming call from registration to result, and the well-formed states of one.

  \<^bold>\<open>HTTP\<close> (\<open>httpgrpc/\<close>).

  \<^item> Bytes: \<open>Wire_Io\<close>, \<open>Wire_Framing\<close> (size-prefixed streams), \<open>Sse\<close> (server-sent events,
    \<open>internal/sse/sse.go\<close>) and \<open>Json_Stream\<close>, all of \<open>io.go\<close>; a framing is a locale,
    interpreted on the three. \<open>Wire_Properties\<close> and \<open>Json_Properties\<close> have the round trips,
    what a truncated stream gives, the limits, and what holds of arbitrary bytes.
  \<^item> \<open>Http_Codes\<close> (\<open>codes.go\<close>), \<open>Http_Metadata\<close> (\<open>toHeaders\<close>, \<open>asMetadata\<close>),
    \<open>Http_Env\<close> (what is used of other packages), \<open>Http_Server\<close> (\<open>handleMethod\<close>),
    \<open>Http_Client\<close> (\<open>Invoke\<close>). \<open>Http_Transport\<close> and \<open>Http_Exchange\<close> put the two sides
    together; \<open>Http_Properties\<close> has the unary call from end to end and its errors.
  \<^item> \<open>Http_Stream_Server\<close> (\<open>handleStream\<close>, \<open>serverStream\<close>), \<open>Http_Stream_View\<close> (its abstract
    view), \<open>Http_Stream_Client\<close> (\<open>NewStream\<close>, \<open>clientStream\<close>, \<open>doHttpCall\<close>, as a step
    relation), \<open>Http_Stream_Safety\<close>, \<open>Http_Stream_Delivery\<close> (its invariants),
    \<open>Http_Stream_Exchange\<close>, \<open>Http_Stream_Call\<close> (the two sides together),
    \<open>Http_Stream_Properties\<close>, \<open>Http_Stream_Results\<close> (the theorems: delivery in every
    interleaving, no false success, exactly when the client panics, no deadlock).
    \<open>Http_Stream_Wrapper\<close>: the object that a caller holds, which keeps a stream from being
    cancelled by the garbage collector during a call.
  \<^item> \<open>Http_Mux\<close>, \<open>Http_Register\<close>, \<open>Http_Register_Properties\<close>: \<open>Server\<close>, its options,
    registration and routing, \<open>HandleServices\<close>, \<open>HandleMethod\<close>, \<open>HandleStream\<close>.
  \<^item> \<open>Json_Codec\<close>: the codec of \<open>json.go\<close>, which keeps the law that the properties ask of one.

  \<^bold>\<open>The transports compared.\<close> \<open>Transport_Handler\<close> says what a streaming handler does for a
  list of requests, with no transport in sight, and shows that the in-process channel (by an
  invariant over its steps) and \<open>handleStream\<close> (by induction on the handler) make it do just
  that; \<open>Transport_Properties\<close> concludes that it behaves the same behind both, if it is half-duplex
  or the HTTP connection supports more. \<open>Test_Service\<close>
  has the handlers of \<open>grpchantesting/test_service.go\<close>, with what they do for any requests.

  \<^bold>\<open>The plugin.\<close> \<open>Code_Gen\<close>, \<open>Code_Gen_Properties\<close>: its arguments, and the declarations that
  it generates for a file of services.

  \<^bold>\<open>Modelling.\<close> A Go map is an association list with distinct keys whose order stands for an
  iteration order, so theorems hold for every order. A panic is a value (\<open>Panic\<close> of \<open>'a go\<close>),
  an error is the left of a sum or an \<open>option\<close>. Concurrency is a step relation: a step is one
  interaction of a goroutine with something shared, and what runs under a mutex without such an
  interaction is one step. Bodies of requests and responses may end or fail after any byte; the
  context may be cancelled at any step. What is left of a request's body when a streaming handler
  has begun to answer is a parameter: nothing over HTTP 1.1, where full-duplex streams
  therefore fail, all of it over HTTP 2.

  \<^bold>\<open>Bounds and fuel.\<close> A handler is a well-founded tree of calls, so it ends by itself. Only the
  receiving loops of the test service, which go on for as long as requests come, run on fuel, and
  one more than the number of requests is shown to be enough. What the transports add, and the readers on arbitrary bytes, end by proofs of
  termination. The channels of the in-process transport have the capacity 1 that the code gives
  them, \<open>rCh\<close> has none. Sizes of messages are 32-bit words on the wire, with the reader's limit
  of 100 MB; timeouts are 64-bit products with their wrap-around.

  \<^bold>\<open>Parameters.\<close> Other packages are arguments of the definitions, and what a property needs of
  them is a hypothesis of it, or an assumption of a locale that the concrete instances of the
  witnesses discharge: protobuf, codecs and cloning (what is unmarshalled or copied is what was
  marshalled), \<open>protojson\<close>, the numbers of gRPC's codes, \<open>mime\<close>, \<open>net/url\<close>, \<open>net/http\<close>'s round trip,
  gRPC's \<open>metadata.Join\<close>, \<open>goprotoc\<close> and \<open>gopoet\<close>.

  \<^bold>\<open>Not modelled.\<close> the peer and TLS information in contexts; the plugin protocol; what a
  message holds after a \<open>RecvMsg\<close> or a handler's decoding that returned an error (for the
  response of a unary call it is modelled); calls that a handler makes on its stream from several
  goroutines or after it has returned; generated code
  (\<open>*.pb.go\<close>, \<open>*.pb.grpchan.go\<close>); the tests of \<open>channel_test_cases.go\<close>; package comments.
\<close>

end
